(* ===== verification/Prelude.thy ===== *)
theory Prelude
  imports Main "HOL-Library.Word"
begin

text \<open>
  Shared vocabulary of the development: machine integers, fallible results as sums, the
  big-endian byte conversions of the standard library, and the lemma collections every
  component draws on.

  A \<open>Result<T, E>\<close> of the source is a value of \<open>E + T\<close>: \<open>Inl\<close> is \<open>Err\<close>, \<open>Inr\<close> is \<open>Ok\<close>,
  and the operator \<open>?\<close> is \<open>bindE\<close>. A byte slice or \<open>Vec<u8>\<close> is a \<open>u8 list\<close>, a fixed-size
  array \<open>[u8; N]\<close> is a \<open>u8 list\<close> whose length is tracked by the component's well-formedness
  predicate, and a \<open>usize\<close> used as an offset is a \<open>nat\<close> (with the checked additions of the
  source written out at 64 bits).
\<close>

unbundle bit_operations_syntax

type_synonym u8 = "8 word"
type_synonym u16 = "16 word"
type_synonym u32 = "32 word"
type_synonym u64 = "64 word"
type_synonym bytes = "u8 list"

named_theorems result_simps "laws of the result type"
named_theorems be_simps "laws of the big-endian conversions"

section \<open>Results\<close>

fun bindE :: "'e + 'a \<Rightarrow> ('a \<Rightarrow> 'e + 'b) \<Rightarrow> 'e + 'b" where
  "bindE (Inl e) f = Inl e"
| "bindE (Inr x) f = f x"

fun map_err :: "('e \<Rightarrow> 'f) \<Rightarrow> 'e + 'a \<Rightarrow> 'f + 'a" where
  "map_err g (Inl e) = Inl (g e)"
| "map_err g (Inr x) = Inr x"

fun mapE :: "('a \<Rightarrow> 'b) \<Rightarrow> 'e + 'a \<Rightarrow> 'e + 'b" where
  "mapE g (Inl e) = Inl e"
| "mapE g (Inr x) = Inr (g x)"

definition ok_or :: "'a option \<Rightarrow> 'e \<Rightarrow> 'e + 'a" where
  "ok_or x e = (case x of None \<Rightarrow> Inl e | Some y \<Rightarrow> Inr y)"

definition is_ok :: "'e + 'a \<Rightarrow> bool" where
  "is_ok r = (case r of Inl _ \<Rightarrow> False | Inr _ \<Rightarrow> True)"

lemma bindE_cong [fundef_cong]:
  assumes "m = m'" and "\<And>x. m' = Inr x \<Longrightarrow> f x = g x"
  shows "bindE m f = bindE m' g"
  using assms by (cases m') auto

lemma bindE_Inr_iff [result_simps]: "bindE m f = Inr y \<longleftrightarrow> (\<exists>x. m = Inr x \<and> f x = Inr y)"
  by (cases m) auto

lemma bindE_Inl_iff: "bindE m f = Inl e \<longleftrightarrow> m = Inl e \<or> (\<exists>x. m = Inr x \<and> f x = Inl e)"
  by (cases m) auto

lemma map_err_Inr_iff [result_simps]: "map_err g m = Inr y \<longleftrightarrow> m = Inr y"
  by (cases m) auto

lemma map_err_Inl_iff [result_simps]: "map_err g m = Inl e \<longleftrightarrow> (\<exists>d. m = Inl d \<and> e = g d)"
  by (cases m) auto

lemma mapE_Inr_iff [result_simps]: "mapE g m = Inr y \<longleftrightarrow> (\<exists>x. m = Inr x \<and> y = g x)"
  by (cases m) auto

lemma mapE_Inl_iff [result_simps]: "mapE g m = Inl e \<longleftrightarrow> m = Inl e"
  by (cases m) auto

lemma bindE_mapE [simp]: "bindE (mapE g m) f = bindE m (\<lambda>x. f (g x))"
  by (cases m) auto

lemma bindE_assoc: "bindE (bindE m f) g = bindE m (\<lambda>x. bindE (f x) g)"
  by (cases m) auto

lemma ok_or_simps [simp]: "ok_or None e = Inl e" "ok_or (Some y) e = Inr y"
  by (simp_all add: ok_or_def)

lemma ok_or_Inr_iff [result_simps]: "ok_or x e = Inr y \<longleftrightarrow> x = Some y"
  by (cases x) auto

lemma ok_or_Inl_iff [result_simps]: "ok_or x e = Inl d \<longleftrightarrow> x = None \<and> d = e"
  by (cases x) auto

lemma is_ok_simps [simp]: "\<not> is_ok (Inl e)" "is_ok (Inr x)"
  by (simp_all add: is_ok_def)

lemma is_ok_iff: "is_ok r \<longleftrightarrow> (\<exists>x. r = Inr x)"
  by (cases r) auto

lemma if_Inl_Inr_iff: "(if c then Inl e else x) = Inr y \<longleftrightarrow> \<not> c \<and> x = Inr y"
  by simp

lemma unit_result_eq: "(r :: 'e + unit) = Inr u \<longleftrightarrow> is_ok r"
  by (cases r) auto

section \<open>Big-endian byte strings\<close>

text \<open>\<open>be_bytes n v\<close> is \<open>v\<close> modulo \<open>256 ^ n\<close> as \<open>n\<close> bytes, most significant first;
  \<open>be_nat\<close> reads such a string back.\<close>

fun be_bytes :: "nat \<Rightarrow> nat \<Rightarrow> bytes" where
  "be_bytes 0 v = []"
| "be_bytes (Suc n) v = be_bytes n (v div 256) @ [word_of_nat v]"

lemma be_bytes_2: "be_bytes 2 v = [word_of_nat (v div 256), word_of_nat v]"
  by (simp add: numeral_2_eq_2)

definition be_nat :: "bytes \<Rightarrow> nat" where
  "be_nat bs = foldl (\<lambda>a b. a * 256 + unat b) 0 bs"

lemma unat_u8_less [simp]: "unat (b :: u8) < 256"
  using unsigned_less [of b] by simp

lemma wide_byte: "unat (b :: u8) \<le> 255"
proof -
  have "unat b < 256" by (rule unat_u8_less)
  then show ?thesis by linarith
qed

lemma unat_u16_less [simp]: "unat (b :: u16) < 65536"
  using unsigned_less [of b] by simp

lemma unat_u32_less [simp]: "unat (b :: u32) < 4294967296"
  using unsigned_less [of b] by simp

lemma unat_u64_less [simp]: "unat (b :: u64) < 18446744073709551616"
  using unsigned_less [of b] by simp

lemma length_be_bytes [simp, be_simps]: "length (be_bytes n v) = n"
  by (induction n arbitrary: v) auto

lemma be_nat_Nil [simp, be_simps]: "be_nat [] = 0"
  by (simp add: be_nat_def)

lemma be_nat_snoc [simp, be_simps]: "be_nat (bs @ [b]) = be_nat bs * 256 + unat b"
  by (simp add: be_nat_def)

lemma be_nat_less: "be_nat bs < 256 ^ length bs"
proof (induction bs rule: rev_induct)
  case Nil
  then show ?case by simp
next
  case (snoc b bs)
  have "be_nat (bs @ [b]) < be_nat bs * 256 + 256"
    using unat_u8_less [of b] by simp
  also have "\<dots> \<le> 256 ^ length bs * 256"
    using snoc by simp
  finally show ?case by simp
qed

lemma be_nat_be_bytes [be_simps]: "be_nat (be_bytes n v) = v mod 256 ^ n"
proof (induction n arbitrary: v)
  case 0
  then show ?case by simp
next
  case (Suc n)
  have "v mod (256 * 256 ^ n) = 256 * (v div 256 mod 256 ^ n) + v mod 256"
    by (rule mod_mult2_eq)
  with Suc show ?case by (simp add: unat_of_nat mult.commute)
qed

lemma be_bytes_be_nat [be_simps]: "length bs = n \<Longrightarrow> be_bytes n (be_nat bs) = bs"
proof (induction bs arbitrary: n rule: rev_induct)
  case Nil
  then show ?case by simp
next
  case (snoc b bs)
  have q: "(be_nat bs * 256 + unat b) div 256 = be_nat bs"
    using unat_u8_less [of b] by simp
  have r: "word_of_nat (be_nat bs * 256 + unat b) = b"
  proof -
    have "(256 :: u8) = 0" by simp
    then show ?thesis by (simp only: of_nat_add of_nat_mult of_nat_numeral mult_zero_right of_nat_unat
          ucast_id add_0)
  qed
  have "be_bytes (Suc (length bs)) (be_nat bs * 256 + unat b) = bs @ [b]"
    by (simp only: be_bytes.simps q r snoc.IH [OF refl])
  with snoc.prems show ?case by auto
qed

lemma be_bytes_inject: "be_bytes n v = be_bytes n w \<Longrightarrow> v < 256 ^ n \<Longrightarrow> w < 256 ^ n \<Longrightarrow> v = w"
  by (metis be_nat_be_bytes mod_less)

text \<open>\<open>to_be_bytes\<close> and \<open>from_be_bytes\<close> at the widths the source uses.\<close>

definition u16_to_be_bytes :: "u16 \<Rightarrow> bytes" where
  "u16_to_be_bytes v = be_bytes 2 (unat v)"

definition u32_to_be_bytes :: "u32 \<Rightarrow> bytes" where
  "u32_to_be_bytes v = be_bytes 4 (unat v)"

definition u64_to_be_bytes :: "u64 \<Rightarrow> bytes" where
  "u64_to_be_bytes v = be_bytes 8 (unat v)"

definition u16_from_be_bytes :: "bytes \<Rightarrow> u16" where
  "u16_from_be_bytes bs = word_of_nat (be_nat bs)"

definition u32_from_be_bytes :: "bytes \<Rightarrow> u32" where
  "u32_from_be_bytes bs = word_of_nat (be_nat bs)"

definition u64_from_be_bytes :: "bytes \<Rightarrow> u64" where
  "u64_from_be_bytes bs = word_of_nat (be_nat bs)"

lemmas be_word_defs = u16_to_be_bytes_def u32_to_be_bytes_def u64_to_be_bytes_def
  u16_from_be_bytes_def u32_from_be_bytes_def u64_from_be_bytes_def

lemma length_to_be_bytes [simp]:
  "length (u16_to_be_bytes a) = 2" "length (u32_to_be_bytes b) = 4"
  "length (u64_to_be_bytes c) = 8"
  by (simp_all add: be_word_defs)

lemma from_to_be_bytes [be_simps]:
  "u16_from_be_bytes (u16_to_be_bytes a) = a"
  "u32_from_be_bytes (u32_to_be_bytes b) = b"
  "u64_from_be_bytes (u64_to_be_bytes c) = c"
  by (simp_all add: be_word_defs be_nat_be_bytes)

lemma unat_from_be_bytes:
  "length bs = 2 \<Longrightarrow> unat (u16_from_be_bytes bs) = be_nat bs"
  "length bs = 4 \<Longrightarrow> unat (u32_from_be_bytes bs) = be_nat bs"
  "length bs = 8 \<Longrightarrow> unat (u64_from_be_bytes bs) = be_nat bs"
  using be_nat_less [of bs] by (simp_all add: be_word_defs unat_of_nat)

lemma to_from_be_bytes [be_simps]:
  "length bs = 2 \<Longrightarrow> u16_to_be_bytes (u16_from_be_bytes bs) = bs"
  "length bs = 4 \<Longrightarrow> u32_to_be_bytes (u32_from_be_bytes bs) = bs"
  "length bs = 8 \<Longrightarrow> u64_to_be_bytes (u64_from_be_bytes bs) = bs"
  by (simp_all add: u16_to_be_bytes_def u32_to_be_bytes_def u64_to_be_bytes_def
      unat_from_be_bytes be_bytes_be_nat)

lemma u64_to_be_bytes_inject [simp]: "u64_to_be_bytes a = u64_to_be_bytes b \<longleftrightarrow> a = b"
  by (metis from_to_be_bytes(3))

lemma u32_to_be_bytes_inject [simp]: "u32_to_be_bytes a = u32_to_be_bytes b \<longleftrightarrow> a = b"
  by (metis from_to_be_bytes(2))

text \<open>The widening and narrowing casts between the widths.\<close>

lemma unat_widen [simp]:
  "unat (ucast (a :: u8) :: u64) = unat a"
  "unat (ucast (b :: u16) :: u64) = unat b"
  "unat (ucast (c :: u32) :: u64) = unat c"
  by (simp_all add: unsigned_ucast_eq take_bit_nat_eq_self order_less_trans [OF unat_u8_less]
      order_less_trans [OF unat_u16_less] order_less_trans [OF unat_u32_less])

lemma unat_narrow:
  "unat (v :: u64) < 256 \<Longrightarrow> unat (ucast v :: u8) = unat v"
  "unat (v :: u64) < 65536 \<Longrightarrow> unat (ucast v :: u16) = unat v"
  "unat (v :: u64) < 4294967296 \<Longrightarrow> unat (ucast v :: u32) = unat v"
  by (simp_all add: unsigned_ucast_eq take_bit_nat_eq_self)

lemma narrow_widen [simp]:
  "(ucast (ucast (a :: u8) :: u64) :: u8) = a"
  "(ucast (ucast (b :: u16) :: u64) :: u16) = b"
  "(ucast (ucast (c :: u32) :: u64) :: u32) = c"
  by (simp_all add: unat_narrow word_eq_iff_unsigned [where 'a = nat])

lemma widen_narrow:
  "unat (v :: u64) < 256 \<Longrightarrow> (ucast (ucast v :: u8) :: u64) = v"
  "unat (v :: u64) < 65536 \<Longrightarrow> (ucast (ucast v :: u16) :: u64) = v"
  "unat (v :: u64) < 4294967296 \<Longrightarrow> (ucast (ucast v :: u32) :: u64) = v"
  by (simp_all add: unat_narrow word_eq_iff_unsigned [where 'a = nat])

section \<open>Lists\<close>

lemma drop_eq_Cons_nth: "drop p xs = y # ys \<Longrightarrow> p < length xs \<and> xs ! p = y \<and> drop (Suc p) xs = ys"
  by (metis Cons_nth_drop_Suc drop_eq_Nil linorder_not_le list.distinct(1) list.inject)

lemma drop_eq_append:
  assumes "drop p xs = ys @ zs" and "p \<le> length xs"
  shows "p + length ys \<le> length xs" and "drop (p + length ys) xs = zs"
proof -
  have "length xs - p = length ys + length zs"
    using assms(1) by (metis length_append length_drop)
  with assms(2) show "p + length ys \<le> length xs" by simp
  show "drop (p + length ys) xs = zs"
    using assms(1) by (metis add.commute append_eq_conv_conj drop_drop)
qed

lemma drop_split: "p + n \<le> length xs \<Longrightarrow> drop p xs = take n (drop p xs) @ drop (p + n) xs"
  by (metis add.commute append_take_drop_id drop_drop)

lemma concat_map_cong2: "(\<And>x. x \<in> set xs \<Longrightarrow> f x = g x) \<Longrightarrow> concat (map f xs) = concat (map g xs)"
  by (metis map_cong)

end
