(* ===== verification/Utf8.thy ===== *)
theory Utf8
  imports Prelude
begin

text \<open>
  Rust strings as their UTF-8 bytes. A \<open>String\<close> or \<open>&str\<close> is a \<open>bytes\<close> value that satisfies
  \<open>utf8_valid\<close>, the check of \<open>std::str::from_utf8\<close> (the well-formed sequences of the Unicode
  standard: no overlong forms, no surrogates, nothing above U+10FFFF). Lengths (\<open>len()\<close>) are
  byte lengths, as in Rust.
\<close>

definition cont :: "u8 \<Rightarrow> bool" where
  "cont b \<longleftrightarrow> 0x80 \<le> b \<and> b \<le> 0xBF"

text \<open>The range of the second byte, by the first byte of a longer sequence.\<close>

definition second_ok :: "u8 \<Rightarrow> u8 \<Rightarrow> bool" where
  "second_ok b c \<longleftrightarrow>
     (if b = 0xE0 then 0xA0 \<le> c \<and> c \<le> 0xBF
      else if b = 0xED then 0x80 \<le> c \<and> c \<le> 0x9F
      else if b = 0xF0 then 0x90 \<le> c \<and> c \<le> 0xBF
      else if b = 0xF4 then 0x80 \<le> c \<and> c \<le> 0x8F
      else cont c)"

text \<open>The length of the sequence a first byte opens; 0 for a byte that opens none.\<close>

definition seq_len :: "u8 \<Rightarrow> nat" where
  "seq_len b =
     (if b < 0x80 then 1
      else if b < 0xC2 then 0
      else if b \<le> 0xDF then 2
      else if b \<le> 0xEF then 3
      else if b \<le> 0xF4 then 4
      else 0)"

fun utf8_valid :: "bytes \<Rightarrow> bool" where
  "utf8_valid [] = True"
| "utf8_valid [b] = (seq_len b = 1)"
| "utf8_valid [b, c] =
     ((seq_len b = 1 \<and> utf8_valid [c]) \<or> (seq_len b = 2 \<and> second_ok b c))"
| "utf8_valid [b, c, d] =
     ((seq_len b = 1 \<and> utf8_valid [c, d]) \<or> (seq_len b = 2 \<and> second_ok b c \<and> utf8_valid [d]) \<or>
      (seq_len b = 3 \<and> second_ok b c \<and> cont d))"
| "utf8_valid (b # c # d # e # r) =
     ((seq_len b = 1 \<and> utf8_valid (c # d # e # r)) \<or>
      (seq_len b = 2 \<and> second_ok b c \<and> utf8_valid (d # e # r)) \<or>
      (seq_len b = 3 \<and> second_ok b c \<and> cont d \<and> utf8_valid (e # r)) \<or>
      (seq_len b = 4 \<and> second_ok b c \<and> cont d \<and> cont e \<and> utf8_valid r))"

definition is_ascii :: "bytes \<Rightarrow> bool" where
  "is_ascii bs \<longleftrightarrow> (\<forall>b\<in>set bs. b < 0x80)"

lemma seq_len_ascii [simp]: "b < 0x80 \<Longrightarrow> seq_len b = 1"
  by (simp add: seq_len_def)

lemma utf8_valid_Cons_ascii [simp]: "b < 0x80 \<Longrightarrow> utf8_valid (b # bs) = utf8_valid bs"
  by (cases bs rule: utf8_valid.cases) auto

lemma is_ascii_simps [simp]: "is_ascii []" "is_ascii (b # bs) \<longleftrightarrow> b < 0x80 \<and> is_ascii bs"
  by (auto simp: is_ascii_def)

lemma is_ascii_append [simp]: "is_ascii (xs @ ys) \<longleftrightarrow> is_ascii xs \<and> is_ascii ys"
  by (auto simp: is_ascii_def)

lemma ascii_utf8_valid: "is_ascii bs \<Longrightarrow> utf8_valid bs"
  by (induction bs) auto

lemma utf8_valid_append_ascii: "is_ascii xs \<Longrightarrow> utf8_valid (xs @ ys) = utf8_valid ys"
  by (induction xs) auto

lemma utf8_valid_append: "utf8_valid xs \<Longrightarrow> utf8_valid ys \<Longrightarrow> utf8_valid (xs @ ys)"
proof (induction xs rule: utf8_valid.induct)
  case (2 b)
  then show ?case by (cases ys rule: utf8_valid.cases) auto
next
  case (3 b c)
  then show ?case by (cases ys rule: utf8_valid.cases) auto
next
  case (4 b c d)
  then show ?case by (cases ys rule: utf8_valid.cases) auto
qed auto

section \<open>Trimming\<close>

text \<open>
  \<open>str::trim\<close> removes the characters with the Unicode property \<open>White_Space\<close> from both ends;
  \<open>ws_seqs\<close> lists them as UTF-8. From the right the reversed sequences are stripped off the
  reversed string, which on UTF-8 text finds exactly the white-space characters.
\<close>

definition ws_seqs :: "bytes list" where
  "ws_seqs = [
     [0x09], [0x0A], [0x0B], [0x0C], [0x0D], [0x20], [0xC2, 0x85], [0xC2, 0xA0], [0xE1,
     0x9A, 0x80], [0xE2, 0x80, 0x80], [0xE2, 0x80, 0x81], [0xE2, 0x80, 0x82], [0xE2, 0x80,
     0x83], [0xE2, 0x80, 0x84], [0xE2, 0x80, 0x85], [0xE2, 0x80, 0x86], [0xE2, 0x80, 0x87],
     [0xE2, 0x80, 0x88], [0xE2, 0x80, 0x89], [0xE2, 0x80, 0x8A], [0xE2, 0x80, 0xA8], [0xE2,
     0x80, 0xA9], [0xE2, 0x80, 0xAF], [0xE2, 0x81, 0x9F], [0xE3, 0x80, 0x80]]"

fun strip_any :: "bytes list \<Rightarrow> bytes \<Rightarrow> bytes" where
  "strip_any [] s = s"
| "strip_any (w # ws) s =
     (if w \<noteq> [] \<and> take (length w) s = w then drop (length w) s else strip_any ws s)"

lemma strip_any_length: "strip_any ws s = s \<or> length (strip_any ws s) < length s"
proof (induction ws)
  case (Cons w ws)
  show ?case
  proof (cases "w \<noteq> [] \<and> take (length w) s = w")
    case True
    then have "s \<noteq> []" by auto
    with True show ?thesis by simp
  next
    case False
    then have "strip_any (w # ws) s = strip_any ws s" by auto
    with Cons show ?thesis by simp
  qed
qed simp

function trim_with :: "bytes list \<Rightarrow> bytes \<Rightarrow> bytes" where
  "trim_with ws s = (if strip_any ws s = s then s else trim_with ws (strip_any ws s))"
  by pat_completeness auto
termination
  by (relation "measure (\<lambda>(_, s). length s)") (use strip_any_length in fastforce)+

declare trim_with.simps [simp del]

definition trim :: "bytes \<Rightarrow> bytes" where
  "trim s = rev (trim_with (map rev ws_seqs) (rev (trim_with ws_seqs s)))"

lemma trim_with_done: "strip_any ws s = s \<Longrightarrow> trim_with ws s = s"
  by (simp add: trim_with.simps)

text \<open>A string that begins and ends with a visible ASCII character is not changed.\<close>

lemma strip_any_visible:
  "\<forall>w\<in>set ws. w \<noteq> [] \<and> hd w \<noteq> b \<Longrightarrow> strip_any ws (b # s) = b # s"
proof (induction ws)
  case (Cons w ws)
  then obtain x w' where "w = x # w'" "x \<noteq> b" by (cases w) auto
  with Cons show ?case by simp
qed simp

lemma strip_any_Nil: "\<forall>w\<in>set ws. w \<noteq> [] \<Longrightarrow> strip_any ws [] = []"
  by (induction ws) auto

lemma ws_heads: "0x20 < b \<Longrightarrow> b < 0x80 \<Longrightarrow> \<forall>w\<in>set ws_seqs. w \<noteq> [] \<and> hd w \<noteq> b"
  by (auto simp: ws_seqs_def word_less_nat_alt)

lemma ws_lasts: "0x20 < b \<Longrightarrow> b < 0x80 \<Longrightarrow> \<forall>w\<in>set (map rev ws_seqs). w \<noteq> [] \<and> hd w \<noteq> b"
  by (auto simp: ws_seqs_def word_less_nat_alt)

lemma trim_visible:
  assumes "\<forall>b\<in>set s. 0x20 < b \<and> b < 0x80"
  shows "trim s = s"
proof (cases "s = []")
  case True
  have "\<forall>w\<in>set ws_seqs. w \<noteq> []" "\<forall>w\<in>set (map rev ws_seqs). w \<noteq> []"
    by (simp_all add: ws_seqs_def)
  with True show ?thesis by (simp add: trim_def trim_with_done strip_any_Nil)
next
  case False
  then obtain b r where s: "s = b # r" by (cases s) auto
  have "trim_with ws_seqs s = s"
    unfolding s using assms s by (intro trim_with_done strip_any_visible ws_heads) auto
  moreover obtain c q where q: "rev s = c # q" using False by (cases "rev s") auto
  then have "c \<in> set s" by (metis list.set_intros(1) set_rev)
  then have "trim_with (map rev ws_seqs) (rev s) = rev s"
    using assms unfolding q by (intro trim_with_done strip_any_visible ws_lasts) auto
  ultimately show ?thesis by (simp add: trim_def)
qed

end
