(* ===== verification/Event_Type.thy ===== *)
theory Event_Type
  imports Prelude
begin

text \<open>
  \<open>EventType\<close> of \<open>protocol/src/lib.rs\<close>: the 25 event types with a discriminant of their own and
  the catch-all \<open>Reserved\<close>, with the conversions to and from the wire byte. Every byte decodes,
  the decoded type encodes back to the byte, and the only types that do not survive the other
  direction are the \<open>Reserved\<close> values that carry the discriminant of a known type.
\<close>

datatype EventType =
    ServerCreate
  | ServerUpdate
  | ChannelCreate
  | ChannelUpdate
  | MessagePost
  | MessageEdit
  | MessageDelete
  | DmMessagePost
  | ReactionAdd
  | ReactionRemove
  | MemberJoin
  | MemberLeave
  | RoleAssign
  | RoleRevoke
  | ModerationAction
  | DeviceRegister
  | DeviceRevoke
  | PinMessage
  | UnpinMessage
  | BookmarkAdd
  | BookmarkRemove
  | SealedMemberJoin
  | SealedMemberLeave
  | KeyRotate
  | SealedEvent
  | Reserved u8

fun as_u8 :: "EventType \<Rightarrow> u8" where
  "as_u8 ServerCreate = 0"
| "as_u8 ServerUpdate = 1"
| "as_u8 ChannelCreate = 2"
| "as_u8 ChannelUpdate = 3"
| "as_u8 MessagePost = 4"
| "as_u8 MessageEdit = 5"
| "as_u8 MessageDelete = 6"
| "as_u8 DmMessagePost = 7"
| "as_u8 ReactionAdd = 8"
| "as_u8 ReactionRemove = 9"
| "as_u8 MemberJoin = 10"
| "as_u8 MemberLeave = 11"
| "as_u8 RoleAssign = 12"
| "as_u8 RoleRevoke = 13"
| "as_u8 ModerationAction = 14"
| "as_u8 DeviceRegister = 15"
| "as_u8 DeviceRevoke = 16"
| "as_u8 PinMessage = 17"
| "as_u8 UnpinMessage = 18"
| "as_u8 BookmarkAdd = 19"
| "as_u8 BookmarkRemove = 20"
| "as_u8 SealedMemberJoin = 23"
| "as_u8 SealedMemberLeave = 24"
| "as_u8 KeyRotate = 25"
| "as_u8 SealedEvent = 26"
| "as_u8 (Reserved n) = n"

definition from_u8 :: "u8 \<Rightarrow> EventType" where
  "from_u8 value =
    (if value = 0 then ServerCreate
     else if value = 1 then ServerUpdate
     else if value = 2 then ChannelCreate
     else if value = 3 then ChannelUpdate
     else if value = 4 then MessagePost
     else if value = 5 then MessageEdit
     else if value = 6 then MessageDelete
     else if value = 7 then DmMessagePost
     else if value = 8 then ReactionAdd
     else if value = 9 then ReactionRemove
     else if value = 10 then MemberJoin
     else if value = 11 then MemberLeave
     else if value = 12 then RoleAssign
     else if value = 13 then RoleRevoke
     else if value = 14 then ModerationAction
     else if value = 15 then DeviceRegister
     else if value = 16 then DeviceRevoke
     else if value = 17 then PinMessage
     else if value = 18 then UnpinMessage
     else if value = 19 then BookmarkAdd
     else if value = 20 then BookmarkRemove
     else if value = 23 then SealedMemberJoin
     else if value = 24 then SealedMemberLeave
     else if value = 25 then KeyRotate
     else if value = 26 then SealedEvent
     else Reserved value)"

fun is_known :: "EventType \<Rightarrow> bool" where
  "is_known (Reserved _) = False"
| "is_known _ = True"

definition event_type_try_from :: "u64 \<Rightarrow> unit + EventType" where
  "event_type_try_from value = (if value \<le> 0xFF then Inr (from_u8 (ucast value)) else Inl ())"

definition default_EventType :: EventType where
  "default_EventType = ServerCreate"

text \<open>The discriminants of the known types.\<close>

definition known_codes :: "u8 list" where
  "known_codes = [0, 1, 2, 3, 4, 5, 6, 7, 8, 9, 10, 11, 12, 13, 14, 15, 16, 17, 18, 19, 20, 23, 24, 25, 26]"

lemma as_u8_from_u8 [simp]: "as_u8 (from_u8 b) = b"
  by (simp add: from_u8_def)

lemma from_u8_unknown: "b \<notin> set known_codes \<Longrightarrow> from_u8 b = Reserved b"
  by (simp add: from_u8_def known_codes_def)

lemma from_u8_known: "b \<in> set known_codes \<Longrightarrow> is_known (from_u8 b)"
  by (auto simp: from_u8_def known_codes_def)

lemma is_known_from_u8: "is_known (from_u8 b) \<longleftrightarrow> b \<in> set known_codes"
  using from_u8_known from_u8_unknown by (metis is_known.simps(1))

lemma from_u8_as_u8_known: "is_known t \<Longrightarrow> from_u8 (as_u8 t) = t"
  by (cases t) (simp_all add: from_u8_def)

lemma as_u8_known: "is_known t \<Longrightarrow> as_u8 t \<in> set known_codes"
  by (cases t) (simp_all add: known_codes_def)

lemma from_u8_as_u8: "from_u8 (as_u8 t) = t \<longleftrightarrow> (\<forall>n. t = Reserved n \<longrightarrow> n \<notin> set known_codes)"
proof (cases "is_known t")
  case True
  then show ?thesis by (auto simp: from_u8_as_u8_known)
next
  case False
  then obtain n where "t = Reserved n" by (cases t) auto
  then show ?thesis by (metis EventType.inject as_u8.simps(26) from_u8_unknown is_known_from_u8 is_known.simps(1))
qed

lemma from_u8_inject: "from_u8 a = from_u8 b \<longleftrightarrow> a = b"
  by (metis as_u8_from_u8)

lemma event_type_try_from_widen [simp]: "event_type_try_from (ucast b) = Inr (from_u8 b)"
  by (simp add: event_type_try_from_def word_le_nat_alt less_Suc_eq_le [symmetric])

lemma event_type_try_from_iff:
  "event_type_try_from v = Inr t \<longleftrightarrow> unat v < 256 \<and> t = from_u8 (ucast v)"
  by (auto simp: event_type_try_from_def word_le_nat_alt)

text \<open>
  Decoding an event-type byte always succeeds and loses nothing, and the type encodes back
  to the byte it came from; a \<open>u64\<close> decodes exactly when it fits in a byte. In the other
  direction a type survives exactly when it is not a \<open>Reserved\<close> value shadowing a known
  discriminant.
\<close>
lemma event_type_roundtrip:
  "(\<forall>b. as_u8 (from_u8 b) = b \<and> (is_known (from_u8 b) \<longleftrightarrow> b \<in> set known_codes)) \<and>
   (\<forall>t. from_u8 (as_u8 t) = t \<longleftrightarrow> \<not> (\<exists>n\<in>set known_codes. t = Reserved n)) \<and>
   (\<forall>v t. event_type_try_from v = Inr t \<longleftrightarrow> v = ucast (as_u8 t) \<and> from_u8 (as_u8 t) = t)"
proof (intro conjI allI)
  show "as_u8 (from_u8 b) = b" "is_known (from_u8 b) \<longleftrightarrow> b \<in> set known_codes" for b
    by (simp_all add: is_known_from_u8)
  show "from_u8 (as_u8 t) = t \<longleftrightarrow> \<not> (\<exists>n\<in>set known_codes. t = Reserved n)" for t
    by (auto simp: from_u8_as_u8)
  show "event_type_try_from v = Inr t \<longleftrightarrow> v = ucast (as_u8 t) \<and> from_u8 (as_u8 t) = t" for v t
    by (auto simp: event_type_try_from_iff widen_narrow)
qed

end
