(* ===== verification/Ordered_Map.thy ===== *)
theory Ordered_Map
  imports Prelude
begin

text \<open>
  The interface of \<open>std::collections::BTreeMap\<close> as far as the sources use it: \<open>insert\<close>
  (which reports the value it replaces), \<open>remove\<close>, lookup, and iteration in ascending key
  order. The clients (the field map of \<open>parse_cbor_map\<close> and \<open>extension_fields\<close>) rest on the
  laws of the locale \<open>ordered_map\<close>; the model's maps are strictly ascending association lists,
  for which the laws are proved by the interpretation at the end.
\<close>

type_synonym ('k, 'v) btree_map = "('k \<times> 'v) list"

definition om_empty :: "('k, 'v) btree_map" where
  "om_empty = []"

fun om_get :: "('k :: linorder, 'v) btree_map \<Rightarrow> 'k \<Rightarrow> 'v option" where
  "om_get [] k = None"
| "om_get ((x, v) # m) k = (if x = k then Some v else om_get m k)"

fun om_insert :: "'k :: linorder \<Rightarrow> 'v \<Rightarrow> ('k, 'v) btree_map \<Rightarrow> ('k, 'v) btree_map" where
  "om_insert k v [] = [(k, v)]"
| "om_insert k v ((x, w) # m) =
     (if k < x then (k, v) # (x, w) # m
      else if k = x then (k, v) # m
      else (x, w) # om_insert k v m)"

fun om_remove :: "'k :: linorder \<Rightarrow> ('k, 'v) btree_map \<Rightarrow> ('k, 'v) btree_map" where
  "om_remove k [] = []"
| "om_remove k ((x, w) # m) = (if k = x then m else (x, w) # om_remove k m)"

definition om_entries :: "('k, 'v) btree_map \<Rightarrow> ('k \<times> 'v) list" where
  "om_entries m = m"

definition om_ok :: "('k :: linorder, 'v) btree_map \<Rightarrow> bool" where
  "om_ok m \<longleftrightarrow> sorted_wrt (<) (map fst m)"

section \<open>The interface\<close>

locale ordered_map =
  fixes empty :: 'm
    and get :: "'m \<Rightarrow> 'k :: linorder \<Rightarrow> 'v option"
    and insert :: "'k \<Rightarrow> 'v \<Rightarrow> 'm \<Rightarrow> 'm"
    and remove :: "'k \<Rightarrow> 'm \<Rightarrow> 'm"
    and entries :: "'m \<Rightarrow> ('k \<times> 'v) list"
    and ok :: "'m \<Rightarrow> bool"
  assumes ok_empty: "ok empty"
    and ok_insert: "ok m \<Longrightarrow> ok (insert k v m)"
    and ok_remove: "ok m \<Longrightarrow> ok (remove k m)"
    and get_empty: "get empty k = None"
    and get_insert: "ok m \<Longrightarrow> get (insert k v m) k' = (if k' = k then Some v else get m k')"
    and get_remove: "ok m \<Longrightarrow> get (remove k m) k' = (if k' = k then None else get m k')"
    and entries_sorted: "ok m \<Longrightarrow> sorted_wrt (<) (map fst (entries m))"
    and map_of_entries: "ok m \<Longrightarrow> map_of (entries m) = get m"
    and entries_inject: "ok m \<Longrightarrow> ok m' \<Longrightarrow> entries m = entries m' \<Longrightarrow> m = m'"
begin

definition insert_all :: "('k \<times> 'v) list \<Rightarrow> 'm \<Rightarrow> 'm" where
  "insert_all kvs m = fold (\<lambda>(k, v). insert k v) kvs m"

lemma insert_all_simps [simp]:
  "insert_all [] m = m" "insert_all ((k, v) # kvs) m = insert_all kvs (insert k v m)"
  by (simp_all add: insert_all_def)

lemma ok_insert_all: "ok m \<Longrightarrow> ok (insert_all kvs m)"
  by (induction kvs arbitrary: m) (auto simp: ok_insert)

lemma distinct_entries: "ok m \<Longrightarrow> distinct (map fst (entries m))"
  using entries_sorted strict_sorted_iff by blast

lemma get_Some_iff: "ok m \<Longrightarrow> get m k = Some v \<longleftrightarrow> (k, v) \<in> set (entries m)"
  by (simp add: map_of_entries [symmetric] distinct_entries)

lemma get_None_iff: "ok m \<Longrightarrow> get m k = None \<longleftrightarrow> k \<notin> fst ` set (entries m)"
  by (simp add: map_of_entries [symmetric] map_of_eq_None_iff)

lemma get_insert_all:
  "ok m \<Longrightarrow> get (insert_all kvs m) k
     = (case map_of (rev kvs) k of None \<Rightarrow> get m k | Some v \<Rightarrow> Some v)"
  by (induction kvs arbitrary: m)
    (auto simp: ok_insert get_insert map_add_def split: option.splits)

lemma get_insert_all_distinct:
  assumes "distinct (map fst kvs)"
  shows "get (insert_all kvs empty) = map_of kvs"
proof -
  have "map_of (rev kvs) = map_of kvs"
    using assms by (subst map_of_inject_set) (auto simp flip: rev_map)
  then show ?thesis
    by (intro ext) (simp add: get_insert_all ok_empty get_empty split: option.split)
qed

lemma sorted_map_of_unique:
  fixes xs ys :: "('k \<times> 'v) list"
  assumes xs: "sorted_wrt (<) (map fst xs)" and ys: "sorted_wrt (<) (map fst ys)"
    and eq: "map_of xs = map_of ys"
  shows "xs = ys"
proof -
  have d: "distinct (map fst xs)" "distinct (map fst ys)"
    and s: "sorted (map fst xs)" "sorted (map fst ys)"
    using xs ys by (simp_all add: strict_sorted_iff)
  with eq have eq: "set xs = set ys" by (simp add: map_of_inject_set)
  with d(1) have "inj_on fst (set xs \<union> set ys)" by (simp add: distinct_map)
  with s d eq show ?thesis by (intro map_sorted_distinct_set_unique [of fst xs ys]) auto
qed

text \<open>Two maps with the same lookups are the same map, and so iterate in the same order.\<close>

lemma get_ext: "ok m \<Longrightarrow> ok m' \<Longrightarrow> (\<And>k. get m k = get m' k) \<Longrightarrow> m = m'"
  by (intro entries_inject sorted_map_of_unique)
    (auto simp: entries_sorted map_of_entries)

text \<open>Inserting an ascending list of entries into the empty map and iterating gives it back.\<close>

lemma entries_insert_all:
  assumes "sorted_wrt (<) (map fst kvs)"
  shows "entries (insert_all kvs empty) = kvs"
proof (rule sorted_map_of_unique)
  have ok: "ok (insert_all kvs empty)" by (simp add: ok_insert_all ok_empty)
  then show "sorted_wrt (<) (map fst (entries (insert_all kvs empty)))"
    by (rule entries_sorted)
  have "distinct (map fst kvs)" using assms by (simp add: strict_sorted_iff)
  with ok show "map_of (entries (insert_all kvs empty)) = map_of kvs"
    by (simp add: map_of_entries get_insert_all_distinct)
qed (rule assms)

lemma remove_other: "ok m \<Longrightarrow> k' \<noteq> k \<Longrightarrow> get (remove k m) k' = get m k'"
  by (simp add: get_remove)

lemma remove_absent: "ok m \<Longrightarrow> get m k = None \<Longrightarrow> remove k m = m"
  by (rule get_ext) (auto simp: ok_remove get_remove)

end

section \<open>The sorted association lists provide it\<close>

lemma om_ok_Cons: "om_ok ((x, w) # m) \<longleftrightarrow> om_ok m \<and> (\<forall>y\<in>fst ` set m. x < y)"
  by (auto simp: om_ok_def)

lemma om_get_map_of: "om_get m = map_of m"
  by (induction m) auto

lemma fst_om_insert: "fst ` set (om_insert k v m) = Set.insert k (fst ` set m)"
  by (induction k v m rule: om_insert.induct) auto

lemma fst_om_remove: "fst ` set (om_remove k m) \<subseteq> fst ` set m"
  by (induction k m rule: om_remove.induct) auto

lemma om_ok_insert: "om_ok m \<Longrightarrow> om_ok (om_insert k v m)"
  by (induction k v m rule: om_insert.induct)
    (auto simp: om_ok_Cons fst_om_insert om_ok_def [of "[]"] intro: less_trans)

lemma om_ok_remove: "om_ok m \<Longrightarrow> om_ok (om_remove k m)"
  by (induction k m rule: om_remove.induct) (use fst_om_remove in \<open>force simp: om_ok_Cons\<close>)+

lemma om_get_absent: "om_ok m \<Longrightarrow> \<forall>y\<in>fst ` set m. k < y \<Longrightarrow> om_get m k = None"
  by (induction m) (auto simp: om_ok_Cons)

lemma om_get_insert: "om_get (om_insert k v m) k' = (if k' = k then Some v else om_get m k')"
  by (induction k v m rule: om_insert.induct) auto

lemma om_get_remove: "om_ok m \<Longrightarrow> om_get (om_remove k m) k' = (if k' = k then None else om_get m k')"
  by (induction k m rule: om_remove.induct) (auto simp: om_ok_Cons intro: om_get_absent)

lemma om_get_remove_other: "k' \<noteq> k \<Longrightarrow> om_get (om_remove k m) k' = om_get m k'"
  by (induction k m rule: om_remove.induct) auto

interpretation btree: ordered_map om_empty om_get om_insert om_remove om_entries om_ok
  by unfold_locales
    (auto simp: om_empty_def om_entries_def om_get_map_of [symmetric] om_ok_def [of "[]"]
      om_get_insert om_get_remove intro: om_ok_insert om_ok_remove dest: om_ok_def [THEN iffD1])

end
