(* ===== verification/Cbor_Head.thy ===== *)
theory Cbor_Head
  imports Prelude
begin

text \<open>
  The CBOR head writer of \<open>crypto/src/state_hash.rs\<close> (\<open>encode_cbor_uint_header\<close>): the
  initial byte and the argument of an item, in the shortest form. It is the repository's own
  statement of how a head is written, so it also serves as the head of the abstract items in
  \<open>Cbor_Item\<close>. The lemmas say how the initial byte splits into major type and additional
  information, the two numbers the reader of \<open>canonical.rs\<close> computes.
\<close>

definition encode_cbor_uint_header :: "u8 \<Rightarrow> u64 \<Rightarrow> bytes" where
  "encode_cbor_uint_header major_type_byte value =
     (let initial = major_type_byte AND 0xE0 in
      if value < 24 then [initial OR ucast value]
      else if value < 0x100 then [initial OR 24, ucast value]
      else if value < 0x10000 then (initial OR 25) # u16_to_be_bytes (ucast value)
      else if value < 0x100000000 then (initial OR 26) # u32_to_be_bytes (ucast value)
      else (initial OR 27) # u64_to_be_bytes value)"

text \<open>The two parts of an initial byte.\<close>

definition major_of :: "u8 \<Rightarrow> u8" where
  "major_of initial = drop_bit 5 initial"

definition info_of :: "u8 \<Rightarrow> u8" where
  "info_of initial = initial AND 0x1F"

definition majors :: "u8 list" where
  "majors = [0, 1, 2, 3, 4, 5, 6, 7]"

lemma major_in_majors: "major_of b \<in> set majors"
proof -
  have "unat (major_of b) = unat b div 32"
    by (simp add: major_of_def drop_bit_eq_div unat_div_distrib)
  moreover have "unat b < 256" by (rule unat_u8_less)
  ultimately have "unat (major_of b) < 8" by linarith
  then have "unat (major_of b) \<in> {0, 1, 2, 3, 4, 5, 6, 7}" by auto
  then have "word_of_nat (unat (major_of b)) \<in> set majors"
    by (elim insertE emptyE) (simp_all only: majors_def, simp_all)
  then show ?thesis by simp
qed

lemma major_mask: "m \<in> set majors \<Longrightarrow> push_bit 5 m AND 0xE0 = (push_bit 5 m :: u8)"
  by (auto simp: majors_def)

lemma info_take_bit: "info_of b = take_bit 5 b"
  by (simp add: info_of_def take_bit_eq_mask mask_eq_exp_minus_1)

lemma split_initial: "b = push_bit 5 (major_of b) OR info_of b"
  unfolding info_take_bit major_of_def by (intro bit_word_eqI) (auto simp: bit_simps)

lemma small_info:
  assumes "i < 32"
  shows "drop_bit 5 i = (0 :: u8)" and "take_bit 5 i = (i :: u8)"
proof -
  from assms have "take_bit 5 i = i"
    by (simp add: less_mask_eq [of i 5] take_bit_eq_mask)
  then show "take_bit 5 i = i" .
  then show "drop_bit 5 i = 0"
    by (metis drop_bit_take_bit diff_self_eq_0 take_bit_0)
qed

lemma join_initial:
  assumes "m \<in> set majors" and "i < 32"
  shows "major_of ((push_bit 5 m AND 0xE0) OR i) = m"
    and "info_of ((push_bit 5 m AND 0xE0) OR i) = i"
proof -
  have "drop_bit 5 (push_bit 5 m) = m" "take_bit 5 (push_bit 5 m) = 0"
    using assms(1) by (auto simp: majors_def)
  then show "major_of ((push_bit 5 m AND 0xE0) OR i) = m"
    and "info_of ((push_bit 5 m AND 0xE0) OR i) = i"
    by (simp_all add: major_mask [OF assms(1)] info_take_bit major_of_def
        small_info [OF assms(2)])
qed

text \<open>The head by the size of its argument, over natural numbers.\<close>

lemma header_cases:
  "unat v < 24 \<Longrightarrow> encode_cbor_uint_header m v = [(m AND 0xE0) OR ucast v]"
  "24 \<le> unat v \<Longrightarrow> unat v < 256 \<Longrightarrow>
     encode_cbor_uint_header m v = [(m AND 0xE0) OR 24, ucast v]"
  "256 \<le> unat v \<Longrightarrow> unat v < 65536 \<Longrightarrow>
     encode_cbor_uint_header m v = ((m AND 0xE0) OR 25) # u16_to_be_bytes (ucast v)"
  "65536 \<le> unat v \<Longrightarrow> unat v < 4294967296 \<Longrightarrow>
     encode_cbor_uint_header m v = ((m AND 0xE0) OR 26) # u32_to_be_bytes (ucast v)"
  "4294967296 \<le> unat v \<Longrightarrow>
     encode_cbor_uint_header m v = ((m AND 0xE0) OR 27) # u64_to_be_bytes v"
  by (simp_all add: encode_cbor_uint_header_def Let_def word_less_nat_alt)

lemma length_encode_cbor_uint_header:
  "length (encode_cbor_uint_header m v) =
     (if v < 24 then 1 else if v < 0x100 then 2 else if v < 0x10000 then 3
      else if v < 0x100000000 then 5 else 9)"
  by (simp add: encode_cbor_uint_header_def Let_def)

lemma encode_cbor_uint_header_not_Nil [simp]: "encode_cbor_uint_header m v \<noteq> []"
  by (simp add: encode_cbor_uint_header_def Let_def)

end
