(* ===== verification/Canonical.thy ===== *)
theory Canonical
  imports Cbor_Head
begin

text \<open>
  The canonical-form walker of \<open>protocol/src/canonical.rs\<close>. The walker keeps a byte offset
  \<open>pos\<close> into the slice and moves it forward; here every reader takes the offset and returns
  the value it read with the new offset, or the \<open>CanonicalError\<close> the source returns at that
  point (the offsets inside the errors are the source's). The three loops of \<open>walk_item\<close> (the
  item itself, the array loop, the map loop) are three mutually recursive functions; they are
  total without fuel, because an item opens a container only one level deeper and the depth
  is bounded by \<open>MAX_NESTING_DEPTH\<close>, while a loop counts its elements down.

  \<open>usize\<close> is 64 bits wide here: \<open>as usize\<close> keeps a \<open>u64\<close> length unchanged, and the
  \<open>checked_add\<close> of \<open>skip_bytes\<close> fails when the sum leaves 64 bits.
\<close>

definition MAX_NESTING_DEPTH :: nat where
  "MAX_NESTING_DEPTH = 8"

datatype CanonicalError =
    Truncated nat
  | NestingTooDeep nat
  | IndefiniteLength nat
  | NonShortestForm nat
  | NonUintKey nat
  | KeysOutOfOrder nat
  | DuplicateKey u64 nat
  | TaggedItem u64 nat
  | FloatForbidden nat
  | InvalidSimpleValue u8 nat
  | TrailingBytes nat
  | ReservedArgument nat

section \<open>Readers\<close>

definition read_u8 :: "bytes \<Rightarrow> nat \<Rightarrow> CanonicalError + (u8 \<times> nat)" where
  "read_u8 cbor p =
     (if p \<ge> length cbor then Inl (Truncated p) else Inr (cbor ! p, p + 1))"

definition read_u16_be :: "bytes \<Rightarrow> nat \<Rightarrow> CanonicalError + (u16 \<times> nat)" where
  "read_u16_be cbor p =
     (if p + 2 > length cbor then Inl (Truncated p)
      else Inr (u16_from_be_bytes [cbor ! p, cbor ! (p + 1)], p + 2))"

definition read_u32_be :: "bytes \<Rightarrow> nat \<Rightarrow> CanonicalError + (u32 \<times> nat)" where
  "read_u32_be cbor p =
     (if p + 4 > length cbor then Inl (Truncated p)
      else Inr (u32_from_be_bytes [cbor ! p, cbor ! (p + 1), cbor ! (p + 2), cbor ! (p + 3)],
                p + 4))"

definition read_u64_be :: "bytes \<Rightarrow> nat \<Rightarrow> CanonicalError + (u64 \<times> nat)" where
  "read_u64_be cbor p =
     (if p + 8 > length cbor then Inl (Truncated p)
      else Inr (u64_from_be_bytes (take 8 (drop p cbor)), p + 8))"

definition skip_bytes :: "bytes \<Rightarrow> nat \<Rightarrow> nat \<Rightarrow> CanonicalError + nat" where
  "skip_bytes cbor p n =
     (if p + n \<ge> 2 ^ 64 then Inl (Truncated p)
      else if p + n > length cbor then Inl (Truncated p)
      else Inr (p + n))"

definition read_argument :: "bytes \<Rightarrow> nat \<Rightarrow> u8 \<Rightarrow> nat \<Rightarrow> CanonicalError + (u64 \<times> nat)" where
  "read_argument cbor pos arg initial_off =
     (if arg \<le> 23 then Inr (ucast arg, pos)
      else if arg = 24 then
        bindE (read_u8 cbor pos) (\<lambda>(b, pos).
          let v = ucast b :: u64 in
          if v < 24 then Inl (NonShortestForm initial_off) else Inr (v, pos))
      else if arg = 25 then
        bindE (read_u16_be cbor pos) (\<lambda>(b, pos).
          let v = ucast b :: u64 in
          if v \<le> 0xFF then Inl (NonShortestForm initial_off) else Inr (v, pos))
      else if arg = 26 then
        bindE (read_u32_be cbor pos) (\<lambda>(b, pos).
          let v = ucast b :: u64 in
          if v \<le> 0xFFFF then Inl (NonShortestForm initial_off) else Inr (v, pos))
      else if arg = 27 then
        bindE (read_u64_be cbor pos) (\<lambda>(v, pos).
          if v \<le> 0xFFFFFFFF then Inl (NonShortestForm initial_off) else Inr (v, pos))
      else Inl (ReservedArgument initial_off))"

definition read_uint_key :: "bytes \<Rightarrow> nat \<Rightarrow> CanonicalError + (u64 \<times> nat)" where
  "read_uint_key cbor pos =
     bindE (read_u8 cbor pos) (\<lambda>(initial, p).
       let major = major_of initial; arg = info_of initial in
       if major \<noteq> 0 then Inl (NonUintKey pos)
       else if arg = 0x1F then Inl (IndefiniteLength pos)
       else if 28 \<le> arg \<and> arg \<le> 30 then Inl (ReservedArgument pos)
       else read_argument cbor p arg pos)"

section \<open>The walker\<close>

function walk_item :: "bytes \<Rightarrow> nat \<Rightarrow> nat \<Rightarrow> CanonicalError + nat"
  and walk_array :: "bytes \<Rightarrow> nat \<Rightarrow> nat \<Rightarrow> nat \<Rightarrow> CanonicalError + nat"
  and walk_map :: "bytes \<Rightarrow> nat \<Rightarrow> nat \<Rightarrow> u64 option \<Rightarrow> nat \<Rightarrow> CanonicalError + nat"
where
  "walk_item cbor pos depth =
     (if depth > MAX_NESTING_DEPTH then Inl (NestingTooDeep pos)
      else bindE (read_u8 cbor pos) (\<lambda>(initial, p).
        let major = major_of initial; arg = info_of initial in
        if arg = 0x1F then Inl (IndefiniteLength pos)
        else if 28 \<le> arg \<and> arg \<le> 30 then Inl (ReservedArgument pos)
        else if major = 0 \<or> major = 1 then
          bindE (read_argument cbor p arg pos) (\<lambda>(_, p). Inr p)
        else if major = 2 \<or> major = 3 then
          bindE (read_argument cbor p arg pos) (\<lambda>(len, p). skip_bytes cbor p (unat len))
        else if major = 4 then
          bindE (read_argument cbor p arg pos) (\<lambda>(count, p).
            walk_array cbor p (depth + 1) (unat count))
        else if major = 5 then
          bindE (read_argument cbor p arg pos) (\<lambda>(count, p).
            walk_map cbor p (depth + 1) None (unat count))
        else if major = 6 then
          bindE (read_argument cbor p arg pos) (\<lambda>(tag, _). Inl (TaggedItem tag pos))
        else if 0xF4 \<le> initial \<and> initial \<le> 0xF7 then Inr p
        else if 0xF9 \<le> initial \<and> initial \<le> 0xFB then Inl (FloatForbidden pos)
        else Inl (InvalidSimpleValue initial pos)))"
| "walk_array cbor pos depth count =
     (if count = 0 then Inr pos
      else bindE (walk_item cbor pos depth) (\<lambda>p. walk_array cbor p depth (count - 1)))"
| "walk_map cbor pos depth prev_key count =
     (if count = 0 then Inr pos
      else bindE (read_uint_key cbor pos) (\<lambda>(key, p).
        case prev_key of
          Some q \<Rightarrow>
            if key \<le> q then
              (if key = q then Inl (DuplicateKey key pos) else Inl (KeysOutOfOrder pos))
            else bindE (walk_item cbor p depth) (\<lambda>p. walk_map cbor p depth (Some key) (count - 1))
        | None \<Rightarrow>
            bindE (walk_item cbor p depth) (\<lambda>p. walk_map cbor p depth (Some key) (count - 1))))"
  by pat_completeness auto
termination
  by (relation "measures
       [\<lambda>x. case x of Inl (_, _, d) \<Rightarrow> 10 - d
                    | Inr (Inl (_, _, d, _)) \<Rightarrow> 10 - d
                    | Inr (Inr (_, _, d, _, _)) \<Rightarrow> 10 - d,
        \<lambda>x. case x of Inl _ \<Rightarrow> 0
                    | Inr (Inl (_, _, _, n)) \<Rightarrow> Suc n
                    | Inr (Inr (_, _, _, _, n)) \<Rightarrow> Suc n]")
    (auto simp: MAX_NESTING_DEPTH_def)

declare walk_item.simps [simp del] walk_array.simps [simp del] walk_map.simps [simp del]

definition validate_canonical :: "bytes \<Rightarrow> CanonicalError + unit" where
  "validate_canonical cbor =
     bindE (walk_item cbor 0 0) (\<lambda>pos.
       if pos \<noteq> length cbor then Inl (TrailingBytes pos) else Inr ())"

section \<open>What the readers read\<close>

lemma nth_pair: "p + 2 \<le> length xs \<Longrightarrow> [xs ! p, xs ! (p + 1)] = take 2 (drop p xs)"
  by (rule nth_equalityI) (auto simp: less_Suc_eq numeral_2_eq_2 add.commute nth_append)

lemma nth_quad:
  "p + 4 \<le> length xs \<Longrightarrow> [xs ! p, xs ! (p + 1), xs ! (p + 2), xs ! (p + 3)] = take 4 (drop p xs)"
  by (rule nth_equalityI) (auto simp: less_Suc_eq eval_nat_numeral add.commute)

lemma read_u8_iff:
  "read_u8 cbor p = Inr (b, p') \<longleftrightarrow> p < length cbor \<and> b = cbor ! p \<and> p' = p + 1"
  by (auto simp: read_u8_def)

lemma read_u16_iff:
  "read_u16_be cbor p = Inr (v, p') \<longleftrightarrow>
     p + 2 \<le> length cbor \<and> v = u16_from_be_bytes (take 2 (drop p cbor)) \<and> p' = p + 2"
  using nth_pair [of p cbor] by (auto simp: read_u16_be_def)

lemma read_u32_iff:
  "read_u32_be cbor p = Inr (v, p') \<longleftrightarrow>
     p + 4 \<le> length cbor \<and> v = u32_from_be_bytes (take 4 (drop p cbor)) \<and> p' = p + 4"
  using nth_quad [of p cbor] by (auto simp: read_u32_be_def)

lemma read_u64_iff:
  "read_u64_be cbor p = Inr (v, p') \<longleftrightarrow>
     p + 8 \<le> length cbor \<and> v = u64_from_be_bytes (take 8 (drop p cbor)) \<and> p' = p + 8"
  by (auto simp: read_u64_be_def)

lemmas reader_iffs = read_u8_iff read_u16_iff read_u32_iff read_u64_iff

lemma skip_bytes_iff:
  "skip_bytes cbor p n = Inr p' \<longleftrightarrow> p + n < 2 ^ 64 \<and> p + n \<le> length cbor \<and> p' = p + n"
  by (auto simp: skip_bytes_def)

text \<open>
  Reading a head accepts exactly what \<open>encode_cbor_uint_header\<close> writes: the shortest form.
\<close>

lemma byte_of_major: "major_of b = m \<Longrightarrow> (push_bit 5 m AND 0xE0) OR info_of b = b"
  using split_initial [of b] major_mask [OF major_in_majors [of b]] by auto

lemma drop_read:
  assumes "p + n \<le> length xs"
  shows "drop p xs = take n (drop p xs) @ drop (p + n) xs"
  using assms by (rule drop_split)

lemma read_argument_cases:
  assumes "read_argument cbor p arg off = Inr (v, p')"
  obtains
    (imm) "unat arg < 24" "v = ucast arg" "p' = p"
  | (one) "arg = 24" "p < length cbor" "v = ucast (cbor ! p)" "24 \<le> unat (cbor ! p)"
      "p' = p + 1"
  | (two) w :: u16 where "arg = 25" "p + 2 \<le> length cbor" "u16_to_be_bytes w = take 2 (drop p cbor)"
      "v = ucast w" "256 \<le> unat w" "p' = p + 2"
  | (four) w :: u32 where "arg = 26" "p + 4 \<le> length cbor" "u32_to_be_bytes w = take 4 (drop p cbor)"
      "v = ucast w" "65536 \<le> unat w" "p' = p + 4"
  | (eight) "arg = 27" "p + 8 \<le> length cbor" "u64_to_be_bytes v = take 8 (drop p cbor)"
      "4294967296 \<le> unat v" "p' = p + 8"
proof -
  consider "arg \<le> 23" | "arg = 24" | "arg = 25" | "arg = 26" | "arg = 27"
    using assms by (fastforce simp: read_argument_def split: if_splits)
  then show ?thesis
  proof cases
    case 1
    with assms show ?thesis
      by (intro imm) (auto simp: read_argument_def word_le_nat_alt)
  next
    case 2
    with assms show ?thesis
      by (intro one) (auto simp: read_argument_def Let_def read_u8_iff result_simps
          word_less_nat_alt split: if_splits)
  next
    case 3
    with assms obtain w where w: "read_u16_be cbor p = Inr (w, p')" "v = ucast w"
      and "\<not> (ucast w :: u64) \<le> 0xFF"
      by (auto simp: read_argument_def Let_def result_simps split: if_splits)
    then have "256 \<le> unat w" by (simp add: word_le_nat_alt)
    with 3 w show ?thesis by (intro two [of w]) (auto simp: read_u16_iff be_simps)
  next
    case 4
    with assms obtain w where w: "read_u32_be cbor p = Inr (w, p')" "v = ucast w"
      and "\<not> (ucast w :: u64) \<le> 0xFFFF"
      by (auto simp: read_argument_def Let_def result_simps split: if_splits)
    then have "65536 \<le> unat w" by (simp add: word_le_nat_alt)
    with 4 w show ?thesis by (intro four [of w]) (auto simp: read_u32_iff be_simps)
  next
    case 5
    with assms have r: "read_u64_be cbor p = Inr (v, p')" and "\<not> v \<le> 0xFFFFFFFF"
      by (auto simp: read_argument_def Let_def result_simps split: if_splits)
    then have "4294967296 \<le> unat v" by (simp add: word_le_nat_alt)
    with 5 r show ?thesis by (intro eight) (auto simp: read_u64_iff be_simps)
  qed
qed

lemma read_argument_sound:
  assumes rd: "read_argument cbor (pos + 1) (info_of (cbor ! pos)) off = Inr (v, p')"
    and pos: "pos < length cbor" and m: "major_of (cbor ! pos) = m"
  shows "drop pos cbor = encode_cbor_uint_header (push_bit 5 m) v @ drop p' cbor"
    and "pos < p'" and "p' \<le> length cbor"
proof -
  let ?b = "cbor ! pos" and ?h = "encode_cbor_uint_header (push_bit 5 m) v"
  have d: "drop pos cbor = ?b # drop (pos + 1) cbor"
    using pos by (simp add: Cons_nth_drop_Suc)
  have b: "(push_bit 5 m AND 0xE0) OR info_of ?b = ?b"
    using m by (rule byte_of_major)
  from rd have "?h @ drop p' cbor = ?b # drop (pos + 1) cbor \<and> pos < p' \<and> p' \<le> length cbor"
  proof (cases rule: read_argument_cases)
    case imm
    with b pos show ?thesis by (simp add: header_cases)
  next
    case one
    with b show ?thesis by (simp add: header_cases Cons_nth_drop_Suc)
  next
    case (two w)
    with b show ?thesis
      using drop_read [of "pos + 1" 2 cbor] by (simp add: header_cases)
  next
    case (four w)
    with b show ?thesis
      using drop_read [of "pos + 1" 4 cbor] by (simp add: header_cases)
  next
    case eight
    with b show ?thesis
      using drop_read [of "pos + 1" 8 cbor] by (simp add: header_cases)
  qed
  with d show "drop pos cbor = ?h @ drop p' cbor" and "pos < p'" and "p' \<le> length cbor"
    by auto
qed

lemma drop_Cons_read:
  assumes "drop p xs = y # ys"
  shows "p < length xs" and "xs ! p = y" and "drop (p + 1) xs = ys" and "read_u8 xs p = Inr (y, p + 1)"
  using drop_eq_Cons_nth [OF assms] by (simp_all add: read_u8_def)

lemma drop_take_read:
  assumes "drop p xs = ys @ zs" and "0 < n" and "length ys = n"
  shows "p + n \<le> length xs" and "take n (drop p xs) = ys"
proof -
  have "p \<le> length xs"
    using assms by (cases "p \<le> length xs") auto
  with assms show "p + n \<le> length xs" and "take n (drop p xs) = ys"
    using drop_eq_append(1) [OF assms(1)] by auto
qed

text \<open>\<open>head_at\<close>: the head of major type \<open>m\<close> with argument \<open>v\<close> is read at \<open>pos\<close>.\<close>

definition head_at :: "bytes \<Rightarrow> nat \<Rightarrow> u8 \<Rightarrow> u64 \<Rightarrow> bool" where
  "head_at cbor pos m v \<longleftrightarrow>
     pos < length cbor \<and> major_of (cbor ! pos) = m \<and> info_of (cbor ! pos) < 28 \<and>
     (\<forall>off. read_argument cbor (pos + 1) (info_of (cbor ! pos)) off
              = Inr (v, pos + length (encode_cbor_uint_header (push_bit 5 m) v)))"

lemmas head_at_simps = head_at_def read_argument_def join_initial header_cases
  word_le_nat_alt word_less_nat_alt unat_narrow widen_narrow

lemma head_at_imm:
  assumes "drop pos cbor = encode_cbor_uint_header (push_bit 5 m) v @ rest"
    and m: "m \<in> set majors" and v: "unat v < 24"
  shows "head_at cbor pos m v"
proof -
  have "(ucast v :: u8) < 32" using v by (simp add: word_less_nat_alt unat_narrow)
  then show ?thesis
    using drop_Cons_read [of pos cbor "(push_bit 5 m AND 0xE0) OR ucast v" rest] assms
    by (simp add: head_at_simps)
qed

lemma head_at_one:
  assumes d: "drop pos cbor = encode_cbor_uint_header (push_bit 5 m) v @ rest"
    and m: "m \<in> set majors" and v: "24 \<le> unat v" "unat v < 256"
  shows "head_at cbor pos m v"
proof -
  have c: "drop pos cbor = ((push_bit 5 m AND 0xE0) OR 24) # ucast v # rest"
    using d v by (simp add: header_cases)
  show ?thesis
    using drop_Cons_read [OF c] drop_Cons_read [OF drop_Cons_read(3) [OF c]] m v
    by (simp add: head_at_simps)
qed

lemma head_at_two:
  assumes d: "drop pos cbor = encode_cbor_uint_header (push_bit 5 m) v @ rest"
    and m: "m \<in> set majors" and v: "256 \<le> unat v" "unat v < 65536"
  shows "head_at cbor pos m v"
proof -
  have c: "drop pos cbor = ((push_bit 5 m AND 0xE0) OR 25) # (u16_to_be_bytes (ucast v) @ rest)"
    using d v by (simp add: header_cases)
  have "read_u16_be cbor (pos + 1) = Inr (ucast v, pos + 3)"
    using drop_take_read [OF drop_Cons_read(3) [OF c], of 2] by (auto simp: read_u16_iff be_simps)
  then show ?thesis
    using drop_Cons_read [OF c] m v by (simp add: head_at_simps)
qed

lemma head_at_four:
  assumes d: "drop pos cbor = encode_cbor_uint_header (push_bit 5 m) v @ rest"
    and m: "m \<in> set majors" and v: "65536 \<le> unat v" "unat v < 4294967296"
  shows "head_at cbor pos m v"
proof -
  have c: "drop pos cbor = ((push_bit 5 m AND 0xE0) OR 26) # (u32_to_be_bytes (ucast v) @ rest)"
    using d v by (simp add: header_cases)
  have "read_u32_be cbor (pos + 1) = Inr (ucast v, pos + 5)"
    using drop_take_read [OF drop_Cons_read(3) [OF c], of 4] by (auto simp: read_u32_iff be_simps)
  then show ?thesis
    using drop_Cons_read [OF c] m v by (simp add: head_at_simps)
qed

lemma head_at_eight:
  assumes d: "drop pos cbor = encode_cbor_uint_header (push_bit 5 m) v @ rest"
    and m: "m \<in> set majors" and v: "4294967296 \<le> unat v"
  shows "head_at cbor pos m v"
proof -
  have c: "drop pos cbor = ((push_bit 5 m AND 0xE0) OR 27) # (u64_to_be_bytes v @ rest)"
    using d v by (simp add: header_cases)
  have "read_u64_be cbor (pos + 1) = Inr (v, pos + 9)"
    using drop_take_read [OF drop_Cons_read(3) [OF c], of 8] by (auto simp: read_u64_iff be_simps)
  then show ?thesis
    using drop_Cons_read [OF c] m v by (simp add: head_at_simps)
qed

lemma head_at_encode:
  assumes "drop pos cbor = encode_cbor_uint_header (push_bit 5 m) v @ rest" and "m \<in> set majors"
  shows "head_at cbor pos m v"
proof -
  consider "unat v < 24" | "24 \<le> unat v" "unat v < 256" | "256 \<le> unat v" "unat v < 65536"
    | "65536 \<le> unat v" "unat v < 4294967296" | "4294967296 \<le> unat v"
    by linarith
  then show ?thesis
    by cases (use assms in \<open>blast intro: head_at_imm head_at_one head_at_two head_at_four
        head_at_eight\<close>)+
qed

section \<open>Inversion and introduction rules of the walker\<close>

lemma walk_item_InrE:
  assumes "walk_item cbor pos d = Inr p'"
  obtains
    (number) v where "d \<le> MAX_NESTING_DEPTH" "pos < length cbor"
      "major_of (cbor ! pos) = 0 \<or> major_of (cbor ! pos) = 1"
      "read_argument cbor (pos + 1) (info_of (cbor ! pos)) pos = Inr (v, p')"
  | (str) len p where "d \<le> MAX_NESTING_DEPTH" "pos < length cbor"
      "major_of (cbor ! pos) = 2 \<or> major_of (cbor ! pos) = 3"
      "read_argument cbor (pos + 1) (info_of (cbor ! pos)) pos = Inr (len, p)"
      "p + unat len \<le> length cbor" "p' = p + unat len"
  | (arr) n p where "d \<le> MAX_NESTING_DEPTH" "pos < length cbor" "major_of (cbor ! pos) = 4"
      "read_argument cbor (pos + 1) (info_of (cbor ! pos)) pos = Inr (n, p)"
      "walk_array cbor p (d + 1) (unat n) = Inr p'"
  | (dict) n p where "d \<le> MAX_NESTING_DEPTH" "pos < length cbor" "major_of (cbor ! pos) = 5"
      "read_argument cbor (pos + 1) (info_of (cbor ! pos)) pos = Inr (n, p)"
      "walk_map cbor p (d + 1) None (unat n) = Inr p'"
  | (simple) "d \<le> MAX_NESTING_DEPTH" "pos < length cbor"
      "0xF4 \<le> cbor ! pos" "cbor ! pos \<le> 0xF7" "p' = pos + 1"
  using assms
  by (subst (asm) walk_item.simps)
    (auto simp: read_u8_iff skip_bytes_iff bindE_Inr_iff Let_def not_less split: if_splits)

lemma walk_item_number:
  assumes "d \<le> MAX_NESTING_DEPTH" and "head_at cbor pos m v" and "m = 0 \<or> m = 1"
  shows "walk_item cbor pos d = Inr (pos + length (encode_cbor_uint_header (push_bit 5 m) v))"
  using assms
  by (subst walk_item.simps) (auto simp: head_at_def read_u8_def Let_def word_le_nat_alt word_less_nat_alt)

lemma walk_item_string:
  assumes "d \<le> MAX_NESTING_DEPTH" and "head_at cbor pos m v" and "m = 2 \<or> m = 3"
    and "pos + length (encode_cbor_uint_header (push_bit 5 m) v) + unat v \<le> length cbor"
    and "length cbor < 2 ^ 64"
  shows "walk_item cbor pos d
           = Inr (pos + length (encode_cbor_uint_header (push_bit 5 m) v) + unat v)"
  using assms
  by (subst walk_item.simps)
    (auto simp: head_at_def read_u8_def skip_bytes_def Let_def word_le_nat_alt word_less_nat_alt)

lemma walk_item_array:
  assumes "d \<le> MAX_NESTING_DEPTH" and "head_at cbor pos 4 v"
  shows "walk_item cbor pos d
           = walk_array cbor (pos + length (encode_cbor_uint_header 0x80 v)) (d + 1) (unat v)"
  using assms
  by (subst walk_item.simps) (auto simp: head_at_def read_u8_def Let_def word_le_nat_alt word_less_nat_alt)

lemma walk_item_map:
  assumes "d \<le> MAX_NESTING_DEPTH" and "head_at cbor pos 5 v"
  shows "walk_item cbor pos d
           = walk_map cbor (pos + length (encode_cbor_uint_header 0xA0 v)) (d + 1) None (unat v)"
  using assms
  by (subst walk_item.simps) (auto simp: head_at_def read_u8_def Let_def word_le_nat_alt word_less_nat_alt)

lemma read_uint_key_iff:
  "read_uint_key cbor pos = Inr (k, p) \<longleftrightarrow>
     pos < length cbor \<and> major_of (cbor ! pos) = 0 \<and>
     read_argument cbor (pos + 1) (info_of (cbor ! pos)) pos = Inr (k, p)"
  by (auto simp: read_uint_key_def read_u8_iff bindE_Inr_iff Let_def read_argument_def
      word_le_nat_alt split: if_splits)

lemma read_uint_key_head:
  "head_at cbor pos 0 k \<Longrightarrow>
     read_uint_key cbor pos = Inr (k, pos + length (encode_cbor_uint_header 0x00 k))"
  by (auto simp: read_uint_key_iff head_at_def)

end
