(* ===== verification/Cbor_Item.thy ===== *)
theory Cbor_Item
  imports Canonical
begin

text \<open>
  The abstract specification of \<open>Canonical\<close>: the data items of the Komms profile (the list at
  the top of \<open>protocol/src/canonical.rs\<close>) and their one canonical encoding. \<open>wf_item d\<close> is the
  profile for an item at nesting depth \<open>d\<close>: strictly ascending unsigned map keys, bounded
  depth, lengths that fit in 64 bits; floats and tags are not items at all. The walker is
  proved sound and complete for it, and the encoding is proved prefix-free by a decoder.
\<close>

datatype simple = SFalse | STrue | SNull | SUndefined

datatype item =
    UInt u64
  | NInt u64
  | ByteStr bytes
  | TextStr bytes
  | Arr "item list"
  | Dict "(u64 \<times> item) list"
  | Simple simple

fun simple_byte :: "simple \<Rightarrow> u8" where
  "simple_byte SFalse = 0xF4"
| "simple_byte STrue = 0xF5"
| "simple_byte SNull = 0xF6"
| "simple_byte SUndefined = 0xF7"

lemma size_entry [simp, termination_simp]:
  "(k, v) \<in> set kvs \<Longrightarrow> size v < Suc (size_list (size_prod (\<lambda>_. 0) size) kvs)"
  by (induction kvs) auto

fun enc_item :: "item \<Rightarrow> bytes" where
  "enc_item (UInt v) = encode_cbor_uint_header 0x00 v"
| "enc_item (NInt v) = encode_cbor_uint_header 0x20 v"
| "enc_item (ByteStr bs) = encode_cbor_uint_header 0x40 (word_of_nat (length bs)) @ bs"
| "enc_item (TextStr bs) = encode_cbor_uint_header 0x60 (word_of_nat (length bs)) @ bs"
| "enc_item (Arr xs) =
     encode_cbor_uint_header 0x80 (word_of_nat (length xs)) @ concat (map enc_item xs)"
| "enc_item (Dict kvs) =
     encode_cbor_uint_header 0xA0 (word_of_nat (length kvs)) @
     concat (map (\<lambda>(k, v). encode_cbor_uint_header 0x00 k @ enc_item v) kvs)"
| "enc_item (Simple s) = [simple_byte s]"

fun wf_item :: "nat \<Rightarrow> item \<Rightarrow> bool" where
  "wf_item d (UInt v) = (d \<le> MAX_NESTING_DEPTH)"
| "wf_item d (NInt v) = (d \<le> MAX_NESTING_DEPTH)"
| "wf_item d (ByteStr bs) = (d \<le> MAX_NESTING_DEPTH \<and> length bs < 2 ^ 64)"
| "wf_item d (TextStr bs) = (d \<le> MAX_NESTING_DEPTH \<and> length bs < 2 ^ 64)"
| "wf_item d (Arr xs) =
     (d \<le> MAX_NESTING_DEPTH \<and> length xs < 2 ^ 64 \<and> (\<forall>x\<in>set xs. wf_item (d + 1) x))"
| "wf_item d (Dict kvs) =
     (d \<le> MAX_NESTING_DEPTH \<and> length kvs < 2 ^ 64 \<and> sorted_wrt (<) (map fst kvs) \<and>
      (\<forall>(k, v)\<in>set kvs. wf_item (d + 1) v))"
| "wf_item d (Simple s) = (d \<le> MAX_NESTING_DEPTH)"

definition enc_entry :: "u64 \<times> item \<Rightarrow> bytes" where
  "enc_entry = (\<lambda>(k, v). encode_cbor_uint_header 0x00 k @ enc_item v)"

lemma enc_entry_simp [simp]: "enc_entry (k, v) = encode_cbor_uint_header 0x00 k @ enc_item v"
  by (simp add: enc_entry_def)

lemma enc_item_Dict:
  "enc_item (Dict kvs) =
     encode_cbor_uint_header 0xA0 (word_of_nat (length kvs)) @ concat (map enc_entry kvs)"
  by (simp add: enc_entry_def)

declare enc_item.simps(6) [simp del]
declare enc_item_Dict [simp]

lemma enc_item_not_Nil [simp]: "enc_item it \<noteq> []"
  by (cases it) auto

lemma major_bytes:
  "push_bit 5 0 = (0x00 :: u8)" "push_bit 5 1 = (0x20 :: u8)" "push_bit 5 2 = (0x40 :: u8)"
  "push_bit 5 3 = (0x60 :: u8)" "push_bit 5 4 = (0x80 :: u8)" "push_bit 5 5 = (0xA0 :: u8)"
  by simp_all

lemma majors_mem [simp]:
  "0 \<in> set majors" "1 \<in> set majors" "2 \<in> set majors" "3 \<in> set majors" "4 \<in> set majors"
  "5 \<in> set majors"
  by (simp_all add: majors_def)

section \<open>Soundness: what the walker accepts is the encoding of an item\<close>

definition item_sound :: "bytes \<Rightarrow> nat \<Rightarrow> bool" where
  "item_sound cbor d \<longleftrightarrow> (\<forall>pos p'. walk_item cbor pos d = Inr p' \<longrightarrow>
     (\<exists>it. wf_item d it \<and> drop pos cbor = enc_item it @ drop p' cbor \<and> p' \<le> length cbor))"

lemma walk_array_sound:
  assumes "item_sound cbor d"
  shows "walk_array cbor pos d n = Inr p' \<Longrightarrow> pos \<le> length cbor \<Longrightarrow>
    \<exists>its. length its = n \<and> (\<forall>x\<in>set its. wf_item d x) \<and>
      drop pos cbor = concat (map enc_item its) @ drop p' cbor \<and> p' \<le> length cbor"
proof (induction n arbitrary: pos)
  case 0
  then show ?case by (auto simp: walk_array.simps)
next
  case (Suc n)
  from Suc.prems obtain p where p: "walk_item cbor pos d = Inr p" "walk_array cbor p d n = Inr p'"
    by (subst (asm) walk_array.simps) (auto simp: bindE_Inr_iff)
  with assms obtain it where it: "wf_item d it" "drop pos cbor = enc_item it @ drop p cbor"
      "p \<le> length cbor"
    unfolding item_sound_def by blast
  from Suc.IH [OF p(2) it(3)] obtain its where "length its = n" "\<forall>x\<in>set its. wf_item d x"
      "drop p cbor = concat (map enc_item its) @ drop p' cbor" "p' \<le> length cbor"
    by blast
  with it show ?case by (intro exI [of _ "it # its"]) auto
qed

lemma walk_map_SucE:
  assumes "walk_map cbor pos d prev (Suc n) = Inr p'"
  obtains k p1 p2 where "read_uint_key cbor pos = Inr (k, p1)"
    "\<forall>q. prev = Some q \<longrightarrow> q < k" "walk_item cbor p1 d = Inr p2"
    "walk_map cbor p2 d (Some k) n = Inr p'"
proof (cases prev)
  case None
  with assms that show thesis
    by (auto simp: walk_map.simps [of cbor pos d None "Suc n"] bindE_Inr_iff)
next
  case (Some q)
  with assms obtain k p1 where key: "read_uint_key cbor pos = Inr (k, p1)"
    by (auto simp: walk_map.simps [of cbor pos d "Some q" "Suc n"] bindE_Inr_iff)
  with assms Some have "\<not> k \<le> q"
    by (auto simp: walk_map.simps [of cbor pos d "Some q" "Suc n"] split: if_splits)
  with assms Some key that show thesis
    by (auto simp: walk_map.simps [of cbor pos d "Some q" "Suc n"] bindE_Inr_iff not_le)
qed

lemma walk_map_sound:
  assumes "item_sound cbor d"
  shows "walk_map cbor pos d prev n = Inr p' \<Longrightarrow> pos \<le> length cbor \<Longrightarrow>
    \<exists>kvs. length kvs = n \<and> sorted_wrt (<) (map fst kvs) \<and> (\<forall>(k, v)\<in>set kvs. wf_item d v) \<and>
      (\<forall>q k v. prev = Some q \<longrightarrow> (k, v) \<in> set kvs \<longrightarrow> q < k) \<and>
      drop pos cbor = concat (map enc_entry kvs) @ drop p' cbor \<and> p' \<le> length cbor"
proof (induction n arbitrary: pos prev)
  case 0
  then show ?case by (auto simp: walk_map.simps)
next
  case (Suc n)
  obtain k p1 p2 where key: "read_uint_key cbor pos = Inr (k, p1)"
      and less: "\<forall>q. prev = Some q \<longrightarrow> q < k"
      and item: "walk_item cbor p1 d = Inr p2"
      and rest: "walk_map cbor p2 d (Some k) n = Inr p'"
    using Suc.prems(1) by (rule walk_map_SucE)
  from key have rd: "read_argument cbor (pos + 1) (info_of (cbor ! pos)) pos = Inr (k, p1)"
      "pos < length cbor" "major_of (cbor ! pos) = 0"
    by (auto simp: read_uint_key_iff)
  note k = read_argument_sound [OF rd]
  from item assms obtain it where it: "wf_item d it" "drop p1 cbor = enc_item it @ drop p2 cbor"
      "p2 \<le> length cbor"
    unfolding item_sound_def by blast
  from Suc.IH [OF rest it(3)] obtain kvs where kvs: "length kvs = n"
      "sorted_wrt (<) (map fst kvs)" "\<forall>(k, v)\<in>set kvs. wf_item d v"
      "\<forall>k' v. (k', v) \<in> set kvs \<longrightarrow> k < k'"
      "drop p2 cbor = concat (map enc_entry kvs) @ drop p' cbor" "p' \<le> length cbor"
    by auto
  with k(1) it less show ?case
    by (intro exI [of _ "(k, it) # kvs"]) (auto simp: major_bytes dest: less_trans)
qed

lemma simple_of_byte:
  assumes "0xF4 \<le> b" and "b \<le> (0xF7 :: u8)"
  obtains s where "b = simple_byte s"
proof -
  have "unat b \<in> {0xF4, 0xF5, 0xF6, 0xF7}"
    using assms by (auto simp: word_le_nat_alt)
  then have "b \<in> {0xF4, 0xF5, 0xF6, 0xF7}"
    by (auto simp: word_eq_iff_unsigned [where 'a = nat])
  then show thesis
    using that [of SFalse] that [of STrue] that [of SNull] that [of SUndefined] by auto
qed

lemma walk_item_sound_step:
  assumes sub: "item_sound cbor (d + 1)"
  shows "item_sound cbor d"
  unfolding item_sound_def
proof (intro allI impI)
  fix pos p'
  let ?P = "\<lambda>it. wf_item d it \<and> drop pos cbor = enc_item it @ drop p' cbor \<and> p' \<le> length cbor"
  assume "walk_item cbor pos d = Inr p'"
  then show "\<exists>it. ?P it"
  proof (cases rule: walk_item_InrE)
    case (number v)
    note h = read_argument_sound [OF number(4,2) refl]
    from number(3) show ?thesis
    proof
      assume "major_of (cbor ! pos) = 0"
      with h number(1) have "?P (UInt v)" by simp
      then show ?thesis by blast
    next
      assume "major_of (cbor ! pos) = 1"
      with h number(1) have "?P (NInt v)" by simp
      then show ?thesis by blast
    qed
  next
    case (str len p)
    note h = read_argument_sound [OF str(4,2) refl]
    let ?s = "take (unat len) (drop p cbor)"
    have s: "drop p cbor = ?s @ drop p' cbor" and l: "length ?s = unat len" "length ?s < 2 ^ 64"
      using str(5,6) drop_split [of p "unat len" cbor] by auto
    have w: "word_of_nat (length ?s) = len" by (simp only: l of_nat_unat ucast_id)
    have e: "drop pos cbor
        = encode_cbor_uint_header (push_bit 5 (major_of (cbor ! pos))) len @ ?s @ drop p' cbor"
      using h(1) s by simp
    have p: "p' \<le> length cbor" using str by simp
    from str(3) show ?thesis
    proof
      assume "major_of (cbor ! pos) = 2"
      with str(1) l(2) e p have "?P (ByteStr ?s)"
        by (simp only: enc_item.simps wf_item.simps w major_bytes append_assoc simp_thms)
      then show ?thesis by blast
    next
      assume "major_of (cbor ! pos) = 3"
      with str(1) l(2) e p have "?P (TextStr ?s)"
        by (simp only: enc_item.simps wf_item.simps w major_bytes append_assoc simp_thms)
      then show ?thesis by blast
    qed
  next
    case (arr n p)
    note h = read_argument_sound [OF arr(4,2,3)]
    from walk_array_sound [OF sub arr(5) h(3)] obtain its where "length its = unat n"
        "\<forall>x\<in>set its. wf_item (d + 1) x" "drop p cbor = concat (map enc_item its) @ drop p' cbor"
        "p' \<le> length cbor"
      by blast
    moreover have "length its < 2 ^ 64" "word_of_nat (length its) = n"
      using \<open>length its = unat n\<close> by simp_all
    ultimately have "?P (Arr its)"
      using h(1) arr(1) by (simp only: enc_item.simps wf_item.simps major_bytes append_assoc simp_thms)
    then show ?thesis by blast
  next
    case (dict n p)
    note h = read_argument_sound [OF dict(4,2,3)]
    from walk_map_sound [OF sub dict(5) h(3)] obtain kvs where "length kvs = unat n"
        "sorted_wrt (<) (map fst kvs)" "\<forall>(k, v)\<in>set kvs. wf_item (d + 1) v"
        "drop p cbor = concat (map enc_entry kvs) @ drop p' cbor" "p' \<le> length cbor"
      by blast
    moreover have "length kvs < 2 ^ 64" "word_of_nat (length kvs) = n"
      using \<open>length kvs = unat n\<close> by simp_all
    ultimately have "?P (Dict kvs)"
      using h(1) dict(1)
      by (simp only: enc_item_Dict wf_item.simps major_bytes append_assoc simp_thms)
    then show ?thesis by blast
  next
    case simple
    from simple(3,4) obtain s where s: "cbor ! pos = simple_byte s" by (rule simple_of_byte)
    with simple(1,2,5) have "?P (Simple s)"
      by (simp add: Cons_nth_drop_Suc flip: s)
    then show ?thesis by blast
  qed
qed

lemma walk_item_sound: "item_sound cbor d"
proof (induction "10 - d" arbitrary: d)
  case 0
  then have "MAX_NESTING_DEPTH < d" by (simp add: MAX_NESTING_DEPTH_def)
  then show ?case by (simp add: item_sound_def walk_item.simps)
next
  case (Suc n)
  then have "item_sound cbor (d + 1)" by simp
  then show ?case by (rule walk_item_sound_step)
qed

section \<open>Completeness: the walker accepts every canonical encoding\<close>

definition item_complete :: "bytes \<Rightarrow> nat \<Rightarrow> bool" where
  "item_complete cbor d \<longleftrightarrow> (\<forall>it pos rest. wf_item d it \<longrightarrow> drop pos cbor = enc_item it @ rest \<longrightarrow>
     walk_item cbor pos d = Inr (pos + length (enc_item it)))"

lemma drop_enc_item_bound:
  "drop pos cbor = enc_item it @ rest \<Longrightarrow> pos + length (enc_item it) \<le> length cbor"
  by (rule drop_eq_append(1)) (auto intro: ccontr [of "pos \<le> length cbor"])

lemma walk_array_complete:
  assumes "item_complete cbor d"
  shows "\<forall>x\<in>set its. wf_item d x \<Longrightarrow> drop pos cbor = concat (map enc_item its) @ rest \<Longrightarrow>
    walk_array cbor pos d (length its) = Inr (pos + length (concat (map enc_item its)))"
proof (induction its arbitrary: pos)
  case Nil
  then show ?case by (simp add: walk_array.simps)
next
  case (Cons it its)
  let ?p = "pos + length (enc_item it)"
  have d: "drop pos cbor = enc_item it @ (concat (map enc_item its) @ rest)"
    using Cons.prems(2) by simp
  then have "drop ?p cbor = concat (map enc_item its) @ rest"
    using drop_eq_append(2) [OF d] drop_enc_item_bound [OF d] by simp
  moreover have "walk_item cbor pos d = Inr ?p"
    using assms Cons.prems(1) d unfolding item_complete_def by simp
  ultimately show ?case
    using Cons.IH [of ?p] Cons.prems(1)
    by (simp add: walk_array.simps [of cbor pos] add.assoc)
qed

lemma drop_enc_item:
  assumes "drop pos cbor = enc_item it @ rest"
  shows "drop (pos + length (enc_item it)) cbor = rest"
  using drop_eq_append(2) [OF assms] drop_enc_item_bound [OF assms] by simp

lemma walk_map_Suc:
  assumes "read_uint_key cbor pos = Inr (k, p1)" and "\<forall>q. prev = Some q \<longrightarrow> q < k"
    and "walk_item cbor p1 d = Inr p2"
  shows "walk_map cbor pos d prev (Suc n) = walk_map cbor p2 d (Some k) n"
  using assms by (subst walk_map.simps) (auto simp: not_le split: option.split)

lemma walk_map_complete:
  assumes "item_complete cbor d"
  shows "\<forall>(k, v)\<in>set kvs. wf_item d v \<Longrightarrow> sorted_wrt (<) (map fst kvs) \<Longrightarrow>
    \<forall>q k v. prev = Some q \<longrightarrow> (k, v) \<in> set kvs \<longrightarrow> q < k \<Longrightarrow>
    drop pos cbor = concat (map enc_entry kvs) @ rest \<Longrightarrow>
    walk_map cbor pos d prev (length kvs) = Inr (pos + length (concat (map enc_entry kvs)))"
proof (induction kvs arbitrary: pos prev)
  case Nil
  then show ?case by (simp add: walk_map.simps)
next
  case (Cons kv kvs)
  obtain k it where kv: "kv = (k, it)" by (cases kv)
  let ?h = "encode_cbor_uint_header 0x00 k"
  let ?p1 = "pos + length ?h" and ?p2 = "pos + length ?h + length (enc_item it)"
  have d: "drop pos cbor = ?h @ (enc_item it @ concat (map enc_entry kvs) @ rest)"
    using Cons.prems(4) kv by simp
  then have h: "head_at cbor pos 0 k"
    by (intro head_at_encode) (simp_all add: major_bytes)
  then have "pos \<le> length cbor" by (simp add: head_at_def)
  with d have d1: "drop ?p1 cbor = enc_item it @ (concat (map enc_entry kvs) @ rest)"
    by (rule drop_eq_append(2))
  have d2: "drop ?p2 cbor = concat (map enc_entry kvs) @ rest"
    by (rule drop_enc_item [OF d1])
  have it: "walk_item cbor ?p1 d = Inr ?p2"
    using assms Cons.prems(1) kv d1 unfolding item_complete_def by simp
  have k: "\<forall>q. prev = Some q \<longrightarrow> q < k"
    using Cons.prems(3) kv by auto
  have "walk_map cbor ?p2 d (Some k) (length kvs) = Inr (?p2 + length (concat (map enc_entry kvs)))"
    using Cons.prems(1,2) kv d2 by (intro Cons.IH) auto
  then show ?case
    using walk_map_Suc [OF read_uint_key_head [OF h] k it] kv by (simp add: add.assoc)
qed

lemma walk_item_complete_step:
  assumes sub: "item_complete cbor (d + 1)" and len: "length cbor < 2 ^ 64"
  shows "item_complete cbor d"
  unfolding item_complete_def
proof (intro allI impI)
  fix it pos rest
  assume wf: "wf_item d it" and d: "drop pos cbor = enc_item it @ rest"
  note bound = drop_enc_item_bound [OF d]
  have head: "head_at cbor pos m v"
    if "m \<in> set majors" "drop pos cbor = encode_cbor_uint_header (push_bit 5 m) v @ r" for m v r
    using that by (intro head_at_encode)
  show "walk_item cbor pos d = Inr (pos + length (enc_item it))"
  proof (cases it)
    case (UInt v)
    have "head_at cbor pos 0 v" using d UInt by (intro head) simp_all
    with wf UInt show ?thesis using walk_item_number [of d cbor pos 0 v] by simp
  next
    case (NInt v)
    have "head_at cbor pos 1 v" using d NInt by (intro head) simp_all
    with wf NInt show ?thesis using walk_item_number [of d cbor pos 1 v] by simp
  next
    case (ByteStr bs)
    have "head_at cbor pos 2 (word_of_nat (length bs))" using d ByteStr by (intro head) simp_all
    with wf ByteStr bound len show ?thesis
      using walk_item_string [of d cbor pos 2 "word_of_nat (length bs)"] by (simp add: unat_of_nat)
  next
    case (TextStr bs)
    have "head_at cbor pos 3 (word_of_nat (length bs))" using d TextStr by (intro head) simp_all
    with wf TextStr bound len show ?thesis
      using walk_item_string [of d cbor pos 3 "word_of_nat (length bs)"] by (simp add: unat_of_nat)
  next
    case (Arr its)
    let ?h = "encode_cbor_uint_header 0x80 (word_of_nat (length its))"
    have h: "head_at cbor pos 4 (word_of_nat (length its))" using d Arr by (intro head) simp_all
    have "drop (pos + length ?h) cbor = concat (map enc_item its) @ rest"
      using d Arr bound by (intro drop_eq_append(2)) simp_all
    from walk_array_complete [OF sub _ this] wf Arr show ?thesis
      using walk_item_array [OF _ h] by (simp add: unat_of_nat add.assoc)
  next
    case (Dict kvs)
    let ?h = "encode_cbor_uint_header 0xA0 (word_of_nat (length kvs))"
    have h: "head_at cbor pos 5 (word_of_nat (length kvs))" using d Dict by (intro head) simp_all
    have "drop (pos + length ?h) cbor = concat (map enc_entry kvs) @ rest"
      using d Dict bound by (intro drop_eq_append(2)) simp_all
    from walk_map_complete [OF sub _ _ _ this, of None] wf Dict show ?thesis
      using walk_item_map [OF _ h] by (simp add: unat_of_nat add.assoc)
  next
    case (Simple s)
    with d wf show ?thesis
      using drop_Cons_read [of pos cbor "simple_byte s" rest]
      by (cases s) (simp_all add: walk_item.simps Let_def major_of_def info_of_def)
  qed
qed

lemma walk_item_complete:
  assumes "length cbor < 2 ^ 64"
  shows "item_complete cbor d"
proof (induction "10 - d" arbitrary: d)
  case 0
  then have "\<not> wf_item d it" for it
    by (cases it) (auto simp: MAX_NESTING_DEPTH_def)
  then show ?case by (simp add: item_complete_def)
next
  case (Suc n)
  then have "item_complete cbor (d + 1)" by simp
  then show ?case using assms by (rule walk_item_complete_step)
qed

lemma validate_canonical_enc:
  assumes "wf_item 0 it" and "length (enc_item it) < 2 ^ 64"
  shows "validate_canonical (enc_item it) = Inr ()"
  using walk_item_complete [OF assms(2), of 0] assms(1)
  by (auto simp: item_complete_def validate_canonical_def dest: spec [of _ it])

lemma validate_canonical_item:
  assumes "validate_canonical cbor = Inr ()"
  obtains it where "wf_item 0 it" and "cbor = enc_item it"
  using assms walk_item_sound [of cbor 0]
  by (fastforce simp: item_sound_def validate_canonical_def bindE_Inr_iff split: if_splits)

section \<open>A decoder, and with it unique readability\<close>

definition dec_head :: "bytes \<Rightarrow> (u8 \<times> u64 \<times> bytes) option" where
  "dec_head bs = (case bs of [] \<Rightarrow> None
     | b # _ \<Rightarrow> (case read_argument bs 1 (info_of b) 0 of Inl _ \<Rightarrow> None
        | Inr (v, p) \<Rightarrow> Some (major_of b, v, drop p bs)))"

lemma dec_head_encode:
  assumes "m \<in> set majors"
  shows "dec_head (encode_cbor_uint_header (push_bit 5 m) v @ rest) = Some (m, v, rest)"
proof -
  let ?h = "encode_cbor_uint_header (push_bit 5 m) v"
  have "head_at (?h @ rest) 0 m v" by (intro head_at_encode) (simp_all add: assms)
  then show ?thesis
    by (cases "?h @ rest") (auto simp: head_at_def dec_head_def simp del: Nil_is_append_conv
        dest: arg_cong [where f = "drop (length ?h)"])
qed

fun simple_of :: "u64 \<Rightarrow> simple option" where
  "simple_of v = (if v = 20 then Some SFalse else if v = 21 then Some STrue
     else if v = 22 then Some SNull else if v = 23 then Some SUndefined else None)"

text \<open>The first argument bounds the nesting that is still allowed.\<close>

function (sequential)
  dec_item :: "nat \<Rightarrow> bytes \<Rightarrow> (item \<times> bytes) option" and
  dec_arr :: "nat \<Rightarrow> nat \<Rightarrow> bytes \<Rightarrow> (item list \<times> bytes) option" and
  dec_dict :: "nat \<Rightarrow> nat \<Rightarrow> bytes \<Rightarrow> ((u64 \<times> item) list \<times> bytes) option" where
  "dec_item 0 bs = None"
| "dec_item (Suc d) bs = (case dec_head bs of None \<Rightarrow> None | Some (m, v, r) \<Rightarrow>
     if m = 0 then Some (UInt v, r)
     else if m = 1 then Some (NInt v, r)
     else if m = 2 then
       (if unat v \<le> length r then Some (ByteStr (take (unat v) r), drop (unat v) r) else None)
     else if m = 3 then
       (if unat v \<le> length r then Some (TextStr (take (unat v) r), drop (unat v) r) else None)
     else if m = 4 then map_option (\<lambda>(xs, r). (Arr xs, r)) (dec_arr d (unat v) r)
     else if m = 5 then map_option (\<lambda>(kvs, r). (Dict kvs, r)) (dec_dict d (unat v) r)
     else if m = 7 then map_option (\<lambda>s. (Simple s, r)) (simple_of v)
     else None)"
| "dec_arr d 0 bs = Some ([], bs)"
| "dec_arr d (Suc n) bs = (case dec_item d bs of None \<Rightarrow> None | Some (x, r) \<Rightarrow>
     map_option (\<lambda>(xs, r). (x # xs, r)) (dec_arr d n r))"
| "dec_dict d 0 bs = Some ([], bs)"
| "dec_dict d (Suc n) bs = (case dec_head bs of None \<Rightarrow> None | Some (m, k, r) \<Rightarrow>
     if m \<noteq> 0 then None else (case dec_item d r of None \<Rightarrow> None | Some (x, r) \<Rightarrow>
       map_option (\<lambda>(kvs, r). ((k, x) # kvs, r)) (dec_dict d n r)))"
  by pat_completeness auto
termination
  by (relation "measures
       [\<lambda>x. case x of Inl (d, _) \<Rightarrow> d | Inr (Inl (d, _, _)) \<Rightarrow> d | Inr (Inr (d, _, _)) \<Rightarrow> d,
        \<lambda>x. case x of Inl _ \<Rightarrow> 0 | Inr (Inl (_, n, _)) \<Rightarrow> Suc n | Inr (Inr (_, n, _)) \<Rightarrow> Suc n]")
    auto

definition item_decodes :: "nat \<Rightarrow> item \<Rightarrow> bool" where
  "item_decodes d it \<longleftrightarrow> (\<forall>rest. dec_item d (enc_item it @ rest) = Some (it, rest))"

lemma dec_arr_enc:
  "\<forall>x\<in>set xs. item_decodes d x \<Longrightarrow>
     dec_arr d (length xs) (concat (map enc_item xs) @ rest) = Some (xs, rest)"
  by (induction xs) (auto simp: item_decodes_def)

lemma dec_dict_enc:
  "\<forall>(k, x)\<in>set kvs. item_decodes d x \<Longrightarrow>
     dec_dict d (length kvs) (concat (map enc_entry kvs) @ rest) = Some (kvs, rest)"
  using dec_head_encode [of 0] by (induction kvs) (auto simp: item_decodes_def)

lemma dec_head_major:
  "dec_head (encode_cbor_uint_header 0x00 v @ rest) = Some (0, v, rest)"
  "dec_head (encode_cbor_uint_header 0x20 v @ rest) = Some (1, v, rest)"
  "dec_head (encode_cbor_uint_header 0x40 v @ rest) = Some (2, v, rest)"
  "dec_head (encode_cbor_uint_header 0x60 v @ rest) = Some (3, v, rest)"
  "dec_head (encode_cbor_uint_header 0x80 v @ rest) = Some (4, v, rest)"
  "dec_head (encode_cbor_uint_header 0xA0 v @ rest) = Some (5, v, rest)"
  using dec_head_encode [of 0] dec_head_encode [of 1] dec_head_encode [of 2]
    dec_head_encode [of 3] dec_head_encode [of 4] dec_head_encode [of 5]
  by simp_all

lemma dec_head_simple: "dec_item (Suc d) (simple_byte s # rest) = Some (Simple s, rest)"
  by (cases s)
    (simp_all add: dec_head_def read_argument_def major_of_def info_of_def)

lemma wf_item_depth: "wf_item d it \<Longrightarrow> d \<le> MAX_NESTING_DEPTH"
  by (cases it) auto

lemma dec_item_enc:
  "wf_item k it \<Longrightarrow> k + d = MAX_NESTING_DEPTH \<Longrightarrow> item_decodes (Suc d) it"
proof (induction it arbitrary: k d)
  case (Arr xs)
  have "item_decodes d x" if "x \<in> set xs" for x
    using Arr.IH [OF that, of "k + 1" "d - 1"] Arr.prems that wf_item_depth [of "k + 1" x]
    by (cases d) auto
  with Arr.prems show ?case
    using dec_arr_enc [of xs d] by (simp add: item_decodes_def dec_head_major unat_of_nat)
next
  case (Dict kvs)
  have "item_decodes d x" if "(key, x) \<in> set kvs" for key x
    using Dict.IH [OF that _ , of x "k + 1" "d - 1"] Dict.prems that wf_item_depth [of "k + 1" x]
    by (cases d) (auto simp: Basic_BNFs.snds.simps)
  then have "\<forall>(key, x)\<in>set kvs. item_decodes d x" by blast
  with Dict.prems show ?case
    using dec_dict_enc [of kvs d] by (simp add: item_decodes_def dec_head_major unat_of_nat)
next
  case (Simple s)
  show ?case using dec_head_simple by (simp add: item_decodes_def del: dec_item.simps)
qed (simp_all add: item_decodes_def dec_head_major unat_of_nat)

lemma dec_enc_item:
  "wf_item 0 it \<Longrightarrow> dec_item (Suc MAX_NESTING_DEPTH) (enc_item it @ rest) = Some (it, rest)"
  using dec_item_enc [of 0 it MAX_NESTING_DEPTH] by (simp add: item_decodes_def)

lemma enc_item_prefix_free:
  assumes "wf_item 0 a" and "wf_item 0 b" and "enc_item a @ r = enc_item b @ s"
  shows "a = b" and "r = s"
  using dec_enc_item [OF assms(1), of r] dec_enc_item [OF assms(2), of s] assms(3) by auto

section \<open>The contract of the gate\<close>

text \<open>
  C2: \<open>validate_canonical\<close> accepts a byte string exactly when it is the one canonical encoding
  of a data item of the profile: definite shortest-form lengths, strictly ascending unsigned
  map keys, no floats, no tags, at most eight levels below the top, nothing after the item.
\<close>
theorem validate_canonical_iff:
  assumes "length cbor < 2 ^ 64"
  shows "validate_canonical cbor = Inr () \<longleftrightarrow> (\<exists>it. wf_item 0 it \<and> cbor = enc_item it)"
proof
  assume "validate_canonical cbor = Inr ()"
  then show "\<exists>it. wf_item 0 it \<and> cbor = enc_item it"
    by (rule validate_canonical_item) blast
next
  assume "\<exists>it. wf_item 0 it \<and> cbor = enc_item it"
  with assms show "validate_canonical cbor = Inr ()"
    by (auto intro: validate_canonical_enc)
qed

definition sample_item :: item where
  "sample_item = Dict [(0, UInt 1), (7, TextStr [0x68, 0x69]), (24, Arr [NInt 500, Simple SNull])]"

lemma wf_sample_item: "wf_item 0 sample_item"
  by (simp add: sample_item_def MAX_NESTING_DEPTH_def)

lemma enc_sample_item:
  "enc_item sample_item
     = [0xA3, 0x00, 0x01, 0x07, 0x62, 0x68, 0x69, 0x18, 0x18, 0x82, 0x39, 0x01, 0xF4, 0xF6]"
  by (simp add: sample_item_def encode_cbor_uint_header_def u16_to_be_bytes_def be_bytes_2)

theorem validate_canonical_iff_witness:
  "validate_canonical
     [0xA3, 0x00, 0x01, 0x07, 0x62, 0x68, 0x69, 0x18, 0x18, 0x82, 0x39, 0x01, 0xF4, 0xF6] = Inr ()"
proof -
  have "length (enc_item sample_item) < 2 ^ 64" by (simp add: enc_sample_item)
  from validate_canonical_iff [OF this] have "validate_canonical (enc_item sample_item) = Inr ()"
    using wf_sample_item by blast
  then show ?thesis by (simp only: enc_sample_item)
qed

text \<open>
  An accepted byte string has exactly one reading, and no accepted byte string is a
  proper prefix of another: two payloads that decode to the same item are the same bytes.
\<close>
lemma validate_canonical_unique:
  assumes "validate_canonical cbor = Inr ()"
  shows "(\<exists>!it. wf_item 0 it \<and> cbor = enc_item it) \<and>
         (\<forall>more. validate_canonical (cbor @ more) = Inr () \<longrightarrow> more = [])"
proof (intro conjI allI impI)
  from assms obtain it where it: "wf_item 0 it" "cbor = enc_item it"
    by (rule validate_canonical_item)
  show "\<exists>!it. wf_item 0 it \<and> cbor = enc_item it"
    using it enc_item_prefix_free(1) [of _ _ "[]" "[]"] by (intro ex1I [of _ it]) auto
  fix more
  assume "validate_canonical (cbor @ more) = Inr ()"
  then obtain it' where "wf_item 0 it'" "cbor @ more = enc_item it'"
    by (rule validate_canonical_item)
  with it show "more = []" using enc_item_prefix_free(2) [of it it' more "[]"] by simp
qed

lemma validate_canonical_unique_example:
  "\<exists>!it. wf_item 0 it \<and> [0x63, 0x61, 0x62, 0x63] = enc_item it"
proof -
  have "enc_item (TextStr [0x61, 0x62, 0x63]) = [0x63, 0x61, 0x62, 0x63]"
    by (simp add: encode_cbor_uint_header_def)
  then have "validate_canonical [0x63, 0x61, 0x62, 0x63] = Inr ()"
    using validate_canonical_enc [of "TextStr [0x61, 0x62, 0x63]"] by (simp add: MAX_NESTING_DEPTH_def)
  from validate_canonical_unique [OF this] show ?thesis by blast
qed

end
