(* ===== verification/Cbor_Value.thy ===== *)
theory Cbor_Value
  imports Cbor_Item Utf8
begin

text \<open>
  The value type of the CBOR library the sources call (\<open>ciborium::Value\<close>) with the accessors
  they use, and the interface of its two entry points: \<open>de\<close> stands for
  \<open>ciborium::de::from_reader\<close> (an error is its message) and \<open>ser\<close> for
  \<open>ciborium::ser::into_writer\<close> into a \<open>Vec\<close>. Both are parameters of the model. The locale
  \<open>cbor_codec\<close> names what the sources rely on: a value of the profile (\<open>value_of\<close> of a
  well-formed item) is written in its canonical form, and the canonical form of a value is read
  back as that value. The interpretation at the end shows the laws can hold, with the codec
  built from \<open>Cbor_Item\<close>.
\<close>

datatype cval =
    Integer int
  | Bytes bytes
  | Float u64
  | Text bytes
  | Bool bool
  | Null
  | Tag u64 cval
  | Array "cval list"
  | Map "(cval \<times> cval) list"

fun as_integer :: "cval \<Rightarrow> int option" where
  "as_integer (Integer i) = Some i"
| "as_integer _ = None"

fun as_bool :: "cval \<Rightarrow> bool option" where
  "as_bool (Bool b) = Some b"
| "as_bool _ = None"

fun into_bytes :: "cval \<Rightarrow> cval + bytes" where
  "into_bytes (Bytes b) = Inr b"
| "into_bytes v = Inl v"

fun into_text :: "cval \<Rightarrow> cval + bytes" where
  "into_text (Text s) = Inr s"
| "into_text v = Inl v"

text \<open>\<open>u8::try_from\<close> and \<open>u64::try_from\<close> on the library's integer type.\<close>

definition u8_try_from :: "int \<Rightarrow> u8 option" where
  "u8_try_from i = (if 0 \<le> i \<and> i < 256 then Some (word_of_int i) else None)"

definition u64_try_from :: "int \<Rightarrow> u64 option" where
  "u64_try_from i = (if 0 \<le> i \<and> i < 2 ^ 64 then Some (word_of_int i) else None)"

section \<open>The values of the profile\<close>

fun value_of :: "item \<Rightarrow> cval" where
  "value_of (UInt v) = Integer (uint v)"
| "value_of (NInt v) = Integer (- 1 - uint v)"
| "value_of (ByteStr bs) = Bytes bs"
| "value_of (TextStr bs) = Text bs"
| "value_of (Arr xs) = Array (map value_of xs)"
| "value_of (Dict kvs) = Map (map (\<lambda>(k, v). (Integer (uint k), value_of v)) kvs)"
| "value_of (Simple s) =
     (case s of SFalse \<Rightarrow> Bool False | STrue \<Rightarrow> Bool True | SNull \<Rightarrow> Null | SUndefined \<Rightarrow> Null)"

text \<open>\<open>plain_item\<close>: no \<open>undefined\<close> inside; \<open>texts_valid\<close>: every text string is UTF-8.\<close>

fun plain_item :: "item \<Rightarrow> bool" where
  "plain_item (Arr xs) = (\<forall>x\<in>set xs. plain_item x)"
| "plain_item (Dict kvs) = (\<forall>(k, v)\<in>set kvs. plain_item v)"
| "plain_item (Simple s) = (s \<noteq> SUndefined)"
| "plain_item _ = True"

fun texts_valid :: "item \<Rightarrow> bool" where
  "texts_valid (TextStr bs) = utf8_valid bs"
| "texts_valid (Arr xs) = (\<forall>x\<in>set xs. texts_valid x)"
| "texts_valid (Dict kvs) = (\<forall>(k, v)\<in>set kvs. texts_valid v)"
| "texts_valid _ = True"

locale cbor_codec =
  fixes ser :: "cval \<Rightarrow> bytes"
    and de :: "bytes \<Rightarrow> string + cval"
  assumes ser_item: "wf_item 0 it \<Longrightarrow> plain_item it \<Longrightarrow> texts_valid it \<Longrightarrow> ser (value_of it) = enc_item it"
    and de_item: "wf_item 0 it \<Longrightarrow> plain_item it \<Longrightarrow> texts_valid it \<Longrightarrow> de (enc_item it) = Inr (value_of it)"
    and de_bad_text: "wf_item 0 it \<Longrightarrow> \<not> texts_valid it \<Longrightarrow> \<exists>e. de (enc_item it) = Inl e"
begin

lemma de_ser:
  "wf_item 0 it \<Longrightarrow> plain_item it \<Longrightarrow> texts_valid it \<Longrightarrow> de (ser (value_of it)) = Inr (value_of it)"
  by (simp add: ser_item de_item)

lemma de_Inr_item:
  "wf_item 0 it \<Longrightarrow> plain_item it \<Longrightarrow> de (enc_item it) = Inr v \<Longrightarrow> texts_valid it \<and> v = value_of it"
  by (cases "texts_valid it") (auto simp: de_item dest: de_bad_text)

lemma ser_canonical:
  "wf_item 0 it \<Longrightarrow> plain_item it \<Longrightarrow> texts_valid it \<Longrightarrow> length (enc_item it) < 2 ^ 64 \<Longrightarrow>
     validate_canonical (ser (value_of it)) = Inr ()"
  by (simp add: ser_item validate_canonical_enc)

end

section \<open>A codec that satisfies the interface\<close>

fun item_of :: "cval \<Rightarrow> item" where
  "item_of (Integer i) = (if 0 \<le> i then UInt (word_of_int i) else NInt (word_of_int (- 1 - i)))"
| "item_of (Bytes bs) = ByteStr bs"
| "item_of (Text bs) = TextStr bs"
| "item_of (Bool b) = Simple (if b then STrue else SFalse)"
| "item_of Null = Simple SNull"
| "item_of (Array xs) = Arr (map item_of xs)"
| "item_of (Map kvs) =
     Dict (map (\<lambda>(k, v). (case k of Integer i \<Rightarrow> word_of_int i | _ \<Rightarrow> 0, item_of v)) kvs)"
| "item_of (Float _) = Simple SUndefined"
| "item_of (Tag _ _) = Simple SUndefined"

lemma item_of_value_of: "plain_item it \<Longrightarrow> item_of (value_of it) = it"
proof (induction it)
  case (NInt v)
  have "\<not> 0 \<le> - 1 - uint v" using unsigned_greater_eq [where 'a = int, of v] by linarith
  then show ?case by (simp only: value_of.simps item_of.simps if_False) simp
next
  case (Arr xs)
  then show ?case by (auto intro: map_idI)
next
  case (Dict kvs)
  then have "item_of (value_of v) = v" if "(k, v) \<in> set kvs" for k v
    using that by (fastforce simp: Basic_BNFs.snds.simps)
  then show ?case by (auto intro!: map_idI)
next
  case (Simple s)
  then show ?case by (cases s) auto
qed auto

definition rfc_ser :: "cval \<Rightarrow> bytes" where
  "rfc_ser v = enc_item (item_of v)"

definition rfc_de :: "bytes \<Rightarrow> string + cval" where
  "rfc_de bs = (case dec_item (Suc MAX_NESTING_DEPTH) bs of
       None \<Rightarrow> Inl ''syntax''
     | Some (it, _) \<Rightarrow> if texts_valid it then Inr (value_of it) else Inl ''utf-8'')"

interpretation rfc: cbor_codec rfc_ser rfc_de
proof unfold_locales
  fix it assume "wf_item 0 it"
  then have "dec_item (Suc MAX_NESTING_DEPTH) (enc_item it) = Some (it, [])"
    using dec_enc_item [of it "[]"] by simp
  then show "texts_valid it \<Longrightarrow> rfc_de (enc_item it) = Inr (value_of it)"
    and "\<not> texts_valid it \<Longrightarrow> \<exists>e. rfc_de (enc_item it) = Inl e"
    by (simp_all add: rfc_de_def)
qed (simp add: rfc_ser_def item_of_value_of)

lemma uint_u8_bound: "uint (b :: u8) < 256"
  using unsigned_less [where 'a = int, of b] by simp

lemma uint_u64_bound: "uint (v :: u64) < 18446744073709551616"
  using unsigned_less [where 'a = int, of v] by simp

lemma u64_try_from_uint [simp]: "u64_try_from (uint v) = Some v"
  using uint_u64_bound [of v] by (simp add: u64_try_from_def)

lemma u64_try_from_neg [simp]: "i < 0 \<Longrightarrow> u64_try_from i = None"
  by (simp add: u64_try_from_def)

lemma u64_try_from_iff: "u64_try_from i = Some v \<longleftrightarrow> i = uint v"
  using uint_u64_bound [of v] by (auto simp: u64_try_from_def uint_word_of_int_eq take_bit_int_eq_self)

lemma u8_try_from_iff: "u8_try_from i = Some b \<longleftrightarrow> i = uint b"
  using uint_u8_bound [of b] by (auto simp: u8_try_from_def uint_word_of_int_eq take_bit_int_eq_self)

lemma u8_try_from_uint [simp]: "u8_try_from (uint b) = Some (b :: u8)"
  by (simp add: u8_try_from_iff)

section \<open>Profile values\<close>

text \<open>\<open>prof d v\<close>: the value is one of the profile at depth \<open>d\<close> (no float, tag, \<open>undefined\<close>, bad
  UTF-8 or unordered map inside). The interface in terms of values.\<close>

definition prof :: "nat \<Rightarrow> cval \<Rightarrow> bool" where
  "prof d v \<longleftrightarrow> (let it = item_of v in
     wf_item d it \<and> plain_item it \<and> texts_valid it \<and> value_of it = v)"

lemma profI: "wf_item d it \<Longrightarrow> plain_item it \<Longrightarrow> texts_valid it \<Longrightarrow> prof d (value_of it)"
  by (simp add: prof_def item_of_value_of)

lemma profE:
  assumes "prof d v"
  obtains it where "wf_item d it" "plain_item it" "texts_valid it" "value_of it = v" "item_of v = it"
  using assms by (auto simp: prof_def Let_def)

lemma prof_uint: "d \<le> MAX_NESTING_DEPTH \<Longrightarrow> prof d (Integer (uint (u :: u64)))"
  using profI [of d "UInt u"] by simp

lemma prof_Bytes: "d \<le> MAX_NESTING_DEPTH \<Longrightarrow> length b < 2 ^ 64 \<Longrightarrow> prof d (Bytes b)"
  using profI [of d "ByteStr b"] by simp

lemma prof_Text: "d \<le> MAX_NESTING_DEPTH \<Longrightarrow> length b < 2 ^ 64 \<Longrightarrow> utf8_valid b \<Longrightarrow> prof d (Text b)"
  using profI [of d "TextStr b"] by simp

lemma prof_Bool: "d \<le> MAX_NESTING_DEPTH \<Longrightarrow> prof d (Bool b)"
  using profI [of d "Simple (if b then STrue else SFalse)"] by (cases b) simp_all

lemma ucast_less: "a < b \<Longrightarrow> (ucast (a :: u8) :: u64) < ucast b"
  by (simp add: word_less_nat_alt)

lemma distinct_u8_length: "distinct (ks :: u8 list) \<Longrightarrow> length ks \<le> 256"
  using card_mono [of UNIV "set ks"] by (simp add: distinct_card card_word)

lemma prof_Map:
  assumes d: "d < MAX_NESTING_DEPTH" and s: "sorted_wrt (<) (map fst kvs)"
    and p: "\<And>k v. (k, v) \<in> set kvs \<Longrightarrow> prof (d + 1) v"
  shows "prof d (Map (map (\<lambda>(k :: u8, v). (Integer (uint (ucast k :: u64)), v)) kvs))"
proof -
  let ?it = "Dict (map (\<lambda>(k, v). (ucast k, item_of v)) kvs)"
  have i: "wf_item (d + 1) (item_of v)" "plain_item (item_of v)" "texts_valid (item_of v)"
    "value_of (item_of v) = v" if "(k, v) \<in> set kvs" for k v
    using p [OF that] by (auto simp: prof_def Let_def)
  have "distinct (map fst kvs)" using s by (simp add: strict_sorted_iff)
  from distinct_u8_length [OF this] have "length kvs < 2 ^ 64" by simp
  moreover have "sorted_wrt (<) (map (\<lambda>kv. ucast (fst kv) :: u64) kvs)"
    using s by (induction kvs) (auto simp: ucast_less)
  ultimately have "wf_item d ?it"
    using d i(1) by (auto simp: comp_def case_prod_beta)
  moreover have "plain_item ?it" "texts_valid ?it" using i(2,3) by auto
  moreover have "value_of ?it = Map (map (\<lambda>(k, v). (Integer (uint (ucast k :: u64)), v)) kvs)"
    using i(4) by auto
  ultimately show ?thesis using profI by metis
qed

context cbor_codec
begin

lemma de_ser_prof: "prof 0 v \<Longrightarrow> de (ser v) = Inr v"
  by (erule profE) (auto simp: de_ser)

lemma ser_prof: "prof 0 v \<Longrightarrow> ser v = enc_item (item_of v)"
  by (erule profE) (auto simp: ser_item)

lemma ser_prof_canonical:
  "prof 0 v \<Longrightarrow> length (ser v) < 2 ^ 64 \<Longrightarrow> validate_canonical (ser v) = Inr ()"
  by (erule profE) (auto simp: ser_item validate_canonical_enc)

lemma ser_inject: "prof 0 v \<Longrightarrow> prof 0 w \<Longrightarrow> ser v = ser w \<Longrightarrow> v = w"
  by (metis de_ser_prof sum.inject(2))

end

end
