(* ===== verification/Event_Record.thy ===== *)
theory Event_Record
  imports Event_Type Ordered_Map Cbor_Value
begin

text \<open>
  \<open>ParsedKommsEvent\<close> and the error types of \<open>protocol/src/lib.rs\<close>. Every field of the struct is
  a field of the record, prefixed \<open>ev_\<close>. Fixed-size arrays are byte lists whose lengths are the
  invariant \<open>wf_event\<close>; \<open>String\<close> is its UTF-8 bytes; \<open>extension_fields\<close> is a \<open>btree_map\<close>.
\<close>

definition KOMMS_PAYLOAD_PREFIX :: bytes where
  "KOMMS_PAYLOAD_PREFIX = [0x4B, 0x4F, 0x4D, 0x4D]"

definition MAX_KNOWN_VERSION :: u64 where
  "MAX_KNOWN_VERSION = 1"

definition EXTENSION_KEY_MIN :: u8 where
  "EXTENSION_KEY_MIN = 33"

definition V1_1_TAG_LEN :: nat where
  "V1_1_TAG_LEN = 16"

definition ROLE_MAX :: u8 where
  "ROLE_MAX = 4"

record ParsedKommsEvent =
  ev_v :: u64
  ev_t :: EventType
  ev_sid :: "bytes option"
  ev_cid :: "bytes option"
  ev_did :: "bytes option"
  ev_pid :: "bytes option"
  ev_mid :: "bytes option"
  ev_ref_bytes :: "bytes option"
  ev_enc :: bool
  ev_ts :: "u64 option"
  ev_n :: "u64 option"
  ev_sig :: "bytes option"
  ev_parent_mid :: "bytes option"
  ev_enc_scheme :: "u64 option"
  ev_kind :: "u64 option"
  ev_mime :: "bytes option"
  ev_ref_type :: "u64 option"
  ev_device_pk :: "bytes option"
  ev_sig_scheme :: "u64 option"
  ev_reaction_key :: "bytes option"
  ev_payment_hint :: "bytes option"
  ev_member_tag :: "bytes option"
  ev_member_sealed :: "bytes option"
  ev_enc_sid :: "bytes option"
  ev_enc_cid :: "bytes option"
  ev_enc_body_ref :: "bytes option"
  ev_enc_parent_mid :: "bytes option"
  ev_match_tag :: "bytes option"
  ev_enc_t :: "bytes option"
  ev_key_epoch :: "u64 option"
  ev_sealed_signer :: "bytes option"
  ev_role :: "u8 option"
  ev_target :: "bytes option"
  ev_extension_fields :: "(u8, cval) btree_map"

definition default_event :: ParsedKommsEvent where
  "default_event = \<lparr> ev_v = 0, ev_t = default_EventType, ev_sid = None, ev_cid = None,
     ev_did = None, ev_pid = None, ev_mid = None, ev_ref_bytes = None, ev_enc = False,
     ev_ts = None, ev_n = None, ev_sig = None, ev_parent_mid = None, ev_enc_scheme = None,
     ev_kind = None, ev_mime = None, ev_ref_type = None, ev_device_pk = None,
     ev_sig_scheme = None, ev_reaction_key = None, ev_payment_hint = None, ev_member_tag = None,
     ev_member_sealed = None, ev_enc_sid = None, ev_enc_cid = None, ev_enc_body_ref = None,
     ev_enc_parent_mid = None, ev_match_tag = None, ev_enc_t = None, ev_key_epoch = None,
     ev_sealed_signer = None, ev_role = None, ev_target = None, ev_extension_fields = om_empty \<rparr>"

datatype ParseError =
    Cbor string
  | NotAMap
  | InvalidKey
  | DuplicateMapKey u8
  | ExpectedUint string
  | EventTypeOverflow u64
  | ExpectedBool string
  | ExpectedBytes32 string
  | ExpectedBytes16 string
  | ExpectedBytes string
  | ExpectedText string
  | InvalidSigLength
  | MissingField string
  | ReservedCoreKey u8

datatype ValidationError =
    BadVersion u64
  | InvalidRef
  | ForbiddenField EventType string
  | MissingForType EventType string
  | InvalidEnc
  | EncSchemeMismatch u64 bool
  | V1MissingField string
  | InvalidReactionKey
  | InvalidMime
  | EphemeralOnChain EventType
  | OpaqueEventType EventType
  | DeprecatedEncSchemeMls
  | V1_1MissingField string
  | SealedSenderNotImplemented
  | InvalidTagLength string
  | UnknownEncScheme u64
  | UnknownRole u8
  | InvalidTargetLength nat

datatype KommsPayloadError =
    MissingPrefix
  | NonCanonical CanonicalError
  | ParseErr ParseError
  | ValidationErr ValidationError
  | UnsupportedVersion u64

datatype ParsedPayload =
    Known ParsedKommsEvent
  | Opaque ParsedKommsEvent bytes
  | Future u64 bytes

text \<open>The lengths the array types of the struct fix, and the laws of \<open>String\<close> and \<open>BTreeMap\<close>.\<close>

definition len_ok :: "nat \<Rightarrow> bytes option \<Rightarrow> bool" where
  "len_ok n x \<longleftrightarrow> (\<forall>b. x = Some b \<longrightarrow> length b = n)"

lemma len_ok_simps [simp]: "len_ok n None" "len_ok n (Some b) \<longleftrightarrow> length b = n"
  by (simp_all add: len_ok_def)

definition wf_event :: "ParsedKommsEvent \<Rightarrow> bool" where
  "wf_event ev \<longleftrightarrow>
     len_ok 32 (ev_sid ev) \<and> len_ok 32 (ev_cid ev) \<and> len_ok 32 (ev_did ev) \<and>
     len_ok 32 (ev_pid ev) \<and> len_ok 32 (ev_mid ev) \<and> len_ok 64 (ev_sig ev) \<and>
     len_ok 32 (ev_parent_mid ev) \<and> len_ok 32 (ev_device_pk ev) \<and>
     len_ok 16 (ev_member_tag ev) \<and> len_ok 16 (ev_match_tag ev) \<and>
     om_ok (ev_extension_fields ev)"

lemma wf_default_event: "wf_event default_event"
  by (simp add: wf_event_def default_event_def btree.ok_empty)

end
