(* ===== verification/Validate.thy ===== *)
theory Validate
  imports Event_Record
begin

text \<open>
  \<open>validate_event\<close> and its helpers of \<open>protocol/src/lib.rs\<close>. A statement of the source that may
  return early (a \<open>?\<close> or an \<open>if .. return Err\<close>) is one check of a list, and \<open>run_checks\<close> runs
  the list in order and stops at the first error. The function is split where its comments split
  it: the envelope, the \<open>enc_scheme\<close> rules of v1, the sealed-sender gate, the group-encryption
  rules, and the per-type arms (v0 types, then v1.0 and v1.1 types).

  The specification is a table: for every known event type the fields it requires and the
  fields it forbids. \<open>validate_event\<close> accepts exactly the events that satisfy the envelope
  rules and their row of the table.
\<close>

fun run_checks :: "(ValidationError + unit) list \<Rightarrow> ValidationError + unit" where
  "run_checks [] = Inr ()"
| "run_checks (c # cs) = bindE c (\<lambda>_. run_checks cs)"

definition check_not :: "bool \<Rightarrow> ValidationError \<Rightarrow> ValidationError + unit" where
  "check_not bad e = (if bad then Inl e else Inr ())"

definition validate_ref :: "bytes \<Rightarrow> ValidationError + unit" where
  "validate_ref ref_bytes =
     (if ref_bytes = [] then Inl InvalidRef
      else if hd ref_bytes = 0x01 then
        (if tl ref_bytes = [] \<or> \<not> utf8_valid (tl ref_bytes) then Inl InvalidRef else Inr ())
      else if hd ref_bytes = 0x02 then
        (if length ref_bytes \<noteq> 1 + 32 then Inl InvalidRef else Inr ())
      else Inl InvalidRef)"

definition validate_role_byte :: "u8 option \<Rightarrow> ValidationError + unit" where
  "validate_role_byte role =
     (case role of None \<Rightarrow> Inr ()
      | Some r \<Rightarrow> if r > ROLE_MAX then Inl (UnknownRole r) else Inr ())"

definition validate_target_bytes :: "bytes option \<Rightarrow> ValidationError + unit" where
  "validate_target_bytes target =
     (case target of None \<Rightarrow> Inr ()
      | Some bytes \<Rightarrow>
          if length bytes < 2 then Inl (InvalidTargetLength (length bytes)) else Inr ())"

section \<open>The checks before the per-type rules\<close>

definition validate_envelope :: "ParsedKommsEvent \<Rightarrow> ValidationError + unit" where
  "validate_envelope ev = run_checks
     [check_not (ev_v ev > MAX_KNOWN_VERSION) (BadVersion (ev_v ev)),
      check_not (as_u8 (ev_t ev) = 21 \<or> as_u8 (ev_t ev) = 22) (EphemeralOnChain (ev_t ev)),
      (case ev_ref_bytes ev of
         None \<Rightarrow> Inr ()
       | Some r \<Rightarrow> bindE (validate_ref r) (\<lambda>_.
           case ev_ref_type ev of
             None \<Rightarrow> Inr ()
           | Some rt \<Rightarrow> check_not (rt > 0xFF \<or> ucast rt \<noteq> hd r) InvalidRef)),
      (case ev_mime ev of
         None \<Rightarrow> Inr ()
       | Some m \<Rightarrow> check_not (m = [] \<or> length m > 64 \<or> \<not> is_ascii m) InvalidMime),
      (case ev_reaction_key ev of
         None \<Rightarrow> Inr ()
       | Some rk \<Rightarrow> check_not (rk = [] \<or> length rk > 32) InvalidReactionKey)]"

definition validate_enc_scheme :: "ParsedKommsEvent \<Rightarrow> ValidationError + unit" where
  "validate_enc_scheme ev =
     (if ev_v ev \<ge> 1 then
        bindE (ok_or (ev_enc_scheme ev) (V1MissingField ''enc_scheme'')) (\<lambda>scheme.
          run_checks
            [check_not ((scheme \<noteq> 0) \<noteq> ev_enc ev) (EncSchemeMismatch scheme (ev_enc ev)),
             (if scheme = 0 \<or> scheme = 1 \<or> scheme = 3 \<or> scheme = 4 then Inr ()
              else if scheme = 2 then Inl DeprecatedEncSchemeMls
              else Inl (UnknownEncScheme scheme)),
             check_not (ev_ts ev = None) (V1MissingField ''ts''),
             check_not (ev_n ev = None) (V1MissingField ''n'')])
      else Inr ())"

definition validate_sealed_sender :: "ParsedKommsEvent \<Rightarrow> ValidationError + unit" where
  "validate_sealed_sender ev =
     check_not (ev_sig_scheme ev = Some 1 \<or> ev_sealed_signer ev \<noteq> None) SealedSenderNotImplemented"

definition group_encrypted :: "ParsedKommsEvent \<Rightarrow> bool" where
  "group_encrypted ev \<longleftrightarrow> ev_enc_scheme ev = Some 4"

definition has_enc_counterpart :: "ParsedKommsEvent \<Rightarrow> bool" where
  "has_enc_counterpart ev \<longleftrightarrow>
     ev_enc_sid ev \<noteq> None \<or> ev_enc_cid ev \<noteq> None \<or> ev_enc_body_ref ev \<noteq> None \<or>
     ev_enc_parent_mid ev \<noteq> None \<or> ev_enc_t ev \<noteq> None"

definition validate_group_encrypted :: "ParsedKommsEvent \<Rightarrow> ValidationError + unit" where
  "validate_group_encrypted ev =
     (if group_encrypted ev then
        run_checks
          [check_not (ev_match_tag ev = None) (V1_1MissingField ''match_tag''),
           check_not (ev_key_epoch ev = None) (V1_1MissingField ''key_epoch''),
           check_not (\<not> has_enc_counterpart ev \<and>
               ev_t ev \<notin> {SealedMemberJoin, SealedMemberLeave, KeyRotate})
             (V1_1MissingField ''enc_* counterpart'')]
      else Inr ())"

section \<open>The per-type rules\<close>

definition has_sid :: "ParsedKommsEvent \<Rightarrow> bool" where
  "has_sid ev \<longleftrightarrow> ev_sid ev \<noteq> None \<or> (group_encrypted ev \<and> ev_enc_sid ev \<noteq> None)"

definition has_cid :: "ParsedKommsEvent \<Rightarrow> bool" where
  "has_cid ev \<longleftrightarrow> ev_cid ev \<noteq> None \<or> (group_encrypted ev \<and> ev_enc_cid ev \<noteq> None)"

definition has_ref :: "ParsedKommsEvent \<Rightarrow> bool" where
  "has_ref ev \<longleftrightarrow> ev_ref_bytes ev \<noteq> None \<or> (group_encrypted ev \<and> ev_enc_body_ref ev \<noteq> None)"

definition plaintext_enc_misuse :: "ParsedKommsEvent \<Rightarrow> bool" where
  "plaintext_enc_misuse ev \<longleftrightarrow> ev_enc ev \<and> \<not> group_encrypted ev"

definition require :: "ParsedKommsEvent \<Rightarrow> bool \<Rightarrow> string \<Rightarrow> ValidationError + unit" where
  "require ev cond field = (if cond then Inr () else Inl (MissingForType (ev_t ev) field))"

definition forbid :: "ParsedKommsEvent \<Rightarrow> bool \<Rightarrow> string \<Rightarrow> ValidationError + unit" where
  "forbid ev present field = (if present then Inl (ForbiddenField (ev_t ev) field) else Inr ())"

text \<open>The arms of the v1.0 and v1.1 types, and of \<open>Reserved\<close>.\<close>

definition v1_type_checks :: "ParsedKommsEvent \<Rightarrow> (ValidationError + unit) list" where
  "v1_type_checks ev =
     (case ev_t ev of
        DeviceRegister \<Rightarrow>
          [require ev (ev_device_pk ev \<noteq> None) ''device_pk'',
           require ev (ev_sig ev \<noteq> None) ''sig'',
           require ev (ev_sig_scheme ev \<noteq> None) ''sig_scheme'',
           forbid ev (plaintext_enc_misuse ev) ''enc'']
      | DeviceRevoke \<Rightarrow>
          [require ev (ev_device_pk ev \<noteq> None) ''device_pk'',
           require ev (ev_sig ev \<noteq> None) ''sig'',
           forbid ev (plaintext_enc_misuse ev) ''enc'']
      | SealedMemberJoin \<Rightarrow>
          [require ev (group_encrypted ev) ''enc_scheme=4'',
           require ev (ev_member_tag ev \<noteq> None) ''member_tag'',
           require ev (ev_member_sealed ev \<noteq> None) ''member_sealed'',
           require ev (ev_match_tag ev \<noteq> None) ''match_tag'',
           require ev (ev_key_epoch ev \<noteq> None) ''key_epoch'',
           forbid ev (ev_sid ev \<noteq> None) ''sid'',
           forbid ev (ev_cid ev \<noteq> None) ''cid'',
           forbid ev (ev_did ev \<noteq> None) ''did'',
           forbid ev (ev_pid ev \<noteq> None) ''pid'']
      | SealedMemberLeave \<Rightarrow>
          [require ev (ev_member_tag ev \<noteq> None) ''member_tag'',
           require ev (ev_sig ev \<noteq> None) ''sig'',
           forbid ev (ev_sid ev \<noteq> None) ''sid'',
           forbid ev (ev_cid ev \<noteq> None) ''cid'',
           forbid ev (ev_did ev \<noteq> None) ''did'',
           forbid ev (ev_pid ev \<noteq> None) ''pid'']
      | KeyRotate \<Rightarrow>
          [require ev (group_encrypted ev) ''enc_scheme=4'',
           require ev (ev_member_sealed ev \<noteq> None) ''member_sealed'',
           require ev (ev_match_tag ev \<noteq> None) ''match_tag'',
           require ev (ev_key_epoch ev \<noteq> None) ''key_epoch'',
           forbid ev (ev_sid ev \<noteq> None) ''sid'',
           forbid ev (ev_cid ev \<noteq> None) ''cid'']
      | SealedEvent \<Rightarrow>
          [require ev (group_encrypted ev) ''enc_scheme=4'',
           require ev (ev_enc_t ev \<noteq> None) ''enc_t'',
           forbid ev (ev_sid ev \<noteq> None) ''sid'',
           forbid ev (ev_cid ev \<noteq> None) ''cid'',
           forbid ev (ev_did ev \<noteq> None) ''did'',
           forbid ev (ev_pid ev \<noteq> None) ''pid'']
      | Reserved _ \<Rightarrow> [Inl (OpaqueEventType (ev_t ev))]
      | _ \<Rightarrow> [])"

text \<open>The remaining v1.0 arms share two bodies: pins and bookmarks.\<close>

definition pin_bookmark_checks :: "ParsedKommsEvent \<Rightarrow> (ValidationError + unit) list" where
  "pin_bookmark_checks ev =
     (if ev_t ev \<in> {PinMessage, UnpinMessage} then
        [require ev (has_sid ev) ''sid|enc_sid'',
         require ev (has_cid ev) ''cid|enc_cid'',
         require ev (ev_mid ev \<noteq> None) ''mid'',
         forbid ev (plaintext_enc_misuse ev) ''enc'']
      else
        [require ev (ev_mid ev \<noteq> None) ''mid'',
         forbid ev (plaintext_enc_misuse ev) ''enc''])"

text \<open>The arms of the v0 types.\<close>

definition server_checks :: "ParsedKommsEvent \<Rightarrow> (ValidationError + unit) list" where
  "server_checks ev =
    [require ev (has_sid ev) ''sid|enc_sid'',
     forbid ev (ev_cid ev \<noteq> None \<or> ev_enc_cid ev \<noteq> None) ''cid'',
     forbid ev (ev_did ev \<noteq> None) ''did'',
     check_not (plaintext_enc_misuse ev) InvalidEnc]"

definition channel_checks :: "ParsedKommsEvent \<Rightarrow> (ValidationError + unit) list" where
  "channel_checks ev =
    [require ev (has_sid ev) ''sid|enc_sid'',
     require ev (has_cid ev) ''cid|enc_cid'',
     forbid ev (ev_did ev \<noteq> None) ''did'',
     check_not (plaintext_enc_misuse ev) InvalidEnc]"

definition message_post_checks :: "ParsedKommsEvent \<Rightarrow> (ValidationError + unit) list" where
  "message_post_checks ev =
    [require ev (has_sid ev) ''sid|enc_sid'',
     require ev (has_cid ev) ''cid|enc_cid'',
     require ev (has_ref ev) ''ref|enc_body_ref'',
     forbid ev (plaintext_enc_misuse ev) ''enc'']"

definition message_edit_checks :: "ParsedKommsEvent \<Rightarrow> (ValidationError + unit) list" where
  "message_edit_checks ev =
    [require ev (has_sid ev) ''sid|enc_sid'',
     require ev (has_cid ev) ''cid|enc_cid'',
     require ev (ev_mid ev \<noteq> None) ''mid'',
     require ev (has_ref ev) ''ref|enc_body_ref'',
     forbid ev (plaintext_enc_misuse ev) ''enc'']"

definition message_delete_checks :: "ParsedKommsEvent \<Rightarrow> (ValidationError + unit) list" where
  "message_delete_checks ev =
    [require ev (has_sid ev) ''sid|enc_sid'',
     require ev (has_cid ev) ''cid|enc_cid'',
     require ev (ev_mid ev \<noteq> None) ''mid'',
     forbid ev (plaintext_enc_misuse ev) ''enc'']"

definition dm_checks :: "ParsedKommsEvent \<Rightarrow> (ValidationError + unit) list" where
  "dm_checks ev =
    [require ev (ev_did ev \<noteq> None) ''did'',
     require ev (ev_ref_bytes ev \<noteq> None) ''ref'',
     require ev (ev_enc ev) ''enc'',
     forbid ev (ev_sid ev \<noteq> None \<or> ev_enc_sid ev \<noteq> None) ''sid'',
     forbid ev (ev_cid ev \<noteq> None \<or> ev_enc_cid ev \<noteq> None) ''cid'']"

definition reaction_checks :: "ParsedKommsEvent \<Rightarrow> (ValidationError + unit) list" where
  "reaction_checks ev =
    [require ev (has_sid ev) ''sid|enc_sid'',
     require ev (has_cid ev) ''cid|enc_cid'',
     require ev (ev_mid ev \<noteq> None) ''mid'',
     check_not (ev_reaction_key ev = None \<and> ev_ref_bytes ev = None)
       (MissingForType (ev_t ev) ''reaction_key|ref''),
     forbid ev (plaintext_enc_misuse ev) ''enc'']"

definition member_checks :: "ParsedKommsEvent \<Rightarrow> (ValidationError + unit) list" where
  "member_checks ev =
    [require ev (ev_sid ev \<noteq> None) ''sid'',
     require ev (ev_pid ev \<noteq> None) ''pid'',
     forbid ev (ev_cid ev \<noteq> None) ''cid'',
     forbid ev (ev_did ev \<noteq> None) ''did'',
     check_not (plaintext_enc_misuse ev) InvalidEnc]"

definition role_assign_checks :: "ParsedKommsEvent \<Rightarrow> (ValidationError + unit) list" where
  "role_assign_checks ev =
    [require ev (has_sid ev) ''sid|enc_sid'',
     require ev (ev_target ev \<noteq> None) ''target'',
     require ev (ev_role ev \<noteq> None) ''role'',
     validate_role_byte (ev_role ev),
     validate_target_bytes (ev_target ev),
     check_not (plaintext_enc_misuse ev) InvalidEnc]"

definition role_revoke_checks :: "ParsedKommsEvent \<Rightarrow> (ValidationError + unit) list" where
  "role_revoke_checks ev =
    [require ev (has_sid ev) ''sid|enc_sid'',
     require ev (ev_target ev \<noteq> None) ''target'',
     (if ev_role ev \<noteq> None then validate_role_byte (ev_role ev) else Inr ()),
     validate_target_bytes (ev_target ev),
     check_not (plaintext_enc_misuse ev) InvalidEnc]"

definition moderation_checks :: "ParsedKommsEvent \<Rightarrow> (ValidationError + unit) list" where
  "moderation_checks ev =
    [require ev (has_sid ev) ''sid|enc_sid'',
     forbid ev (plaintext_enc_misuse ev) ''enc'']"

definition type_checks :: "ParsedKommsEvent \<Rightarrow> (ValidationError + unit) list" where
  "type_checks ev =
     (case ev_t ev of
        ServerCreate \<Rightarrow> server_checks ev
      | ServerUpdate \<Rightarrow> server_checks ev
      | ChannelCreate \<Rightarrow> channel_checks ev
      | ChannelUpdate \<Rightarrow> channel_checks ev
      | MessagePost \<Rightarrow> message_post_checks ev
      | MessageEdit \<Rightarrow> message_edit_checks ev
      | MessageDelete \<Rightarrow> message_delete_checks ev
      | DmMessagePost \<Rightarrow> dm_checks ev
      | ReactionAdd \<Rightarrow> reaction_checks ev
      | ReactionRemove \<Rightarrow> reaction_checks ev
      | MemberJoin \<Rightarrow> member_checks ev
      | MemberLeave \<Rightarrow> member_checks ev
      | RoleAssign \<Rightarrow> role_assign_checks ev
      | RoleRevoke \<Rightarrow> role_revoke_checks ev
      | ModerationAction \<Rightarrow> moderation_checks ev
      | PinMessage \<Rightarrow> pin_bookmark_checks ev
      | UnpinMessage \<Rightarrow> pin_bookmark_checks ev
      | BookmarkAdd \<Rightarrow> pin_bookmark_checks ev
      | BookmarkRemove \<Rightarrow> pin_bookmark_checks ev
      | _ \<Rightarrow> v1_type_checks ev)"

definition validate_event :: "ParsedKommsEvent \<Rightarrow> ValidationError + unit" where
  "validate_event ev = run_checks
     ([validate_envelope ev, validate_enc_scheme ev, validate_sealed_sender ev,
       validate_group_encrypted ev] @ type_checks ev)"

section \<open>When a check passes\<close>

named_theorems check_simps "when a check passes"

lemma run_checks_ok [check_simps]: "run_checks cs = Inr u \<longleftrightarrow> (\<forall>c\<in>set cs. c = Inr ())"
  by (induction cs) (auto simp: bindE_Inr_iff)

lemma run_checks_append: "run_checks (cs @ ds) = bindE (run_checks cs) (\<lambda>_. run_checks ds)"
  by (induction cs) (auto simp: bindE_assoc)

lemma check_not_ok [check_simps]: "check_not bad e = Inr u \<longleftrightarrow> \<not> bad"
  by (simp add: check_not_def)

lemma require_ok [check_simps]: "require ev cond f = Inr u \<longleftrightarrow> cond"
  by (simp add: require_def)

lemma forbid_ok [check_simps]: "forbid ev present f = Inr u \<longleftrightarrow> \<not> present"
  by (simp add: forbid_def)

lemma validate_role_byte_ok [check_simps]:
  "validate_role_byte role = Inr u \<longleftrightarrow> (\<forall>r. role = Some r \<longrightarrow> r \<le> ROLE_MAX)"
  by (auto simp: validate_role_byte_def not_less split: option.split)

lemma validate_target_bytes_ok [check_simps]:
  "validate_target_bytes target = Inr u \<longleftrightarrow> (\<forall>b. target = Some b \<longrightarrow> 2 \<le> length b)"
  by (auto simp: validate_target_bytes_def split: option.split)

lemma validate_ref_ok [check_simps]:
  "validate_ref r = Inr u \<longleftrightarrow>
     (\<exists>body. (r = 0x01 # body \<and> body \<noteq> [] \<and> utf8_valid body) \<or> (r = 0x02 # body \<and> length body = 32))"
  by (cases r) (auto simp: validate_ref_def)

section \<open>The table of the event types\<close>

text \<open>The things a row of the table speaks of; \<open>SidOrEnc\<close> is \<open>sid\<close> or, under
  \<open>enc_scheme = 4\<close>, its encrypted counterpart.\<close>

datatype slot = SidOrEnc | CidOrEnc | RefOrEnc | Sid | Cid | Did | Pid | Mid | Ref | ReactionOrRef
  | DevicePk | Sig | SigScheme | Target | Role | MemberTag | MemberSealed | MatchTag | KeyEpoch
  | EncT | EncSid | EncCid | EncFlag | GroupScheme | PlainEnc

fun present :: "slot \<Rightarrow> ParsedKommsEvent \<Rightarrow> bool" where
  "present SidOrEnc ev = (ev_sid ev \<noteq> None \<or> (ev_enc_scheme ev = Some 4 \<and> ev_enc_sid ev \<noteq> None))"
| "present CidOrEnc ev = (ev_cid ev \<noteq> None \<or> (ev_enc_scheme ev = Some 4 \<and> ev_enc_cid ev \<noteq> None))"
| "present RefOrEnc ev =
     (ev_ref_bytes ev \<noteq> None \<or> (ev_enc_scheme ev = Some 4 \<and> ev_enc_body_ref ev \<noteq> None))"
| "present ReactionOrRef ev = (ev_reaction_key ev \<noteq> None \<or> ev_ref_bytes ev \<noteq> None)"
| "present PlainEnc ev = (ev_enc ev \<and> ev_enc_scheme ev \<noteq> Some 4)"
| "present GroupScheme ev = (ev_enc_scheme ev = Some 4)"
| "present EncFlag ev = ev_enc ev"
| "present Sid ev = (ev_sid ev \<noteq> None)"
| "present Cid ev = (ev_cid ev \<noteq> None)"
| "present Did ev = (ev_did ev \<noteq> None)"
| "present Pid ev = (ev_pid ev \<noteq> None)"
| "present Mid ev = (ev_mid ev \<noteq> None)"
| "present Ref ev = (ev_ref_bytes ev \<noteq> None)"
| "present DevicePk ev = (ev_device_pk ev \<noteq> None)"
| "present Sig ev = (ev_sig ev \<noteq> None)"
| "present SigScheme ev = (ev_sig_scheme ev \<noteq> None)"
| "present Target ev = (ev_target ev \<noteq> None)"
| "present Role ev = (ev_role ev \<noteq> None)"
| "present MemberTag ev = (ev_member_tag ev \<noteq> None)"
| "present MemberSealed ev = (ev_member_sealed ev \<noteq> None)"
| "present MatchTag ev = (ev_match_tag ev \<noteq> None)"
| "present KeyEpoch ev = (ev_key_epoch ev \<noteq> None)"
| "present EncT ev = (ev_enc_t ev \<noteq> None)"
| "present EncSid ev = (ev_enc_sid ev \<noteq> None)"
| "present EncCid ev = (ev_enc_cid ev \<noteq> None)"

fun required :: "EventType \<Rightarrow> slot list" where
  "required ServerCreate = [SidOrEnc]"
| "required ServerUpdate = [SidOrEnc]"
| "required ChannelCreate = [SidOrEnc, CidOrEnc]"
| "required ChannelUpdate = [SidOrEnc, CidOrEnc]"
| "required MessagePost = [SidOrEnc, CidOrEnc, RefOrEnc]"
| "required MessageEdit = [SidOrEnc, CidOrEnc, Mid, RefOrEnc]"
| "required MessageDelete = [SidOrEnc, CidOrEnc, Mid]"
| "required DmMessagePost = [Did, Ref, EncFlag]"
| "required ReactionAdd = [SidOrEnc, CidOrEnc, Mid, ReactionOrRef]"
| "required ReactionRemove = [SidOrEnc, CidOrEnc, Mid, ReactionOrRef]"
| "required MemberJoin = [Sid, Pid]"
| "required MemberLeave = [Sid, Pid]"
| "required RoleAssign = [SidOrEnc, Target, Role]"
| "required RoleRevoke = [SidOrEnc, Target]"
| "required ModerationAction = [SidOrEnc]"
| "required DeviceRegister = [DevicePk, Sig, SigScheme]"
| "required DeviceRevoke = [DevicePk, Sig]"
| "required PinMessage = [SidOrEnc, CidOrEnc, Mid]"
| "required UnpinMessage = [SidOrEnc, CidOrEnc, Mid]"
| "required BookmarkAdd = [Mid]"
| "required BookmarkRemove = [Mid]"
| "required SealedMemberJoin = [GroupScheme, MemberTag, MemberSealed, MatchTag, KeyEpoch]"
| "required SealedMemberLeave = [MemberTag, Sig]"
| "required KeyRotate = [GroupScheme, MemberSealed, MatchTag, KeyEpoch]"
| "required SealedEvent = [GroupScheme, EncT]"
| "required (Reserved _) = []"

fun forbidden :: "EventType \<Rightarrow> slot list" where
  "forbidden ServerCreate = [Cid, EncCid, Did, PlainEnc]"
| "forbidden ServerUpdate = [Cid, EncCid, Did, PlainEnc]"
| "forbidden ChannelCreate = [Did, PlainEnc]"
| "forbidden ChannelUpdate = [Did, PlainEnc]"
| "forbidden MessagePost = [PlainEnc]"
| "forbidden MessageEdit = [PlainEnc]"
| "forbidden MessageDelete = [PlainEnc]"
| "forbidden DmMessagePost = [Sid, EncSid, Cid, EncCid]"
| "forbidden ReactionAdd = [PlainEnc]"
| "forbidden ReactionRemove = [PlainEnc]"
| "forbidden MemberJoin = [Cid, Did, PlainEnc]"
| "forbidden MemberLeave = [Cid, Did, PlainEnc]"
| "forbidden RoleAssign = [PlainEnc]"
| "forbidden RoleRevoke = [PlainEnc]"
| "forbidden ModerationAction = [PlainEnc]"
| "forbidden DeviceRegister = [PlainEnc]"
| "forbidden DeviceRevoke = [PlainEnc]"
| "forbidden PinMessage = [PlainEnc]"
| "forbidden UnpinMessage = [PlainEnc]"
| "forbidden BookmarkAdd = [PlainEnc]"
| "forbidden BookmarkRemove = [PlainEnc]"
| "forbidden SealedMemberJoin = [Sid, Cid, Did, Pid]"
| "forbidden SealedMemberLeave = [Sid, Cid, Did, Pid]"
| "forbidden KeyRotate = [Sid, Cid]"
| "forbidden SealedEvent = [Sid, Cid, Did, Pid]"
| "forbidden (Reserved _) = []"

definition row_ok :: "ParsedKommsEvent \<Rightarrow> bool" where
  "row_ok ev \<longleftrightarrow> is_known (ev_t ev) \<and>
     (\<forall>s\<in>set (required (ev_t ev)). present s ev) \<and>
     (\<forall>s\<in>set (forbidden (ev_t ev)). \<not> present s ev) \<and>
     (ev_t ev \<in> {RoleAssign, RoleRevoke} \<longrightarrow>
        (\<forall>r. ev_role ev = Some r \<longrightarrow> r \<le> 4) \<and> (\<forall>b. ev_target ev = Some b \<longrightarrow> 2 \<le> length b))"

text \<open>The rules that do not depend on the type.\<close>

definition ref_ok :: "bytes \<Rightarrow> bool" where
  "ref_ok r \<longleftrightarrow> (\<exists>body. (r = 0x01 # body \<and> body \<noteq> [] \<and> utf8_valid body) \<or>
                       (r = 0x02 # body \<and> length body = 32))"

definition envelope_ok :: "ParsedKommsEvent \<Rightarrow> bool" where
  "envelope_ok ev \<longleftrightarrow> ev_v ev \<le> 1 \<and> as_u8 (ev_t ev) \<notin> {21, 22} \<and>
     (\<forall>r. ev_ref_bytes ev = Some r \<longrightarrow> ref_ok r \<and>
        (\<forall>rt. ev_ref_type ev = Some rt \<longrightarrow> rt = ucast (hd r))) \<and>
     (\<forall>m. ev_mime ev = Some m \<longrightarrow> m \<noteq> [] \<and> length m \<le> 64 \<and> is_ascii m) \<and>
     (\<forall>k. ev_reaction_key ev = Some k \<longrightarrow> k \<noteq> [] \<and> length k \<le> 32)"

definition scheme_ok :: "ParsedKommsEvent \<Rightarrow> bool" where
  "scheme_ok ev \<longleftrightarrow>
     (ev_v ev \<noteq> 0 \<longrightarrow> (\<exists>s\<in>{0, 1, 3, 4}. ev_enc_scheme ev = Some s \<and> (s \<noteq> 0 \<longleftrightarrow> ev_enc ev)) \<and>
        ev_ts ev \<noteq> None \<and> ev_n ev \<noteq> None) \<and>
     ev_sig_scheme ev \<noteq> Some 1 \<and> ev_sealed_signer ev = None \<and>
     (ev_enc_scheme ev = Some 4 \<longrightarrow> ev_match_tag ev \<noteq> None \<and> ev_key_epoch ev \<noteq> None \<and>
        (has_enc_counterpart ev \<or> ev_t ev \<in> {SealedMemberJoin, SealedMemberLeave, KeyRotate}))"

definition spec_valid :: "ParsedKommsEvent \<Rightarrow> bool" where
  "spec_valid ev \<longleftrightarrow> envelope_ok ev \<and> scheme_ok ev \<and> row_ok ev"

lemma ref_type_agrees: "rt \<le> (0xFF :: u64) \<and> ucast rt = (b :: u8) \<longleftrightarrow> rt = ucast b"
proof -
  have "unat b \<le> 255" using wide_byte [of b] by simp
  then show ?thesis by (auto simp: word_le_nat_alt widen_narrow)
qed

lemma validate_envelope_iff: "validate_envelope ev = Inr () \<longleftrightarrow> envelope_ok ev"
  by (auto simp: validate_envelope_def envelope_ok_def ref_ok_def check_simps bindE_Inr_iff
      not_less MAX_KNOWN_VERSION_def ref_type_agrees split: option.splits)

lemma u64_ge_1: "1 \<le> v \<longleftrightarrow> v \<noteq> (0 :: u64)"
  by (simp add: word_le_nat_alt Suc_le_eq unat_gt_0)

lemma validate_scheme_iff:
  "validate_enc_scheme ev = Inr () \<and> validate_sealed_sender ev = Inr () \<and>
   validate_group_encrypted ev = Inr () \<longleftrightarrow> scheme_ok ev"
  by (cases "ev_enc_scheme ev") (auto simp: validate_enc_scheme_def validate_sealed_sender_def validate_group_encrypted_def
      scheme_ok_def group_encrypted_def check_simps bindE_Inr_iff ok_or_Inr_iff u64_ge_1
      split: if_splits)

lemmas checks_defs = server_checks_def channel_checks_def message_post_checks_def
  message_edit_checks_def message_delete_checks_def dm_checks_def reaction_checks_def
  member_checks_def role_assign_checks_def role_revoke_checks_def moderation_checks_def
  pin_bookmark_checks_def v1_type_checks_def

lemma type_checks_iff: "(\<forall>c\<in>set (type_checks ev). c = Inr ()) \<longleftrightarrow> row_ok ev"
  by (cases "ev_t ev")
    (auto simp: type_checks_def checks_defs row_ok_def check_simps has_sid_def has_cid_def
      has_ref_def plaintext_enc_misuse_def group_encrypted_def ROLE_MAX_def)

text \<open>
  C3: \<open>validate_event\<close> accepts an event exactly when it satisfies the type-independent rules
  (version, content reference, MIME hint, reaction key, encryption scheme, sealed sender, group
  encryption) and the row of the event table for its type: every required field is there, no
  forbidden field is there, and role events carry a known role and a target of two bytes or more.
\<close>
theorem validate_event_iff: "validate_event ev = Inr () \<longleftrightarrow> spec_valid ev"
proof -
  have "validate_event ev = Inr () \<longleftrightarrow>
      validate_envelope ev = Inr () \<and>
      (validate_enc_scheme ev = Inr () \<and> validate_sealed_sender ev = Inr () \<and>
       validate_group_encrypted ev = Inr ()) \<and> (\<forall>c\<in>set (type_checks ev). c = Inr ())"
    by (auto simp: validate_event_def check_simps bindE_Inr_iff)
  then show ?thesis
    by (simp only: validate_envelope_iff validate_scheme_iff type_checks_iff spec_valid_def)
qed

text \<open>Facts about accepted events that several properties use.\<close>

lemma valid_version: "validate_event ev = Inr () \<Longrightarrow> ev_v ev \<le> MAX_KNOWN_VERSION"
  by (simp add: validate_event_def validate_envelope_iff bindE_Inr_iff envelope_ok_def
      MAX_KNOWN_VERSION_def)

lemma valid_parts:
  assumes "validate_event ev = Inr ()"
  shows "envelope_ok ev" "scheme_ok ev" "row_ok ev"
  using assms validate_envelope_iff [of ev] validate_scheme_iff [of ev] type_checks_iff [of ev]
  by (auto simp: validate_event_def check_simps bindE_Inr_iff)

lemma valid_I:
  assumes "envelope_ok ev" "scheme_ok ev" "row_ok ev"
  shows "validate_event ev = Inr ()"
  using assms validate_envelope_iff [of ev] validate_scheme_iff [of ev] type_checks_iff [of ev]
  by (auto simp: validate_event_def check_simps bindE_Inr_iff)

text \<open>
  C28: an accepted event whose \<open>enc\<close> flag is set is a direct message, a sealed leave, or is
  group-encrypted with its match tag and key epoch; and from version 1 on the flag, the scheme
  and the replay counters are consistent: the scheme is 0 exactly when the flag is clear, it is
  never the deprecated MLS scheme 2, and \<open>ts\<close> and \<open>n\<close> are there.
\<close>
theorem validate_event_encryption:
  assumes "validate_event ev = Inr ()"
  shows "(ev_enc ev \<longrightarrow> ev_t ev = DmMessagePost \<or> ev_t ev = SealedMemberLeave \<or>
            (ev_enc_scheme ev = Some 4 \<and> ev_match_tag ev \<noteq> None \<and> ev_key_epoch ev \<noteq> None)) \<and>
         (ev_v ev = 1 \<longrightarrow> (\<exists>s. ev_enc_scheme ev = Some s \<and> (s = 0 \<longleftrightarrow> \<not> ev_enc ev) \<and> s \<noteq> 2) \<and>
            ev_ts ev \<noteq> None \<and> ev_n ev \<noteq> None) \<and>
         ev_sealed_signer ev = None \<and> ev_sig_scheme ev \<noteq> Some 1"
proof -
  note parts = valid_parts [OF assms]
  from parts(3) have "ev_enc ev \<longrightarrow> ev_t ev = DmMessagePost \<or> ev_t ev = SealedMemberLeave \<or>
      ev_enc_scheme ev = Some 4"
    by (cases "ev_t ev") (auto simp: row_ok_def)
  with parts(2) show ?thesis by (auto simp: scheme_ok_def)
qed

definition sample_dm :: ParsedKommsEvent where
  "sample_dm = default_event \<lparr> ev_v := 1, ev_t := DmMessagePost, ev_did := Some (replicate 32 7),
     ev_ref_bytes := Some [0x01, 0x62], ev_enc := True, ev_enc_scheme := Some 1,
     ev_ts := Some 1700000000, ev_n := Some 7 \<rparr>"

lemmas row_defs = envelope_ok_def scheme_ok_def row_ok_def ref_ok_def has_enc_counterpart_def

lemma valid_sample_dm: "validate_event sample_dm = Inr ()"
  by (rule valid_I) (simp_all add: sample_dm_def default_event_def row_defs)

theorem validate_event_encryption_witness:
  "ev_enc sample_dm \<and> ev_enc_scheme sample_dm \<noteq> None \<and> ev_sealed_signer sample_dm = None"
  using validate_event_encryption [OF valid_sample_dm] by (auto simp: sample_dm_def)

text \<open>
  C27: an accepted sealed event (types 23, 24 and 26) reveals no server, channel, thread or
  participant identifier, and no accepted event has an ephemeral or unallocated type.
\<close>
theorem validate_event_sealed:
  assumes "validate_event ev = Inr ()"
  shows "is_known (ev_t ev) \<and>
         (ev_t ev \<in> {SealedMemberJoin, SealedMemberLeave, SealedEvent} \<longrightarrow>
            ev_sid ev = None \<and> ev_cid ev = None \<and> ev_did ev = None \<and> ev_pid ev = None)"
  using valid_parts(3) [OF assms] by (auto simp: row_ok_def)

definition sample_sealed :: ParsedKommsEvent where
  "sample_sealed = default_event \<lparr> ev_v := 1, ev_t := SealedEvent, ev_enc := True,
     ev_enc_scheme := Some 4, ev_ts := Some 1, ev_n := Some 2,
     ev_match_tag := Some (replicate 16 3), ev_key_epoch := Some 9, ev_enc_t := Some [1, 2, 3] \<rparr>"

lemma valid_sample_sealed: "validate_event sample_sealed = Inr ()"
  by (rule valid_I) (simp_all add: sample_sealed_def default_event_def row_defs)

theorem validate_event_sealed_witness:
  "ev_t sample_sealed = SealedEvent \<and> ev_sid sample_sealed = None \<and> ev_pid sample_sealed = None"
  using validate_event_sealed [OF valid_sample_sealed] by (simp add: sample_sealed_def)

definition sample_key_rotate :: ParsedKommsEvent where
  "sample_key_rotate = default_event \<lparr> ev_v := 1, ev_t := KeyRotate, ev_enc := True,
     ev_enc_scheme := Some 4, ev_ts := Some 1, ev_n := Some 2, ev_pid := Some (replicate 32 5),
     ev_match_tag := Some (replicate 16 3), ev_key_epoch := Some 9,
     ev_member_sealed := Some [1, 2, 3] \<rparr>"

text \<open>
  The key-rotation event, also a sealed type, is accepted with a participant identifier in
  the clear, although the crate's documentation says types 23 to 26 never reveal one.
\<close>
lemma key_rotate_reveals_pid:
  "validate_event sample_key_rotate = Inr () \<and> ev_t sample_key_rotate = KeyRotate \<and>
   ev_pid sample_key_rotate = Some (replicate 32 5)"
proof -
  have "validate_event sample_key_rotate = Inr ()"
    by (rule valid_I) (simp_all add: sample_key_rotate_def default_event_def row_defs)
  then show ?thesis by (simp add: sample_key_rotate_def)
qed

end
