(* ===== verification/Event_Parse.thy ===== *)
theory Event_Parse
  imports Event_Record
begin

text \<open>
  \<open>parse_cbor_map\<close> of \<open>protocol/src/lib.rs\<close>. The source pops the known keys off a \<open>BTreeMap\<close> one
  after the other and keeps what is left; the model threads the map the same way, in the same
  order, so the first offending field in that order decides the error. The loop that collects
  the entries and the loop that moves the extension keys are recursive functions. What the
  parse computes is proved below without the threading: each field is the decoding of what its
  key held, and what is left are the keys from \<open>EXTENSION_KEY_MIN\<close> on.
\<close>

definition key_to_u8 :: "cval \<Rightarrow> ParseError + u8" where
  "key_to_u8 k = bindE (ok_or (as_integer k) InvalidKey) (\<lambda>i. ok_or (u8_try_from i) InvalidKey)"

text \<open>A pop returns the field and the map without its key.\<close>

type_synonym field_map = "(u8, cval) btree_map"

definition pop_uint :: "field_map \<Rightarrow> u8 \<Rightarrow> string \<Rightarrow> ParseError + (u64 \<times> field_map)" where
  "pop_uint fs key name =
     bindE (ok_or (om_get fs key) (MissingField name)) (\<lambda>val.
     bindE (ok_or (as_integer val) (ExpectedUint name)) (\<lambda>i.
     bindE (ok_or (u64_try_from i) (ExpectedUint name)) (\<lambda>u.
       Inr (u, om_remove key fs))))"

definition pop_bytes32 :: "field_map \<Rightarrow> u8 \<Rightarrow> string \<Rightarrow> ParseError + (bytes option \<times> field_map)" where
  "pop_bytes32 fs key name =
     (case om_get fs key of
        None \<Rightarrow> Inr (None, om_remove key fs)
      | Some val \<Rightarrow>
          bindE (map_err (\<lambda>_. ExpectedBytes32 name) (into_bytes val)) (\<lambda>bytes.
            if length bytes \<noteq> 32 then Inl (ExpectedBytes32 name)
            else Inr (Some bytes, om_remove key fs)))"

definition pop_bytes16 :: "field_map \<Rightarrow> u8 \<Rightarrow> string \<Rightarrow> ParseError + (bytes option \<times> field_map)" where
  "pop_bytes16 fs key name =
     (case om_get fs key of
        None \<Rightarrow> Inr (None, om_remove key fs)
      | Some val \<Rightarrow>
          bindE (map_err (\<lambda>_. ExpectedBytes16 name) (into_bytes val)) (\<lambda>bytes.
            if length bytes \<noteq> V1_1_TAG_LEN then Inl (ExpectedBytes16 name)
            else Inr (Some bytes, om_remove key fs)))"

definition pop_bytes :: "field_map \<Rightarrow> u8 \<Rightarrow> string \<Rightarrow> ParseError + (bytes option \<times> field_map)" where
  "pop_bytes fs key name =
     (case om_get fs key of
        None \<Rightarrow> Inr (None, om_remove key fs)
      | Some val \<Rightarrow>
          bindE (map_err (\<lambda>_. ExpectedBytes name) (into_bytes val)) (\<lambda>bytes.
            Inr (Some bytes, om_remove key fs)))"

definition pop_text_opt :: "field_map \<Rightarrow> u8 \<Rightarrow> string \<Rightarrow> ParseError + (bytes option \<times> field_map)" where
  "pop_text_opt fs key name =
     (case om_get fs key of
        None \<Rightarrow> Inr (None, om_remove key fs)
      | Some val \<Rightarrow>
          bindE (map_err (\<lambda>_. ExpectedText name) (into_text val)) (\<lambda>s.
            Inr (Some s, om_remove key fs)))"

definition pop_uint_opt :: "field_map \<Rightarrow> u8 \<Rightarrow> string \<Rightarrow> ParseError + (u64 option \<times> field_map)" where
  "pop_uint_opt fs key name =
     (case om_get fs key of
        None \<Rightarrow> Inr (None, om_remove key fs)
      | Some val \<Rightarrow>
          bindE (ok_or (as_integer val) (ExpectedUint name)) (\<lambda>i.
          bindE (ok_or (u64_try_from i) (ExpectedUint name)) (\<lambda>u.
            Inr (Some u, om_remove key fs))))"

text \<open>The inline pop of key 11.\<close>

definition pop_sig :: "field_map \<Rightarrow> ParseError + (bytes option \<times> field_map)" where
  "pop_sig fs =
     (case om_get fs 11 of
        Some val \<Rightarrow>
          bindE (map_err (\<lambda>_. ExpectedBytes ''sig'') (into_bytes val)) (\<lambda>bytes.
            if length bytes \<noteq> 64 then Inl InvalidSigLength
            else Inr (Some bytes, om_remove 11 fs))
      | None \<Rightarrow> Inr (None, om_remove 11 fs))"

text \<open>The loop over the decoded entries: a repeated key is an error.\<close>

fun collect_fields :: "(cval \<times> cval) list \<Rightarrow> field_map \<Rightarrow> ParseError + field_map" where
  "collect_fields [] fs = Inr fs"
| "collect_fields ((k, v) # entries) fs =
     bindE (key_to_u8 k) (\<lambda>key_int.
       if om_get fs key_int \<noteq> None then Inl (DuplicateMapKey key_int)
       else collect_fields entries (om_insert key_int v fs))"

text \<open>The loop that moves the keys of the extension range.\<close>

fun move_extension :: "u8 list \<Rightarrow> field_map \<Rightarrow> field_map \<Rightarrow> field_map \<times> field_map" where
  "move_extension [] fs ext = (fs, ext)"
| "move_extension (key # keys) fs ext =
     (case om_get fs key of
        Some val \<Rightarrow> move_extension keys (om_remove key fs) (om_insert key val ext)
      | None \<Rightarrow> move_extension keys fs ext)"

definition saturate_role :: "u64 \<Rightarrow> u8" where
  "saturate_role v = (if v > 0xFF then 0xFF else ucast v)"

text \<open>Key 13 of a v0 event, synthesised from \<open>enc\<close> when absent.\<close>

definition synth_enc_scheme :: "u64 \<Rightarrow> bool \<Rightarrow> u64 option \<Rightarrow> u64 option" where
  "synth_enc_scheme v enc enc_scheme =
     (if v = 0 \<and> enc_scheme = None then Some (if enc then 1 else 0) else enc_scheme)"

definition parse_fields :: "field_map \<Rightarrow> ParseError + ParsedKommsEvent" where
  "parse_fields fs =
     bindE (pop_uint fs 0 ''v'') (\<lambda>(v, fs).
     bindE (pop_uint fs 1 ''t'') (\<lambda>(t_raw, fs).
     if t_raw > 0xFF then Inl (EventTypeOverflow t_raw) else
     let t = from_u8 (ucast t_raw) in
     bindE (ok_or (om_get fs 8) (MissingField ''enc'')) (\<lambda>enc_val.
     let fs = om_remove 8 fs in
     bindE (ok_or (as_bool enc_val) (ExpectedBool ''enc'')) (\<lambda>enc.
     bindE (pop_bytes32 fs 2 ''sid'') (\<lambda>(sid, fs).
     bindE (pop_bytes32 fs 3 ''cid'') (\<lambda>(cid, fs).
     bindE (pop_bytes32 fs 4 ''did'') (\<lambda>(did, fs).
     bindE (pop_bytes32 fs 5 ''pid'') (\<lambda>(pid, fs).
     bindE (pop_bytes32 fs 6 ''mid'') (\<lambda>(mid, fs).
     bindE (pop_bytes fs 7 ''ref'') (\<lambda>(ref_bytes, fs).
     bindE (pop_uint_opt fs 9 ''ts'') (\<lambda>(ts, fs).
     bindE (pop_uint_opt fs 10 ''n'') (\<lambda>(n, fs).
     bindE (pop_sig fs) (\<lambda>(sig, fs).
     bindE (pop_bytes32 fs 12 ''parent_mid'') (\<lambda>(parent_mid, fs).
     bindE (pop_uint_opt fs 13 ''enc_scheme'') (\<lambda>(enc_scheme, fs).
     bindE (pop_uint_opt fs 14 ''kind'') (\<lambda>(kind, fs).
     bindE (pop_text_opt fs 15 ''mime'') (\<lambda>(mime, fs).
     bindE (pop_uint_opt fs 16 ''ref_type'') (\<lambda>(ref_type, fs).
     bindE (pop_bytes32 fs 17 ''device_pk'') (\<lambda>(device_pk, fs).
     bindE (pop_uint_opt fs 18 ''sig_scheme'') (\<lambda>(sig_scheme, fs).
     bindE (pop_bytes fs 19 ''reaction_key'') (\<lambda>(reaction_key, fs).
     bindE (pop_bytes fs 20 ''payment_hint'') (\<lambda>(payment_hint, fs).
     let enc_scheme = synth_enc_scheme v enc enc_scheme in
     bindE (pop_bytes16 fs 21 ''member_tag'') (\<lambda>(member_tag, fs).
     bindE (pop_bytes fs 22 ''member_sealed'') (\<lambda>(member_sealed, fs).
     bindE (pop_bytes fs 23 ''enc_sid'') (\<lambda>(enc_sid, fs).
     bindE (pop_bytes fs 24 ''enc_cid'') (\<lambda>(enc_cid, fs).
     bindE (pop_bytes fs 25 ''enc_body_ref'') (\<lambda>(enc_body_ref, fs).
     bindE (pop_bytes fs 26 ''enc_parent_mid'') (\<lambda>(enc_parent_mid, fs).
     bindE (pop_bytes16 fs 27 ''match_tag'') (\<lambda>(match_tag, fs).
     bindE (pop_bytes fs 28 ''enc_t'') (\<lambda>(enc_t, fs).
     bindE (pop_uint_opt fs 29 ''key_epoch'') (\<lambda>(key_epoch, fs).
     bindE (pop_bytes fs 30 ''sealed_signer'') (\<lambda>(sealed_signer, fs).
     bindE (pop_uint_opt fs 31 ''role'') (\<lambda>(role, fs).
     let role = map_option saturate_role role in
     bindE (pop_bytes fs 32 ''target'') (\<lambda>(target, fs).
     case move_extension (filter (\<lambda>k. EXTENSION_KEY_MIN \<le> k) (map fst (om_entries fs)))
            fs om_empty of (fs, extension_fields) \<Rightarrow>
     if om_entries fs \<noteq> [] then Inl (ReservedCoreKey (fst (hd (om_entries fs)))) else
     Inr \<lparr> ev_v = v, ev_t = t, ev_sid = sid, ev_cid = cid, ev_did = did, ev_pid = pid,
       ev_mid = mid, ev_ref_bytes = ref_bytes, ev_enc = enc, ev_ts = ts, ev_n = n,
       ev_sig = sig, ev_parent_mid = parent_mid, ev_enc_scheme = enc_scheme,
       ev_kind = kind, ev_mime = mime, ev_ref_type = ref_type, ev_device_pk = device_pk,
       ev_sig_scheme = sig_scheme, ev_reaction_key = reaction_key,
       ev_payment_hint = payment_hint, ev_member_tag = member_tag,
       ev_member_sealed = member_sealed, ev_enc_sid = enc_sid, ev_enc_cid = enc_cid,
       ev_enc_body_ref = enc_body_ref, ev_enc_parent_mid = enc_parent_mid,
       ev_match_tag = match_tag, ev_enc_t = enc_t, ev_key_epoch = key_epoch,
       ev_sealed_signer = sealed_signer, ev_role = role, ev_target = target,
       ev_extension_fields = extension_fields \<rparr>))))))))))))))))))))))))))))))))))"

definition parse_cbor_map :: "(bytes \<Rightarrow> string + cval) \<Rightarrow> bytes \<Rightarrow> ParseError + ParsedKommsEvent" where
  "parse_cbor_map de cbor =
     bindE (map_err Cbor (de cbor)) (\<lambda>value.
     case value of
       Map entries \<Rightarrow> bindE (collect_fields entries om_empty) parse_fields
     | _ \<Rightarrow> Inl NotAMap)"

section \<open>What a pop accepts\<close>

definition uint_val :: "u64 \<Rightarrow> cval" where
  "uint_val u = Integer (uint u)"

lemma uint_val_inject [simp]: "uint_val a = uint_val b \<longleftrightarrow> a = b"
  unfolding uint_val_def by (metis cval.inject(1) option.inject u64_try_from_uint)

lemma into_bytes_iff [result_simps]: "into_bytes v = Inr b \<longleftrightarrow> v = Bytes b"
  by (cases v) auto

lemma into_text_iff [result_simps]: "into_text v = Inr b \<longleftrightarrow> v = Text b"
  by (cases v) auto

lemma as_integer_iff: "as_integer v = Some i \<longleftrightarrow> v = Integer i"
  by (cases v) auto

lemma as_bool_iff: "as_bool v = Some b \<longleftrightarrow> v = Bool b"
  by (cases v) auto

named_theorems pop_iffs "when a pop succeeds, and with what"

lemma pop_uint_iff [pop_iffs]:
  "pop_uint fs k name = Inr (u, fs') \<longleftrightarrow> om_get fs k = Some (uint_val u) \<and> fs' = om_remove k fs"
  by (auto simp: pop_uint_def result_simps as_integer_iff u64_try_from_iff uint_val_def)

lemma pop_bytes32_iff [pop_iffs]:
  "pop_bytes32 fs k name = Inr (x, fs') \<longleftrightarrow>
     om_get fs k = map_option Bytes x \<and> len_ok 32 x \<and> fs' = om_remove k fs"
  by (cases x) (auto simp: pop_bytes32_def result_simps split: option.split)

lemma pop_bytes16_iff [pop_iffs]:
  "pop_bytes16 fs k name = Inr (x, fs') \<longleftrightarrow>
     om_get fs k = map_option Bytes x \<and> len_ok 16 x \<and> fs' = om_remove k fs"
  by (cases x) (auto simp: pop_bytes16_def V1_1_TAG_LEN_def result_simps split: option.split)

lemma pop_sig_iff [pop_iffs]:
  "pop_sig fs = Inr (x, fs') \<longleftrightarrow>
     om_get fs 11 = map_option Bytes x \<and> len_ok 64 x \<and> fs' = om_remove 11 fs"
  by (cases x) (auto simp: pop_sig_def result_simps split: option.split)

lemma pop_bytes_iff [pop_iffs]:
  "pop_bytes fs k name = Inr (x, fs') \<longleftrightarrow>
     om_get fs k = map_option Bytes x \<and> fs' = om_remove k fs"
  by (cases x) (auto simp: pop_bytes_def result_simps split: option.split)

lemma pop_text_opt_iff [pop_iffs]:
  "pop_text_opt fs k name = Inr (x, fs') \<longleftrightarrow>
     om_get fs k = map_option Text x \<and> fs' = om_remove k fs"
  by (cases x) (auto simp: pop_text_opt_def result_simps split: option.split)

lemma pop_uint_opt_iff [pop_iffs]:
  "pop_uint_opt fs k name = Inr (x, fs') \<longleftrightarrow>
     om_get fs k = map_option uint_val x \<and> fs' = om_remove k fs"
  by (cases x) (auto simp: pop_uint_opt_def result_simps as_integer_iff u64_try_from_iff
      uint_val_def split: option.split)

lemma enc_iff:
  "bindE (ok_or (om_get fs 8) (MissingField ''enc'')) (\<lambda>x.
     bindE (ok_or (as_bool x) (ExpectedBool ''enc'')) f) = Inr y \<longleftrightarrow>
   (\<exists>b. om_get fs 8 = Some (Bool b) \<and> f b = Inr y)"
  by (auto simp: result_simps as_bool_iff)

section \<open>The extension loop\<close>

lemma move_extension_ok:
  "om_ok fs \<Longrightarrow> om_ok ext \<Longrightarrow> move_extension keys fs ext = (fs', ext') \<Longrightarrow> om_ok fs' \<and> om_ok ext'"
  by (induction keys fs ext rule: move_extension.induct)
    (auto simp: btree.ok_remove btree.ok_insert split: option.splits)

lemma move_extension_get:
  "om_ok fs \<Longrightarrow> om_ok ext \<Longrightarrow> move_extension keys fs ext = (fs', ext') \<Longrightarrow>
     om_get fs' k = (if k \<in> set keys then None else om_get fs k) \<and>
     om_get ext' k = (if k \<in> set keys \<and> om_get fs k \<noteq> None then om_get fs k else om_get ext k)"
  by (induction keys fs ext rule: move_extension.induct)
    (auto simp: btree.ok_remove btree.ok_insert om_get_remove om_get_insert split: option.splits if_splits)

text \<open>\<open>ext_part\<close>: the entries of a map with keys in the extension range.\<close>

definition ext_part :: "field_map \<Rightarrow> field_map" where
  "ext_part fs = filter (\<lambda>(k, v). EXTENSION_KEY_MIN \<le> k) fs"

lemma om_ok_filter: "om_ok m \<Longrightarrow> om_ok (filter P m)"
  by (induction m) (auto simp: om_ok_def)

lemma om_get_filter: "om_ok m \<Longrightarrow> om_get (filter (\<lambda>(k, v). P k) m) k = (if P k then om_get m k else None)"
  by (induction m) (auto simp: om_ok_Cons intro: om_get_absent)

lemma move_extension_core:
  assumes ok: "om_ok fs" and core: "\<And>k. k < EXTENSION_KEY_MIN \<Longrightarrow> om_get fs k = None"
  shows "move_extension (filter (\<lambda>k. EXTENSION_KEY_MIN \<le> k) (map fst (om_entries fs))) fs om_empty
           = (om_empty, ext_part fs)"
proof -
  let ?keys = "filter (\<lambda>k. EXTENSION_KEY_MIN \<le> k) (map fst (om_entries fs))"
  obtain fs' ext' where r: "move_extension ?keys fs om_empty = (fs', ext')" by fastforce
  have k: "k \<in> set ?keys \<longleftrightarrow> EXTENSION_KEY_MIN \<le> k \<and> om_get fs k \<noteq> None" for k
    using btree.get_None_iff [OF ok, of k] by auto
  note ok' = move_extension_ok [OF ok btree.ok_empty r]
  note get = move_extension_get [OF ok btree.ok_empty r]
  have "fs' = om_empty"
    using ok' k core by (intro btree.get_ext) (auto simp: get btree.ok_empty btree.get_empty not_le)
  moreover have "ext' = ext_part fs"
    using ok' ok k by (intro btree.get_ext)
      (auto simp: get ext_part_def om_ok_filter om_get_filter btree.get_empty)
  ultimately show ?thesis using r by simp
qed

section \<open>The field layout\<close>

text \<open>
  \<open>field_layout ev\<close> is the wire layout of the core keys: what the map of \<open>ev\<close> holds at each key.
  Keys 13 and 31 stand apart, because the parser derives them (\<open>enc_scheme\<close> of a v0 event,
  a role above 255).
\<close>

definition field_layout :: "ParsedKommsEvent \<Rightarrow> (u8 \<times> cval option) list" where
  "field_layout ev =
     [(0, Some (uint_val (ev_v ev))),
      (1, Some (uint_val (ucast (as_u8 (ev_t ev))))),
      (2, map_option Bytes (ev_sid ev)),
      (3, map_option Bytes (ev_cid ev)),
      (4, map_option Bytes (ev_did ev)),
      (5, map_option Bytes (ev_pid ev)),
      (6, map_option Bytes (ev_mid ev)),
      (7, map_option Bytes (ev_ref_bytes ev)),
      (8, Some (Bool (ev_enc ev))),
      (9, map_option uint_val (ev_ts ev)),
      (10, map_option uint_val (ev_n ev)),
      (11, map_option Bytes (ev_sig ev)),
      (12, map_option Bytes (ev_parent_mid ev)),
      (14, map_option uint_val (ev_kind ev)),
      (15, map_option Text (ev_mime ev)),
      (16, map_option uint_val (ev_ref_type ev)),
      (17, map_option Bytes (ev_device_pk ev)),
      (18, map_option uint_val (ev_sig_scheme ev)),
      (19, map_option Bytes (ev_reaction_key ev)),
      (20, map_option Bytes (ev_payment_hint ev)),
      (21, map_option Bytes (ev_member_tag ev)),
      (22, map_option Bytes (ev_member_sealed ev)),
      (23, map_option Bytes (ev_enc_sid ev)),
      (24, map_option Bytes (ev_enc_cid ev)),
      (25, map_option Bytes (ev_enc_body_ref ev)),
      (26, map_option Bytes (ev_enc_parent_mid ev)),
      (27, map_option Bytes (ev_match_tag ev)),
      (28, map_option Bytes (ev_enc_t ev)),
      (29, map_option uint_val (ev_key_epoch ev)),
      (30, map_option Bytes (ev_sealed_signer ev)),
      (32, map_option Bytes (ev_target ev))]"

text \<open>\<open>fields_of ev m\<close>: an event map that holds \<open>m k\<close> at key \<open>k\<close> reads as the event \<open>ev\<close>.\<close>

definition fields_of :: "ParsedKommsEvent \<Rightarrow> (u8 \<Rightarrow> cval option) \<Rightarrow> bool" where
  "fields_of ev m \<longleftrightarrow>
     (\<forall>(k, v)\<in>set (field_layout ev). m k = v) \<and>
     (\<exists>scheme. m 13 = map_option uint_val scheme \<and>
        ev_enc_scheme ev = synth_enc_scheme (ev_v ev) (ev_enc ev) scheme) \<and>
     (\<exists>role. m 31 = map_option uint_val role \<and> ev_role ev = map_option saturate_role role) \<and>
     om_get (ev_extension_fields ev) = (\<lambda>k. if EXTENSION_KEY_MIN \<le> k then m k else None) \<and>
     from_u8 (as_u8 (ev_t ev)) = ev_t ev \<and> wf_event ev"

lemma core_key_cases:
  assumes "k < EXTENSION_KEY_MIN"
  shows "k \<in> set [0, 1, 2, 3, 4, 5, 6, 7, 8, 9, 10, 11, 12, 13, 14, 15, 16, 17, 18, 19, 20, 21, 22,
    23, 24, 25, 26, 27, 28, 29, 30, 31, 32]"
proof -
  have "unat k < 33" using assms by (simp add: EXTENSION_KEY_MIN_def word_less_nat_alt)
  then have "unat k \<in> set [0..<33]" by simp
  then have "(word_of_nat (unat k) :: u8) \<in> word_of_nat ` set [0..<33]" by (rule imageI)
  then show ?thesis
    by (simp only: of_nat_unat ucast_id) (simp add: upt_rec)
qed

text \<open>\<open>drop_core\<close>: the map after all the pops.\<close>

definition drop_core :: "field_map \<Rightarrow> field_map" where
  "drop_core fs =
     om_remove 32 (om_remove 31 (om_remove 30 (om_remove 29 (om_remove 28 (om_remove 27
     (om_remove 26 (om_remove 25 (om_remove 24 (om_remove 23 (om_remove 22 (om_remove 21
     (om_remove 20 (om_remove 19 (om_remove 18 (om_remove 17 (om_remove 16 (om_remove 15
     (om_remove 14 (om_remove 13 (om_remove 12 (om_remove 11 (om_remove 10 (om_remove 9
     (om_remove 7 (om_remove 6 (om_remove 5 (om_remove 4 (om_remove 3 (om_remove 2
     (om_remove 8 (om_remove 1 (om_remove 0 fs))))))))))))))))))))))))))))))))"

lemma om_ok_drop_core: "om_ok fs \<Longrightarrow> om_ok (drop_core fs)"
  by (simp add: drop_core_def btree.ok_remove)

lemma om_get_drop_core_ext: "EXTENSION_KEY_MIN \<le> k \<Longrightarrow> om_get (drop_core fs) k = om_get fs k"
  unfolding drop_core_def
  by (subst om_get_remove_other, (rule notI, simp add: EXTENSION_KEY_MIN_def word_le_nat_alt; fail))+
    (rule refl)

lemma om_get_drop_core: "om_ok fs \<Longrightarrow> k < EXTENSION_KEY_MIN \<Longrightarrow> om_get (drop_core fs) k = None"
  by (drule core_key_cases) (auto simp: drop_core_def btree.ok_remove om_get_remove)

lemma ext_part_drop_core: "om_ok fs \<Longrightarrow> ext_part (drop_core fs) = ext_part fs"
  by (rule btree.get_ext)
    (auto simp: ext_part_def om_ok_filter om_get_filter om_ok_drop_core om_get_drop_core_ext)

lemma parse_rest:
  assumes "om_ok fs"
  shows "(case move_extension
            (filter (\<lambda>k. EXTENSION_KEY_MIN \<le> k) (map fst (om_entries (drop_core fs))))
            (drop_core fs) om_empty of (fs, ext) \<Rightarrow>
          if om_entries fs \<noteq> [] then Inl (ReservedCoreKey (fst (hd (om_entries fs))))
          else Inr (f ext)) = Inr (f (ext_part fs))"
proof -
  have "move_extension
          (filter (\<lambda>k. EXTENSION_KEY_MIN \<le> k) (map fst (om_entries (drop_core fs))))
          (drop_core fs) om_empty = (om_empty, ext_part fs)"
    using assms by (subst move_extension_core)
      (simp_all add: om_ok_drop_core om_get_drop_core ext_part_drop_core)
  then show ?thesis by (simp only: prod.case) (simp add: om_entries_def om_empty_def)
qed

text \<open>The pops as binds, over the lookups they see through the earlier pops.\<close>

lemma bind_pop_iffs:
  "bindE (pop_uint fs k name) f = Inr y \<longleftrightarrow>
     (\<exists>u. om_get fs k = Some (uint_val u) \<and> f (u, om_remove k fs) = Inr y)"
  "bindE (pop_bytes32 fs k name) g = Inr y \<longleftrightarrow>
     (\<exists>x. om_get fs k = map_option Bytes x \<and> len_ok 32 x \<and> g (x, om_remove k fs) = Inr y)"
  "bindE (pop_bytes16 fs k name) g = Inr y \<longleftrightarrow>
     (\<exists>x. om_get fs k = map_option Bytes x \<and> len_ok 16 x \<and> g (x, om_remove k fs) = Inr y)"
  "bindE (pop_sig fs) g = Inr y \<longleftrightarrow>
     (\<exists>x. om_get fs 11 = map_option Bytes x \<and> len_ok 64 x \<and> g (x, om_remove 11 fs) = Inr y)"
  "bindE (pop_bytes fs k name) g = Inr y \<longleftrightarrow>
     (\<exists>x. om_get fs k = map_option Bytes x \<and> g (x, om_remove k fs) = Inr y)"
  "bindE (pop_text_opt fs k name) g = Inr y \<longleftrightarrow>
     (\<exists>x. om_get fs k = map_option Text x \<and> g (x, om_remove k fs) = Inr y)"
  "bindE (pop_uint_opt fs k name) h = Inr y \<longleftrightarrow>
     (\<exists>x. om_get fs k = map_option uint_val x \<and> h (x, om_remove k fs) = Inr y)"
  by (auto simp: bindE_Inr_iff pop_iffs)

lemma map_option_inj_simps [simp]:
  "map_option Bytes a = map_option Bytes b \<longleftrightarrow> a = b"
  "map_option Text a = map_option Text b \<longleftrightarrow> a = b"
  "map_option uint_val c = map_option uint_val d \<longleftrightarrow> c = d"
  by (simp_all add: inj_eq [OF option.inj_map] inj_def)

lemma wide_type_byte: "unat (as_u8 t) \<le> 255"
proof -
  have "unat (as_u8 t) < 256" by (rule unat_u8_less)
  then show ?thesis by linarith
qed

lemma om_ok_ext_part: "om_ok fs \<Longrightarrow> om_ok (ext_part fs)"
  by (simp add: ext_part_def om_ok_filter)

lemma om_get_ext_part:
  "om_ok fs \<Longrightarrow> om_get (ext_part fs) = (\<lambda>k. if EXTENSION_KEY_MIN \<le> k then om_get fs k else None)"
  by (simp add: ext_part_def om_get_filter fun_eq_iff)

lemma parse_fields_sound:
  assumes ok: "om_ok fs" and parse: "parse_fields fs = Inr ev"
  shows "fields_of ev (om_get fs)"
  using parse
  apply (simp only: parse_fields_def Let_def enc_iff bind_pop_iffs if_Inl_Inr_iff prod.case)
  apply (elim exE conjE)
  apply (simp only: drop_core_def [symmetric] parse_rest [OF ok] sum.inject)
  apply (simp add: om_get_remove_other split del: if_split)
  apply hypsubst
  apply (simp add: fields_of_def field_layout_def wf_event_def om_ok_ext_part om_get_ext_part ok
      not_less word_le_nat_alt widen_narrow split del: if_split)
  done

lemma parse_fields_complete:
  assumes ok: "om_ok fs" and f: "fields_of ev (om_get fs)"
  shows "parse_fields fs = Inr ev"
proof -
  from f obtain scheme role where s: "om_get fs 13 = map_option uint_val scheme"
      "ev_enc_scheme ev = synth_enc_scheme (ev_v ev) (ev_enc ev) scheme"
    and r: "om_get fs 31 = map_option uint_val role" "ev_role ev = map_option saturate_role role"
    by (auto simp only: fields_of_def)
  have e: "ext_part fs = ev_extension_fields ev"
    using f ok by (intro btree.get_ext)
      (simp_all add: om_ok_ext_part om_get_ext_part fields_of_def wf_event_def)
  show ?thesis
    apply (simp only: parse_fields_def Let_def enc_iff bind_pop_iffs if_Inl_Inr_iff prod.case)
    apply (simp only: drop_core_def [symmetric] parse_rest [OF ok] sum.inject)
    using f
    apply (simp add: om_get_remove_other s r e fields_of_def field_layout_def wf_event_def
      not_less word_le_nat_alt wide_type_byte split del: if_split)
    done
qed

lemma parse_fields_iff: "om_ok fs \<Longrightarrow> parse_fields fs = Inr ev \<longleftrightarrow> fields_of ev (om_get fs)"
  by (blast intro: parse_fields_sound parse_fields_complete)

section \<open>The entries\<close>

definition entry_keys :: "(cval \<times> cval) list \<Rightarrow> u8 list \<Rightarrow> bool" where
  "entry_keys entries ks \<longleftrightarrow> map fst entries = map (\<lambda>k. Integer (uint k)) ks"

lemma key_to_u8_iff [result_simps]: "key_to_u8 k = Inr b \<longleftrightarrow> k = Integer (uint b)"
  by (auto simp: key_to_u8_def result_simps as_integer_iff u8_try_from_iff)

lemma uint_u8_inject [simp]: "uint (a :: u8) = uint b \<longleftrightarrow> a = b"
  by (metis option.inject u8_try_from_uint)

lemma entry_keys_simps [simp]:
  "entry_keys [] ks \<longleftrightarrow> ks = []"
  "entry_keys ((k, v) # es) ks \<longleftrightarrow> (\<exists>b ks'. ks = b # ks' \<and> k = Integer (uint b) \<and> entry_keys es ks')"
  by (auto simp: entry_keys_def Cons_eq_map_conv)

lemma collect_fields_iff:
  "om_ok fs \<Longrightarrow> collect_fields entries fs = Inr fs' \<longleftrightarrow>
     (\<exists>ks. entry_keys entries ks \<and> distinct ks \<and> (\<forall>k\<in>set ks. om_get fs k = None) \<and>
        fs' = btree.insert_all (zip ks (map snd entries)) fs)"
proof (induction entries fs rule: collect_fields.induct)
  case (1 fs)
  then show ?case by auto
next
  case (2 k v entries fs)
  show ?case
  proof (cases "key_to_u8 k")
    case (Inl e)
    then have "k \<noteq> Integer (uint b)" for b :: u8
      using key_to_u8_iff [of k b] by auto
    with Inl show ?thesis by auto
  next
    case (Inr b)
    then have k: "k = Integer (uint b)" by (simp add: result_simps)
    show ?thesis
    proof (cases "om_get fs b")
      case None
      have o: "(\<forall>k\<in>set ks. om_get (om_insert b v fs) k = None)
                 \<longleftrightarrow> b \<notin> set ks \<and> (\<forall>k\<in>set ks. om_get fs k = None)" for ks
        by (auto simp: om_get_insert)
      have pull: "(\<exists>ks. (\<exists>ks'. ks = b # ks' \<and> P ks') \<and> Q ks) \<longleftrightarrow> (\<exists>ks'. P ks' \<and> Q (b # ks'))"
        for P Q :: "u8 list \<Rightarrow> bool"
        by blast
      show ?thesis
        using None 2 Inr k by (auto simp: btree.ok_insert o pull)
    next
      case (Some w)
      with Inr k show ?thesis by auto
    qed
  qed
qed

text \<open>The errors of the pops are never \<open>ReservedCoreKey\<close>, and no core key survives them.\<close>

lemma bind_pop_reserved:
  "bindE (pop_uint fs k name) f = Inl (ReservedCoreKey c) \<longleftrightarrow>
     (\<exists>u. om_get fs k = Some (uint_val u) \<and> f (u, om_remove k fs) = Inl (ReservedCoreKey c))"
  "bindE (pop_bytes32 fs k name) g = Inl (ReservedCoreKey c) \<longleftrightarrow>
     (\<exists>x. om_get fs k = map_option Bytes x \<and> len_ok 32 x \<and>
        g (x, om_remove k fs) = Inl (ReservedCoreKey c))"
  "bindE (pop_bytes16 fs k name) g = Inl (ReservedCoreKey c) \<longleftrightarrow>
     (\<exists>x. om_get fs k = map_option Bytes x \<and> len_ok 16 x \<and>
        g (x, om_remove k fs) = Inl (ReservedCoreKey c))"
  "bindE (pop_sig fs) g = Inl (ReservedCoreKey c) \<longleftrightarrow>
     (\<exists>x. om_get fs 11 = map_option Bytes x \<and> len_ok 64 x \<and>
        g (x, om_remove 11 fs) = Inl (ReservedCoreKey c))"
  "bindE (pop_bytes fs k name) g = Inl (ReservedCoreKey c) \<longleftrightarrow>
     (\<exists>x. om_get fs k = map_option Bytes x \<and> g (x, om_remove k fs) = Inl (ReservedCoreKey c))"
  "bindE (pop_text_opt fs k name) g = Inl (ReservedCoreKey c) \<longleftrightarrow>
     (\<exists>x. om_get fs k = map_option Text x \<and> g (x, om_remove k fs) = Inl (ReservedCoreKey c))"
  "bindE (pop_uint_opt fs k name) h = Inl (ReservedCoreKey c) \<longleftrightarrow>
     (\<exists>x. om_get fs k = map_option uint_val x \<and> h (x, om_remove k fs) = Inl (ReservedCoreKey c))"
  by (auto simp: bindE_Inl_iff pop_iffs)
    (auto simp: pop_uint_def pop_bytes32_def pop_bytes16_def pop_sig_def pop_bytes_def
      pop_text_opt_def pop_uint_opt_def bindE_Inl_iff result_simps split: option.splits if_splits)

lemma enc_reserved:
  "bindE (ok_or (om_get fs 8) (MissingField ''enc'')) (\<lambda>x.
     bindE (ok_or (as_bool x) (ExpectedBool ''enc'')) f) = Inl (ReservedCoreKey c) \<longleftrightarrow>
   (\<exists>b. om_get fs 8 = Some (Bool b) \<and> f b = Inl (ReservedCoreKey c))"
  by (auto simp: bindE_Inl_iff result_simps as_bool_iff)

lemma if_Inl_reserved:
  "(if c then Inl (EventTypeOverflow u) else x) = Inl (ReservedCoreKey k) \<longleftrightarrow>
     \<not> c \<and> x = Inl (ReservedCoreKey k)"
  by simp

lemma parse_fields_not_reserved: "om_ok fs \<Longrightarrow> parse_fields fs \<noteq> Inl (ReservedCoreKey c)"
  by (simp only: parse_fields_def Let_def enc_reserved bind_pop_reserved if_Inl_reserved prod.case
      drop_core_def [symmetric] parse_rest sum.distinct simp_thms not_False_eq_True)

lemma collect_fields_not_reserved: "collect_fields entries fs \<noteq> Inl (ReservedCoreKey c)"
  by (induction entries fs rule: collect_fields.induct)
    (auto simp: bindE_Inl_iff key_to_u8_def result_simps)

lemma om_ok_collected: "om_ok (btree.insert_all kvs om_empty)"
  by (simp add: btree.ok_insert_all btree.ok_empty)

lemma om_get_collected:
  "entry_keys entries ks \<Longrightarrow> distinct ks \<Longrightarrow>
     om_get (btree.insert_all (zip ks (map snd entries)) om_empty) = map_of (zip ks (map snd entries))"
proof -
  assume "entry_keys entries ks" "distinct ks"
  then have "length ks = length entries" by (metis entry_keys_def length_map)
  with \<open>distinct ks\<close> show ?thesis by (intro btree.get_insert_all_distinct) simp
qed

lemma parse_entries_iff:
  "bindE (collect_fields entries om_empty) parse_fields = Inr ev \<longleftrightarrow>
     (\<exists>ks. entry_keys entries ks \<and> distinct ks \<and> fields_of ev (map_of (zip ks (map snd entries))))"
proof -
  have "bindE (collect_fields entries om_empty) parse_fields = Inr ev \<longleftrightarrow>
      (\<exists>ks. entry_keys entries ks \<and> distinct ks \<and>
         parse_fields (btree.insert_all (zip ks (map snd entries)) om_empty) = Inr ev)"
    unfolding bindE_Inr_iff collect_fields_iff [OF btree.ok_empty] btree.get_empty by blast
  then show ?thesis
    by (auto simp: parse_fields_iff om_ok_collected om_get_collected)
qed

section \<open>What the parser accepts\<close>

lemma parse_cbor_map_spec:
  "parse_cbor_map de cbor = Inr ev \<longleftrightarrow>
     (\<exists>entries ks. de cbor = Inr (Map entries) \<and> entry_keys entries ks \<and> distinct ks \<and>
        fields_of ev (map_of (zip ks (map snd entries))))"
proof (cases "de cbor")
  case (Inl e)
  then show ?thesis by (simp add: parse_cbor_map_def)
next
  case (Inr v)
  then show ?thesis
    by (cases v) (simp_all add: parse_cbor_map_def parse_entries_iff)
qed

text \<open>
  C4: \<open>parse_cbor_map\<close> succeeds with the event \<open>ev\<close> exactly when the bytes decode to a map whose
  keys are pairwise distinct integers of 0..=255 and whose values are the wire layout of \<open>ev\<close>,
  in whatever order the entries come: every core key present holds the value of its field and
  nothing else, absent keys are absent fields, a missing key 13 of a v0 event is synthesised
  from \<open>enc\<close>, a role above 255 saturates, and all other keys are kept as extension fields.
\<close>
theorem parse_cbor_map_iff:
  "parse_cbor_map de cbor = Inr ev \<longleftrightarrow>
     (\<exists>entries ks. de cbor = Inr (Map entries) \<and> entry_keys entries ks \<and> distinct ks \<and>
        fields_of ev (map_of (zip ks (map snd entries))))"
  by (rule parse_cbor_map_spec)


text \<open>
  The error \<open>ReservedCoreKey\<close> is never returned: every key below \<open>EXTENSION_KEY_MIN\<close> is
  allocated, so nothing is left over once the core keys are popped and the extension keys moved.
\<close>
lemma parse_cbor_map_not_reserved: "parse_cbor_map de cbor \<noteq> Inl (ReservedCoreKey key)"
proof -
  have "bindE (collect_fields entries om_empty) parse_fields \<noteq> Inl (ReservedCoreKey key)" for entries
    by (auto simp: bindE_Inl_iff collect_fields_not_reserved collect_fields_iff btree.ok_empty
        parse_fields_not_reserved om_ok_collected)
  then show ?thesis
    by (auto simp: parse_cbor_map_def bindE_Inl_iff map_err_Inl_iff split: cval.splits)
qed

end
