(* ===== verification/Encode.thy ===== *)
theory Encode
  imports Validate Event_Parse "HOL-Library.List_Lexorder"
begin

text \<open>
  \<open>protocol/src/encode.rs\<close>: the content-reference builders, the identifiers and the canonical
  encoder. SHA-256 is the parameter \<open>sha256\<close> (the hash of everything written to the hasher, in
  order), the CBOR writer is the parameter \<open>ser\<close> of \<open>cbor_codec\<close>. The comparison of two byte
  slices is the lexicographic order of \<open>HOL-Library.List_Lexorder\<close>, which is the order of
  \<open>Ord for [u8]\<close>.
\<close>

definition ascii :: "string \<Rightarrow> bytes" where
  "ascii s = map of_char s"

datatype RefBuildError = EmptyCid

definition ref_from_cid_str :: "bytes \<Rightarrow> RefBuildError + bytes" where
  "ref_from_cid_str cid = (if cid = [] then Inl EmptyCid else Inr (0x01 # cid))"

definition ref_from_content_hash :: "bytes \<Rightarrow> bytes" where
  "ref_from_content_hash hash = 0x02 # hash"

definition sha256_domain :: "(bytes \<Rightarrow> bytes) \<Rightarrow> bytes \<Rightarrow> bytes list \<Rightarrow> bytes" where
  "sha256_domain sha256 domain parts = sha256 (domain @ concat parts)"

definition server_id :: "bytes \<Rightarrow> bytes" where
  "server_id creation_txid = creation_txid"

definition channel_id :: "bytes \<Rightarrow> bytes" where
  "channel_id creation_txid = creation_txid"

definition message_id :: "bytes \<Rightarrow> bytes" where
  "message_id creation_txid = creation_txid"

definition participant_id :: "(bytes \<Rightarrow> bytes) \<Rightarrow> bytes \<Rightarrow> bytes" where
  "participant_id sha256 creator_address_bytes =
     sha256_domain sha256 (ascii ''KOMMS_PARTICIPANT_V0'') [creator_address_bytes]"

definition dm_thread_id :: "(bytes \<Rightarrow> bytes) \<Rightarrow> bytes \<Rightarrow> bytes \<Rightarrow> bytes" where
  "dm_thread_id sha256 addr_a addr_b =
     (case (if addr_a > addr_b then (addr_b, addr_a) else (addr_a, addr_b)) of (min_a, max_a) \<Rightarrow>
        sha256_domain sha256 (ascii ''KOMMS_DM_V0'') [min_a, max_a])"

section \<open>The encoder\<close>

definition bk :: "u8 \<Rightarrow> cval" where
  "bk key = Integer (uint (ucast key :: u64))"

text \<open>\<open>if let Some(x) = .. { pairs.push((bk(k), f(x))) }\<close>\<close>

definition opt_pair :: "u8 \<Rightarrow> ('a \<Rightarrow> cval) \<Rightarrow> 'a option \<Rightarrow> (cval \<times> cval) list" where
  "opt_pair k f x = (case x of None \<Rightarrow> [] | Some y \<Rightarrow> [(bk k, f y)])"

definition event_pairs :: "ParsedKommsEvent \<Rightarrow> (cval \<times> cval) list" where
  "event_pairs ev =
     [(bk 0, uint_val (ev_v ev)), (bk 1, uint_val (ucast (as_u8 (ev_t ev))))] @
     opt_pair 2 Bytes (ev_sid ev) @
     opt_pair 3 Bytes (ev_cid ev) @
     opt_pair 4 Bytes (ev_did ev) @
     opt_pair 5 Bytes (ev_pid ev) @
     opt_pair 6 Bytes (ev_mid ev) @
     opt_pair 7 Bytes (ev_ref_bytes ev) @
     [(bk 8, Bool (ev_enc ev))] @
     opt_pair 9 uint_val (ev_ts ev) @
     opt_pair 10 uint_val (ev_n ev) @
     opt_pair 11 Bytes (ev_sig ev) @
     opt_pair 12 Bytes (ev_parent_mid ev) @
     (if ev_v ev \<noteq> 0 then opt_pair 13 uint_val (ev_enc_scheme ev) else []) @
     opt_pair 14 uint_val (ev_kind ev) @
     opt_pair 15 Text (ev_mime ev) @
     opt_pair 16 uint_val (ev_ref_type ev) @
     opt_pair 17 Bytes (ev_device_pk ev) @
     opt_pair 18 uint_val (ev_sig_scheme ev) @
     opt_pair 19 Bytes (ev_reaction_key ev) @
     opt_pair 20 Bytes (ev_payment_hint ev) @
     opt_pair 21 Bytes (ev_member_tag ev) @
     opt_pair 22 Bytes (ev_member_sealed ev) @
     opt_pair 23 Bytes (ev_enc_sid ev) @
     opt_pair 24 Bytes (ev_enc_cid ev) @
     opt_pair 25 Bytes (ev_enc_body_ref ev) @
     opt_pair 26 Bytes (ev_enc_parent_mid ev) @
     opt_pair 27 Bytes (ev_match_tag ev) @
     opt_pair 28 Bytes (ev_enc_t ev) @
     opt_pair 29 uint_val (ev_key_epoch ev) @
     opt_pair 30 Bytes (ev_sealed_signer ev) @
     opt_pair 31 (\<lambda>role. uint_val (ucast role)) (ev_role ev) @
     opt_pair 32 Bytes (ev_target ev) @
     map (\<lambda>(key, val). (bk key, val)) (om_entries (ev_extension_fields ev))"

definition encode_cbor_map :: "(cval \<Rightarrow> bytes) \<Rightarrow> ParsedKommsEvent \<Rightarrow> ValidationError + bytes" where
  "encode_cbor_map ser ev =
     bindE (validate_event ev) (\<lambda>_.
     bindE (case ev_ref_bytes ev of None \<Rightarrow> Inr () | Some r \<Rightarrow> validate_ref r) (\<lambda>_.
       Inr (ser (Map (event_pairs ev)))))"

definition signing_payload_cbor :: "(cval \<Rightarrow> bytes) \<Rightarrow> ParsedKommsEvent \<Rightarrow> ValidationError + bytes" where
  "signing_payload_cbor ser ev = encode_cbor_map ser (ev\<lparr>ev_sig := None\<rparr>)"

definition encode_komms_payload :: "(cval \<Rightarrow> bytes) \<Rightarrow> ParsedKommsEvent \<Rightarrow> ValidationError + bytes" where
  "encode_komms_payload ser ev =
     bindE (encode_cbor_map ser ev) (\<lambda>cbor. Inr (KOMMS_PAYLOAD_PREFIX @ cbor))"

section \<open>The entries as a table\<close>

text \<open>\<open>present_entries\<close> keeps the keys that have a value.\<close>

fun present_entries :: "('k \<times> 'v option) list \<Rightarrow> ('k \<times> 'v) list" where
  "present_entries [] = []"
| "present_entries ((k, Some v) # r) = (k, v) # present_entries r"
| "present_entries ((k, None) # r) = present_entries r"

lemma fst_present_entries: "fst ` set (present_entries r) \<subseteq> fst ` set r"
  by (induction r rule: present_entries.induct) auto

lemma set_present_entries: "(k, v) \<in> set (present_entries r) \<longleftrightarrow> (k, Some v) \<in> set r"
  by (induction r rule: present_entries.induct) auto

lemma sorted_present_entries:
  "sorted_wrt (<) (map fst r) \<Longrightarrow> sorted_wrt (<) (map fst (present_entries r))"
  by (induction r rule: present_entries.induct) (use fst_present_entries in fastforce)+

lemma length_present_entries: "length (present_entries r) \<le> length r"
  by (induction r rule: present_entries.induct) auto

lemma map_of_present_entries:
  "distinct (map fst r) \<Longrightarrow> map_of (present_entries r) k = (case map_of r k of None \<Rightarrow> None | Some v \<Rightarrow> v)"
proof (induction r rule: present_entries.induct)
  case (3 x r)
  then have p: "map_of (present_entries r) x = None" and n: "map_of r x = None"
    using fst_present_entries [of r] by (auto simp: map_of_eq_None_iff)
  with 3 show ?case by (cases "k = x") (simp_all add: p n)
qed auto

definition wire_layout :: "ParsedKommsEvent \<Rightarrow> (u8 \<times> cval option) list" where
  "wire_layout ev =
     [(0, Some (uint_val (ev_v ev))),
      (1, Some (uint_val (ucast (as_u8 (ev_t ev))))),
      (2, map_option Bytes (ev_sid ev)),
      (3, map_option Bytes (ev_cid ev)),
      (4, map_option Bytes (ev_did ev)),
      (5, map_option Bytes (ev_pid ev)),
      (6, map_option Bytes (ev_mid ev)),
      (7, map_option Bytes (ev_ref_bytes ev)),
      (8, Some (Bool (ev_enc ev))),
      (9, map_option uint_val (ev_ts ev)),
      (10, map_option uint_val (ev_n ev)),
      (11, map_option Bytes (ev_sig ev)),
      (12, map_option Bytes (ev_parent_mid ev)),
      (13, if ev_v ev \<noteq> 0 then map_option uint_val (ev_enc_scheme ev) else None),
      (14, map_option uint_val (ev_kind ev)),
      (15, map_option Text (ev_mime ev)),
      (16, map_option uint_val (ev_ref_type ev)),
      (17, map_option Bytes (ev_device_pk ev)),
      (18, map_option uint_val (ev_sig_scheme ev)),
      (19, map_option Bytes (ev_reaction_key ev)),
      (20, map_option Bytes (ev_payment_hint ev)),
      (21, map_option Bytes (ev_member_tag ev)),
      (22, map_option Bytes (ev_member_sealed ev)),
      (23, map_option Bytes (ev_enc_sid ev)),
      (24, map_option Bytes (ev_enc_cid ev)),
      (25, map_option Bytes (ev_enc_body_ref ev)),
      (26, map_option Bytes (ev_enc_parent_mid ev)),
      (27, map_option Bytes (ev_match_tag ev)),
      (28, map_option Bytes (ev_enc_t ev)),
      (29, map_option uint_val (ev_key_epoch ev)),
      (30, map_option Bytes (ev_sealed_signer ev)),
      (31, map_option (\<lambda>role. uint_val (ucast role)) (ev_role ev)),
      (32, map_option Bytes (ev_target ev))]"

lemma opt_pair_entries:
  "map (\<lambda>(k, v). (bk k, v)) (present_entries ((k, map_option f x) # r)) =
     opt_pair k f x @ map (\<lambda>(k, v). (bk k, v)) (present_entries r)"
  by (cases x) (simp_all add: opt_pair_def)

lemma gated_pair_entries:
  "map (\<lambda>(k, v). (bk k, v)) (present_entries ((k, if c then map_option f x else None) # r)) =
     (if c then opt_pair k f x else []) @ map (\<lambda>(k, v). (bk k, v)) (present_entries r)"
  by (cases x) (simp_all add: opt_pair_def)

definition event_entries :: "ParsedKommsEvent \<Rightarrow> (u8 \<times> cval) list" where
  "event_entries ev = present_entries (wire_layout ev) @ om_entries (ev_extension_fields ev)"

lemma event_pairs_entries: "event_pairs ev = map (\<lambda>(k, v). (bk k, v)) (event_entries ev)"
  by (simp only: event_pairs_def event_entries_def wire_layout_def map_append opt_pair_entries
      gated_pair_entries present_entries.simps list.map prod.case append_Cons append_Nil append_assoc)

lemma wire_layout_keys:
  "map fst (wire_layout ev) = [0, 1, 2, 3, 4, 5, 6, 7, 8, 9, 10, 11, 12, 13, 14, 15, 16, 17, 18,
     19, 20, 21, 22, 23, 24, 25, 26, 27, 28, 29, 30, 31, 32]"
  by (simp add: wire_layout_def)

lemma sorted_wire_layout: "sorted_wrt (<) (map fst (wire_layout ev))"
  unfolding wire_layout_keys by (simp add: word_less_nat_alt)

lemma wire_layout_core: "k \<in> fst ` set (wire_layout ev) \<Longrightarrow> k < EXTENSION_KEY_MIN"
  by (auto simp: wire_layout_def EXTENSION_KEY_MIN_def word_less_nat_alt)

definition ext_keys_ok :: "ParsedKommsEvent \<Rightarrow> bool" where
  "ext_keys_ok ev \<longleftrightarrow> (\<forall>(k, v)\<in>set (ev_extension_fields ev). EXTENSION_KEY_MIN \<le> k)"

lemma sorted_event_entries:
  assumes "om_ok (ev_extension_fields ev)" and "ext_keys_ok ev"
  shows "sorted_wrt (<) (map fst (event_entries ev))"
proof -
  have "k < k'" if "k \<in> fst ` set (present_entries (wire_layout ev))"
    "k' \<in> fst ` set (ev_extension_fields ev)" for k k'
  proof -
    from that(1) have "k < EXTENSION_KEY_MIN"
      using fst_present_entries [of "wire_layout ev"] wire_layout_core by blast
    moreover from that(2) assms(2) have "EXTENSION_KEY_MIN \<le> k'" by (auto simp: ext_keys_ok_def)
    ultimately show ?thesis by (rule less_le_trans)
  qed
  then show ?thesis
    using assms(1) sorted_present_entries [OF sorted_wire_layout]
    by (auto simp: event_entries_def om_entries_def sorted_wrt_append om_ok_def)
qed

lemma get_event_entries:
  assumes "om_ok (ev_extension_fields ev)" and "ext_keys_ok ev"
  shows "map_of (event_entries ev) k =
    (if k < EXTENSION_KEY_MIN then (case map_of (wire_layout ev) k of None \<Rightarrow> None | Some v \<Rightarrow> v)
     else om_get (ev_extension_fields ev) k)"
proof (cases "k < EXTENSION_KEY_MIN")
  case True
  then have "om_get (ev_extension_fields ev) k = None"
    using assms by (intro om_get_absent) (auto simp: ext_keys_ok_def)
  moreover have "distinct (map fst (wire_layout ev))"
    using sorted_wire_layout [of ev] by (simp add: strict_sorted_iff)
  ultimately show ?thesis
    using True by (auto simp: event_entries_def om_entries_def map_add_def map_of_present_entries
        om_get_map_of split: option.splits)
next
  case False
  then have "map_of (present_entries (wire_layout ev)) k = None"
    using fst_present_entries [of "wire_layout ev"] wire_layout_core [of k ev]
    by (auto simp: map_of_eq_None_iff)
  with False show ?thesis
    by (simp add: event_entries_def om_entries_def map_add_def om_get_map_of split: option.split)
qed

section \<open>Encoded events read back\<close>

text \<open>What the parser makes of the entries the encoder writes: key 13 of a v0 event is not
  written, and synthesised from \<open>enc\<close> when read.\<close>

definition as_parsed :: "ParsedKommsEvent \<Rightarrow> ParsedKommsEvent" where
  "as_parsed ev =
     (if ev_v ev = 0 then ev\<lparr>ev_enc_scheme := Some (if ev_enc ev then 1 else 0)\<rparr> else ev)"

lemma saturate_widen [simp]: "saturate_role (ucast r) = r"
  using wide_byte [of r] by (simp add: saturate_role_def word_less_nat_alt)

lemma map_option_saturate_widen [simp]: "map_option saturate_role (map_option ucast r) = r"
  by (cases r) auto

lemma fields_of_entries:
  assumes wf: "wf_event ev" and ext: "ext_keys_ok ev" and t: "from_u8 (as_u8 (ev_t ev)) = ev_t ev"
  shows "fields_of (as_parsed ev) (map_of (event_entries ev))"
proof -
  have ok: "om_ok (ev_extension_fields ev)" using wf by (simp add: wf_event_def)
  have get: "map_of (event_entries ev) k = (case map_of (wire_layout ev) k of None \<Rightarrow> None | Some v \<Rightarrow> v)"
    if "k < EXTENSION_KEY_MIN" for k
    using get_event_entries [OF ok ext, of k] that by simp
  have ext_get: "om_get (ev_extension_fields ev) k
      = (if EXTENSION_KEY_MIN \<le> k then map_of (event_entries ev) k else None)" for k
    using get_event_entries [OF ok ext, of k] ok ext
    by (auto simp: not_le ext_keys_ok_def intro!: om_get_absent)
  have ext_fun: "om_get (ev_extension_fields ev)
      = (\<lambda>k. if 33 \<le> k then map_of (event_entries ev) k else None)"
    using ext_get by (simp add: fun_eq_iff EXTENSION_KEY_MIN_def)
  have role: "\<exists>role. map_option (\<lambda>role. uint_val (ucast role)) (ev_role ev) = map_option uint_val role
      \<and> ev_role ev = map_option saturate_role role"
    by (intro exI [of _ "map_option ucast (ev_role ev)"]) (simp add: option.map_comp comp_def option.map_ident)
  have wf': "wf_event (ev\<lparr>ev_enc_scheme := s\<rparr>)" for s
    using wf by (simp add: wf_event_def)
  show ?thesis
    using wf t role
    by (simp add: fields_of_def field_layout_def as_parsed_def get wire_layout_def ext_fun [symmetric]
      wf' EXTENSION_KEY_MIN_def word_less_nat_alt synth_enc_scheme_def)
qed

text \<open>Conversely, the entries that parse to \<open>ev\<close> are the entries the encoder writes for \<open>ev\<close>,
  when a v0 event has no key 13 and the role fits in a byte.\<close>

lemma entries_of_fields:
  assumes f: "fields_of ev m" and v0: "ev_v ev = 0 \<Longrightarrow> m 13 = None"
    and role: "\<And>u. m 31 = Some (uint_val u) \<Longrightarrow> u \<le> 0xFF"
  shows "map_of (event_entries ev) = m" and "ext_keys_ok ev"
proof -
  have ok: "om_ok (ev_extension_fields ev)" using f by (simp add: fields_of_def wf_event_def)
  have ext_get: "om_get (ev_extension_fields ev) k = (if EXTENSION_KEY_MIN \<le> k then m k else None)" for k
    using f by (simp add: fields_of_def)
  show keys: "ext_keys_ok ev"
    unfolding ext_keys_ok_def
  proof (clarify)
    fix k v assume "(k, v) \<in> set (ev_extension_fields ev)"
    then have "om_get (ev_extension_fields ev) k = Some v"
      using btree.get_Some_iff [OF ok] by (simp add: om_entries_def)
    with ext_get [of k] show "EXTENSION_KEY_MIN \<le> k" by (auto split: if_splits)
  qed
  from f obtain r where r: "m 31 = map_option uint_val r" "ev_role ev = map_option saturate_role r"
    by (auto simp: fields_of_def)
  have r': "map_option (\<lambda>role. uint_val (ucast role)) (ev_role ev) = m 31"
    using r role by (cases r) (auto simp: saturate_role_def not_less word_le_nat_alt word_less_nat_alt widen_narrow)
  have s': "(if ev_v ev \<noteq> 0 then map_option uint_val (ev_enc_scheme ev) else None) = m 13"
    using f v0 by (auto simp: fields_of_def synth_enc_scheme_def)
  have core: "map_of (wire_layout ev) k = Some (m k)" if "k < EXTENSION_KEY_MIN" for k
    using core_key_cases [OF that] f
    by (auto simp: wire_layout_def r' s' fields_of_def field_layout_def)
  show "map_of (event_entries ev) = m"
    by (rule ext) (simp add: get_event_entries [OF ok keys] core ext_get not_less)
qed

section \<open>Identifiers and content references\<close>

lemma dm_thread_id_commute: "dm_thread_id sha256 a b = dm_thread_id sha256 b a"
  by (auto simp: dm_thread_id_def sha256_domain_def not_less dest: order.antisym)

text \<open>The string hashed for the thread of two addresses.\<close>

definition thread_input :: "bytes \<Rightarrow> bytes \<Rightarrow> bytes" where
  "thread_input a b = ascii ''KOMMS_DM_V0'' @ min a b @ max a b"

lemma dm_thread_id_input: "dm_thread_id sha256 a b = sha256 (thread_input a b)"
  by (auto simp: dm_thread_id_def sha256_domain_def thread_input_def min_def max_def not_less
      dest: order.antisym)

lemma thread_input_inject:
  assumes "length a = n" and "length b = n" and "length c = n" and "length d = n"
  shows "thread_input a b = thread_input c d \<longleftrightarrow> {a, b} = {c, d}"
  using assms by (auto simp: thread_input_def min_def max_def doubleton_eq_iff append_eq_append_conv)

text \<open>
  The direct-message thread id does not depend on who is named first, and two pairs of addresses
  of one length share a thread id only if they are the same two addresses, as long as SHA-256
  does not collide on the two strings hashed.
\<close>
lemma dm_thread_id_pair:
  assumes "length a = n" and "length b = n" and "length c = n" and "length d = n"
    and "inj_on sha256 {thread_input a b, thread_input c d}"
  shows "dm_thread_id sha256 a b = dm_thread_id sha256 b a \<and>
    (dm_thread_id sha256 a b = dm_thread_id sha256 c d \<longleftrightarrow> {a, b} = {c, d})"
  using assms(5) thread_input_inject [OF assms(1-4)] dm_thread_id_commute [of sha256 a b]
  by (auto simp: dm_thread_id_input dest: inj_onD)

lemma dm_thread_id_pair_example:
  "dm_thread_id (\<lambda>x. x) [1, 2] [3, 4] = dm_thread_id (\<lambda>x. x) [3, 4] [1, 2]"
  using dm_thread_id_pair [of "[1, 2]" 2 "[3, 4]" "[1, 2]" "[3, 4]" "\<lambda>x. x"] by simp

text \<open>The two reference builders produce references that \<open>validate_ref\<close> accepts.\<close>

lemma ref_builders_valid:
  "ref_from_cid_str [] = Inl EmptyCid"
  "utf8_valid cid \<Longrightarrow> ref_from_cid_str cid = Inr r \<Longrightarrow> validate_ref r = Inr () \<and> r = 0x01 # cid"
  "length hash = 32 \<longleftrightarrow> validate_ref (ref_from_content_hash hash) = Inr ()"
  by (auto simp: ref_from_cid_str_def ref_from_content_hash_def check_simps split: if_splits)

end
