(* ===== verification/Payload.thy ===== *)
theory Payload
  imports Encode
begin

text \<open>
  The wire entry points of \<open>protocol/src/lib.rs\<close>: \<open>strip_komms_envelope\<close>,
  \<open>parse_komms_payload\<close> and \<open>parse_komms_payload_with_future\<close>, and the properties that tie the
  gate, the parser, the validator and the encoder together. They hold for every CBOR library
  that satisfies \<open>cbor_codec\<close>.
\<close>

definition strip_komms_envelope :: "bytes \<Rightarrow> bytes option" where
  "strip_komms_envelope raw =
     (if take (length KOMMS_PAYLOAD_PREFIX) raw = KOMMS_PAYLOAD_PREFIX
      then Some (drop (length KOMMS_PAYLOAD_PREFIX) raw) else None)"

definition parse_komms_payload ::
  "(bytes \<Rightarrow> string + cval) \<Rightarrow> bytes \<Rightarrow> KommsPayloadError + ParsedKommsEvent" where
  "parse_komms_payload de raw =
     bindE (ok_or (strip_komms_envelope raw) MissingPrefix) (\<lambda>cbor.
     bindE (map_err NonCanonical (validate_canonical cbor)) (\<lambda>_.
     bindE (map_err ParseErr (parse_cbor_map de cbor)) (\<lambda>ev.
     if ev_v ev > MAX_KNOWN_VERSION then Inl (UnsupportedVersion (ev_v ev)) else
     bindE (map_err ValidationErr (validate_event ev)) (\<lambda>_. Inr ev))))"

definition parse_komms_payload_with_future ::
  "(bytes \<Rightarrow> string + cval) \<Rightarrow> bytes \<Rightarrow> KommsPayloadError + ParsedPayload" where
  "parse_komms_payload_with_future de raw =
     bindE (ok_or (strip_komms_envelope raw) MissingPrefix) (\<lambda>cbor.
     bindE (map_err NonCanonical (validate_canonical cbor)) (\<lambda>_.
     bindE (map_err ParseErr (parse_cbor_map de cbor)) (\<lambda>ev.
     if ev_v ev > MAX_KNOWN_VERSION then Inr (Future (ev_v ev) cbor) else
     (case validate_event ev of
        Inr _ \<Rightarrow> Inr (Known ev)
      | Inl (OpaqueEventType _) \<Rightarrow> Inr (Opaque ev cbor)
      | Inl other \<Rightarrow> Inl (ValidationErr other)))))"

lemma strip_prefix: "strip_komms_envelope raw = Some cbor \<longleftrightarrow> raw = KOMMS_PAYLOAD_PREFIX @ cbor"
  by (auto simp: strip_komms_envelope_def) (metis append_take_drop_id)

lemma strip_prefix_append [simp]: "strip_komms_envelope (KOMMS_PAYLOAD_PREFIX @ cbor) = Some cbor"
  by (simp add: strip_prefix)

section \<open>The two entry points agree\<close>

text \<open>
  C32: the two wire parsers agree: the lenient one returns \<open>Known\<close> exactly for the events the
  strict one returns; it returns \<open>Future\<close> exactly where the strict one reports an unsupported
  version; and every error of the lenient one is the strict one's error on the same bytes.
\<close>
theorem parse_with_future_agrees:
  "(parse_komms_payload_with_future de raw = Inr (Known ev) \<longleftrightarrow> parse_komms_payload de raw = Inr ev) \<and>
   (parse_komms_payload_with_future de raw = Inr (Future v cbor) \<longleftrightarrow>
      parse_komms_payload de raw = Inl (UnsupportedVersion v) \<and> raw = KOMMS_PAYLOAD_PREFIX @ cbor) \<and>
   ((\<exists>ev. parse_komms_payload_with_future de raw = Inr (Opaque ev cbor)) \<longleftrightarrow>
      (\<exists>t. parse_komms_payload de raw = Inl (ValidationErr (OpaqueEventType t))) \<and>
      raw = KOMMS_PAYLOAD_PREFIX @ cbor) \<and>
   (parse_komms_payload_with_future de raw = Inl e \<longleftrightarrow>
      parse_komms_payload de raw = Inl e \<and> (\<nexists>v. e = UnsupportedVersion v) \<and>
      (\<nexists>t. e = ValidationErr (OpaqueEventType t)))"
proof (cases "strip_komms_envelope raw")
  case None
  then have "raw \<noteq> KOMMS_PAYLOAD_PREFIX @ c" for c using strip_prefix [of raw c] by simp
  with None show ?thesis
    by (auto simp: parse_komms_payload_def parse_komms_payload_with_future_def)
next
  case (Some c)
  then have raw: "raw = KOMMS_PAYLOAD_PREFIX @ c" by (simp add: strip_prefix)
  show ?thesis
  proof (cases "bindE (map_err NonCanonical (validate_canonical c)) (\<lambda>_.
      map_err ParseErr (parse_cbor_map de c))")
    case (Inl d)
    then show ?thesis
      unfolding parse_komms_payload_def parse_komms_payload_with_future_def raw
      by (cases "validate_canonical c"; cases "parse_cbor_map de c") auto
  next
    case (Inr ev')
    then have "validate_canonical c = Inr ()" "parse_cbor_map de c = Inr ev'"
      by (auto simp: result_simps)
    then show ?thesis
      unfolding parse_komms_payload_def parse_komms_payload_with_future_def raw
      by (cases "validate_event ev'") (auto split: ValidationError.split)
  qed
qed

section \<open>Events the encoder can write\<close>

text \<open>\<open>encodable ev\<close>: the extension fields are profile values under extension keys, and no byte
  string reaches \<open>2 ^ 64\<close> bytes (which no Rust slice does).\<close>

fun sized_val :: "cval \<Rightarrow> bool" where
  "sized_val (Bytes b) = (length b < 2 ^ 64)"
| "sized_val (Text b) = (length b < 2 ^ 64)"
| "sized_val _ = True"

definition encodable :: "ParsedKommsEvent \<Rightarrow> bool" where
  "encodable ev \<longleftrightarrow>
     (\<forall>(k, v)\<in>set (ev_extension_fields ev). EXTENSION_KEY_MIN \<le> k \<and> prof 1 v) \<and>
     (\<forall>(k, v)\<in>set (wire_layout ev). \<forall>x. v = Some x \<longrightarrow> sized_val x)"

lemma encodable_keys: "encodable ev \<Longrightarrow> ext_keys_ok ev"
  by (auto simp: encodable_def ext_keys_ok_def)

lemma valid_mime: "validate_event ev = Inr () \<Longrightarrow> ev_mime ev = Some m \<Longrightarrow> is_ascii m"
  using valid_parts(1) by (auto simp: envelope_ok_def)

lemma Some_map_option: "Some y = map_option f x \<longleftrightarrow> (\<exists>z. x = Some z \<and> y = f z)"
  by (cases x) auto

lemma prof_wire_layout:
  assumes "(k, Some v) \<in> set (wire_layout ev)" and "sized_val v"
    and "\<And>m. ev_mime ev = Some m \<Longrightarrow> is_ascii m"
  shows "prof 1 v"
proof -
  have v: "(\<exists>u. v = uint_val u) \<or> (\<exists>b. v = Bytes b) \<or> (\<exists>b. v = Bool b) \<or>
      (\<exists>m. v = Text m \<and> ev_mime ev = Some m)"
    using assms(1) by (auto simp: wire_layout_def Some_map_option split: if_splits)
  then show ?thesis
    using assms(2,3) by (auto simp: uint_val_def MAX_NESTING_DEPTH_def intro!: prof_uint prof_Bytes
        prof_Bool prof_Text ascii_utf8_valid)
qed

lemma prof_entry:
  assumes "\<And>m. ev_mime ev = Some m \<Longrightarrow> is_ascii m" and "encodable ev" and "(k, v) \<in> set (event_entries ev)"
  shows "prof 1 v"
proof -
  from assms(3) consider "(k, Some v) \<in> set (wire_layout ev)" | "(k, v) \<in> set (ev_extension_fields ev)"
    by (auto simp: event_entries_def om_entries_def set_present_entries)
  then show ?thesis
  proof cases
    case 1
    then show ?thesis using assms(1,2) prof_wire_layout [of k v ev] by (auto simp: encodable_def)
  next
    case 2
    then show ?thesis using assms(2) by (auto simp: encodable_def)
  qed
qed

lemma prof_event_pairs:
  assumes "validate_event ev = Inr ()" and "wf_event ev" and "encodable ev"
  shows "prof 0 (Map (event_pairs ev))"
  unfolding event_pairs_entries bk_def
proof (rule prof_Map)
  show "sorted_wrt (<) (map fst (event_entries ev))"
    using assms(2,3) by (intro sorted_event_entries encodable_keys) (simp_all add: wf_event_def)
  show "prof (0 + 1) v" if "(k, v) \<in> set (event_entries ev)" for k v
    using prof_entry [OF valid_mime [OF assms(1)] assms(3) that] by simp
qed (simp add: MAX_NESTING_DEPTH_def)

lemma encode_cbor_map_Inr:
  "encode_cbor_map ser ev = Inr cbor \<longleftrightarrow>
     validate_event ev = Inr () \<and> cbor = ser (Map (event_pairs ev))"
proof -
  have "validate_ref r = Inr ()" if "validate_event ev = Inr ()" "ev_ref_bytes ev = Some r" for r
    using valid_parts(1) [OF that(1)] that(2) by (auto simp: envelope_ok_def ref_ok_def check_simps)
  then show ?thesis
    by (auto simp: encode_cbor_map_def bindE_Inr_iff split: option.splits)
qed

text \<open>The entries of the encoded map, keyed by bytes.\<close>

lemma entry_keys_pairs: "entry_keys (map (\<lambda>(k, v). (bk k, v)) kvs) (map fst kvs)"
  by (induction kvs) (auto simp: bk_def uint_up_ucast is_up)

lemma valid_known: "validate_event ev = Inr () \<Longrightarrow> from_u8 (as_u8 (ev_t ev)) = ev_t ev"
  using valid_parts(3) by (auto simp: row_ok_def intro: from_u8_as_u8_known)

lemma parse_encoded:
  assumes "de cbor = Inr (Map (event_pairs ev))" and "validate_event ev = Inr ()"
    and "wf_event ev" and "encodable ev"
  shows "parse_cbor_map de cbor = Inr (as_parsed ev)"
proof -
  have s: "sorted_wrt (<) (map fst (event_entries ev))"
    using assms(3,4) by (intro sorted_event_entries encodable_keys) (simp_all add: wf_event_def)
  have z: "zip (map fst (event_entries ev)) (map snd (event_pairs ev)) = event_entries ev"
    by (simp add: event_pairs_entries comp_def case_prod_beta zip_map_fst_snd)
  have "fields_of (as_parsed ev) (map_of (event_entries ev))"
    using assms by (intro fields_of_entries encodable_keys valid_known)
  with s show ?thesis
    unfolding parse_cbor_map_spec
    by (intro exI [of _ "event_pairs ev"] exI [of _ "map fst (event_entries ev)"] conjI)
      (simp_all add: assms(1) z entry_keys_pairs event_pairs_entries [symmetric] strict_sorted_iff,
        simp add: event_pairs_entries entry_keys_pairs)
qed

text \<open>Parsing what the encoder wrote: the gate opens, the parser returns \<open>as_parsed ev\<close>, and only
  the validation of that event decides.\<close>

lemma parse_of_encode:
  assumes "cbor_codec ser de" and "wf_event ev" and "encodable ev"
    and enc: "encode_komms_payload ser ev = Inr raw" and len: "length raw < 2 ^ 64"
  shows "parse_komms_payload de raw
           = bindE (map_err ValidationErr (validate_event (as_parsed ev))) (\<lambda>_. Inr (as_parsed ev))"
proof -
  from enc obtain cbor where raw: "raw = KOMMS_PAYLOAD_PREFIX @ cbor"
    and valid: "validate_event ev = Inr ()" and cbor: "cbor = ser (Map (event_pairs ev))"
    by (auto simp: encode_komms_payload_def bindE_Inr_iff encode_cbor_map_Inr)
  note prof = prof_event_pairs [OF valid assms(2,3)]
  have "validate_canonical cbor = Inr ()"
    using cbor_codec.ser_prof_canonical [OF assms(1) prof] len by (simp add: raw cbor)
  moreover have "parse_cbor_map de cbor = Inr (as_parsed ev)"
    using cbor_codec.de_ser_prof [OF assms(1) prof] valid assms(2,3)
    by (intro parse_encoded) (simp_all add: cbor)
  moreover have "\<not> MAX_KNOWN_VERSION < ev_v (as_parsed ev)"
    using valid_version [OF valid] by (simp add: as_parsed_def not_less)
  ultimately show ?thesis
    by (simp add: parse_komms_payload_def raw)
qed

lemma valid_as_parsed:
  assumes valid: "validate_event ev = Inr ()" and g: "ev_v ev = 0 \<Longrightarrow> ev_enc_scheme ev \<noteq> Some 4"
  shows "validate_event (as_parsed ev) = Inr ()"
proof (cases "ev_v ev = 0")
  case True
  note parts = valid_parts [OF valid]
  have "envelope_ok (as_parsed ev)" "scheme_ok (as_parsed ev)"
    using parts(1,2) True by (auto simp: envelope_ok_def scheme_ok_def as_parsed_def)
  moreover have "row_ok (as_parsed ev)"
    using parts(3) True g by (cases "ev_t ev") (auto simp: row_ok_def as_parsed_def)
  ultimately show ?thesis by (rule valid_I)
next
  case False
  with valid show ?thesis by (simp add: as_parsed_def)
qed

text \<open>
  C1: what the wire parser makes of what the encoder emits. For an event whose extension fields
  are values of the CBOR profile under keys from 33 on and whose byte strings are below
  \<open>2 ^ 64\<close> bytes (\<open>encodable\<close>; the encoder does not check the former, see \<open>Encode_Limits\<close>), the
  parser returns the event with the \<open>enc_scheme\<close> of a version-0 event replaced by what \<open>enc\<close>
  says (v0 bytes do not carry key 13), if that event is valid, and otherwise refuses with the
  error of its validation. From version 1 on the event is returned unchanged, and a version-0
  event is refused only if its \<open>enc_scheme\<close> is 4.
\<close>
theorem encode_parse_roundtrip:
  assumes "cbor_codec ser de" and "wf_event ev" and "encodable ev"
    and "encode_komms_payload ser ev = Inr raw" and "length raw < 2 ^ 64"
  shows "parse_komms_payload de raw =
      (case validate_event (as_parsed ev) of
         Inr _ \<Rightarrow> Inr (as_parsed ev)
       | Inl e \<Rightarrow> Inl (ValidationErr e)) \<and>
    (ev_v ev \<noteq> 0 \<longrightarrow> parse_komms_payload de raw = Inr ev) \<and>
    (ev_v ev = 0 \<and> ev_enc_scheme ev \<noteq> Some 4 \<longrightarrow>
       parse_komms_payload de raw = Inr (ev\<lparr>ev_enc_scheme := Some (if ev_enc ev then 1 else 0)\<rparr>))"
proof (intro conjI impI)
  note parse = parse_of_encode [OF assms]
  have "validate_event ev = Inr ()"
    using assms(4) by (auto simp: encode_komms_payload_def bindE_Inr_iff encode_cbor_map_Inr)
  then have ok: "validate_event (as_parsed ev) = Inr ()" if "ev_v ev = 0 \<Longrightarrow> ev_enc_scheme ev \<noteq> Some 4"
    using that by (rule valid_as_parsed)
  show "parse_komms_payload de raw = (case validate_event (as_parsed ev) of
      Inr _ \<Rightarrow> Inr (as_parsed ev) | Inl e \<Rightarrow> Inl (ValidationErr e))"
    unfolding parse by (simp split: sum.split)
  show "parse_komms_payload de raw = Inr ev" if "ev_v ev \<noteq> 0"
    using parse ok that by (simp add: as_parsed_def)
  show "parse_komms_payload de raw = Inr (ev\<lparr>ev_enc_scheme := Some (if ev_enc ev then 1 else 0)\<rparr>)"
    if "ev_v ev = 0 \<and> ev_enc_scheme ev \<noteq> Some 4"
    using parse ok that by (simp add: as_parsed_def)
qed

text \<open>A version-1 direct message through the codec of \<open>Cbor_Value\<close>.\<close>

lemma wf_sample_dm: "wf_event sample_dm" "encodable sample_dm"
  by (simp_all add: sample_dm_def default_event_def wf_event_def encodable_def wire_layout_def
      om_empty_def om_ok_def uint_val_def)

definition sample_dm_raw :: bytes where
  "sample_dm_raw = KOMMS_PAYLOAD_PREFIX @ rfc_ser (Map (event_pairs sample_dm))"

lemma encode_sample_dm: "encode_komms_payload rfc_ser sample_dm = Inr sample_dm_raw"
  by (simp add: encode_komms_payload_def bindE_Inr_iff encode_cbor_map_Inr valid_sample_dm
      sample_dm_raw_def)

lemmas wire_simps = rfc_ser_def event_pairs_def default_event_def opt_pair_def bk_def
  uint_val_def om_empty_def om_entries_def KOMMS_PAYLOAD_PREFIX_def

lemma length_sample_dm_raw: "length sample_dm_raw < 2 ^ 64"
  by (simp add: sample_dm_raw_def sample_dm_def wire_simps encode_cbor_uint_header_def)

text \<open>A version-0 post that is group-encrypted.\<close>

definition sample_v0_group :: ParsedKommsEvent where
  "sample_v0_group = default_event \<lparr> ev_t := MessagePost, ev_enc_scheme := Some 4,
     ev_match_tag := Some (replicate 16 1), ev_key_epoch := Some 1, ev_enc_sid := Some [1],
     ev_enc_cid := Some [2], ev_enc_body_ref := Some [3] \<rparr>"

lemma valid_sample_v0_group: "validate_event sample_v0_group = Inr ()"
  by (rule valid_I) (simp_all add: sample_v0_group_def default_event_def row_defs)

lemma wf_sample_v0_group: "wf_event sample_v0_group" "encodable sample_v0_group"
  by (simp_all add: sample_v0_group_def default_event_def wf_event_def encodable_def
      wire_layout_def om_empty_def om_ok_def uint_val_def)

lemma refused_sample_v0_group:
  "validate_event (as_parsed sample_v0_group)
     = Inl (MissingForType MessagePost ''sid|enc_sid'')"
  by (simp add: validate_event_def validate_envelope_def validate_enc_scheme_def
      validate_sealed_sender_def validate_group_encrypted_def type_checks_def
      message_post_checks_def sample_v0_group_def as_parsed_def default_event_def check_not_def
      group_encrypted_def has_sid_def require_def MAX_KNOWN_VERSION_def)

text \<open>
  The encoder can emit a payload that this crate refuses to parse: a version-0 event with
  \<open>enc_scheme = 4\<close> passes the validation before encoding, but key 13 is not written for
  version 0, so the parser reads the scheme as 0 and finds the server id missing.
\<close>
lemma encode_emits_refused_payload:
  assumes "cbor_codec ser de" and "encode_komms_payload ser sample_v0_group = Inr raw"
    and "length raw < 2 ^ 64"
  shows "parse_komms_payload de raw
           = Inl (ValidationErr (MissingForType MessagePost ''sid|enc_sid''))"
  using parse_of_encode [OF assms(1) wf_sample_v0_group assms(2,3)] refused_sample_v0_group by simp

definition sample_v0_raw :: bytes where
  "sample_v0_raw = KOMMS_PAYLOAD_PREFIX @ rfc_ser (Map (event_pairs sample_v0_group))"

lemma encode_sample_v0: "encode_komms_payload rfc_ser sample_v0_group = Inr sample_v0_raw"
  by (simp add: encode_komms_payload_def bindE_Inr_iff encode_cbor_map_Inr valid_sample_v0_group
      sample_v0_raw_def)

lemma length_sample_v0_raw: "length sample_v0_raw < 2 ^ 64"
  by (simp add: sample_v0_raw_def sample_v0_group_def wire_simps encode_cbor_uint_header_def)

lemma encode_emits_refused_sample:
  "parse_komms_payload rfc_de sample_v0_raw
     = Inl (ValidationErr (MissingForType MessagePost ''sid|enc_sid''))"
  by (rule encode_emits_refused_payload [OF rfc.cbor_codec_axioms encode_sample_v0 length_sample_v0_raw])

lemma as_parsed_sample_dm: "as_parsed sample_dm = sample_dm"
  by (simp add: sample_dm_def as_parsed_def)

theorem encode_parse_roundtrip_witness:
  "parse_komms_payload rfc_de sample_dm_raw = Inr sample_dm \<and>
   parse_komms_payload rfc_de sample_v0_raw
     = Inl (ValidationErr (MissingForType MessagePost ''sid|enc_sid''))"
  using encode_parse_roundtrip [OF rfc.cbor_codec_axioms wf_sample_dm encode_sample_dm
      length_sample_dm_raw]
    encode_parse_roundtrip [OF rfc.cbor_codec_axioms wf_sample_v0_group encode_sample_v0
      length_sample_v0_raw]
  by (simp add: refused_sample_v0_group as_parsed_sample_dm valid_sample_dm)

section \<open>What the signature covers\<close>

lemma unsigned_event: "wf_event ev \<Longrightarrow> wf_event (ev\<lparr>ev_sig := None\<rparr>)"
  "encodable ev \<Longrightarrow> encodable (ev\<lparr>ev_sig := None\<rparr>)"
  by (simp_all add: wf_event_def encodable_def wire_layout_def)

lemma signing_payload_same:
  assumes "cbor_codec ser de" and "wf_event ev" and "encodable ev" and "wf_event ev'" and "encodable ev'"
    and "signing_payload_cbor ser ev = Inr cbor" and "signing_payload_cbor ser ev' = Inr cbor"
  shows "as_parsed (ev\<lparr>ev_sig := None\<rparr>) = as_parsed (ev'\<lparr>ev_sig := None\<rparr>)"
proof -
  have "parse_cbor_map de cbor = Inr (as_parsed (x\<lparr>ev_sig := None\<rparr>))"
    if "wf_event x" "encodable x" "signing_payload_cbor ser x = Inr cbor" for x
  proof -
    let ?x = "x\<lparr>ev_sig := None\<rparr>"
    have wf: "wf_event ?x" "encodable ?x" using that(1,2) by (simp_all add: unsigned_event)
    have valid: "validate_event ?x = Inr ()" and cbor: "cbor = ser (Map (event_pairs ?x))"
      using that(3) by (simp_all add: signing_payload_cbor_def encode_cbor_map_Inr)
    show ?thesis
      using cbor_codec.de_ser_prof [OF assms(1) prof_event_pairs [OF valid wf]] valid wf
      by (intro parse_encoded) (simp_all add: cbor)
  qed
  from this [OF assms(2,3,6)] this [OF assms(4,5,7)] show ?thesis by simp
qed

lemma as_parsed_eq_iff:
  "as_parsed a = as_parsed b \<longleftrightarrow>
     b = a\<lparr>ev_enc_scheme := if ev_v a = 0 then ev_enc_scheme b else ev_enc_scheme a\<rparr>"
  by (cases a; cases b) (auto simp: as_parsed_def)

text \<open>Two events that differ at most in the signature and, at version 0, in \<open>enc_scheme\<close>.\<close>

lemma unsigned_eq_iff:
  "as_parsed (ev\<lparr>ev_sig := None\<rparr>) = as_parsed (ev'\<lparr>ev_sig := None\<rparr>) \<longleftrightarrow>
     ev' = ev\<lparr>ev_sig := ev_sig ev', ev_enc_scheme := if ev_v ev = 0 then ev_enc_scheme ev' else ev_enc_scheme ev\<rparr>"
  unfolding as_parsed_eq_iff by (cases ev; cases ev') auto

lemma event_pairs_as_parsed: "event_pairs (as_parsed ev) = event_pairs ev"
  by (simp add: as_parsed_def event_pairs_def)

lemma signing_payload_Inr:
  "signing_payload_cbor ser ev = Inr cbor \<longleftrightarrow>
     validate_event (ev\<lparr>ev_sig := None\<rparr>) = Inr () \<and> cbor = ser (Map (event_pairs (ev\<lparr>ev_sig := None\<rparr>)))"
  by (simp add: signing_payload_cbor_def encode_cbor_map_Inr)

lemma signing_payload_eq_iff:
  assumes "cbor_codec ser de" and "wf_event ev" and "encodable ev" and "wf_event ev'" and "encodable ev'"
    and "signing_payload_cbor ser ev = Inr msg" and "signing_payload_cbor ser ev' = Inr msg'"
  shows "msg = msg' \<longleftrightarrow>
    ev' = ev\<lparr>ev_sig := ev_sig ev', ev_enc_scheme := if ev_v ev = 0 then ev_enc_scheme ev' else ev_enc_scheme ev\<rparr>"
  unfolding unsigned_eq_iff [symmetric]
proof
  assume "msg = msg'"
  then show "as_parsed (ev\<lparr>ev_sig := None\<rparr>) = as_parsed (ev'\<lparr>ev_sig := None\<rparr>)"
    using signing_payload_same [OF assms(1-5)] assms(6,7) by blast
next
  assume "as_parsed (ev\<lparr>ev_sig := None\<rparr>) = as_parsed (ev'\<lparr>ev_sig := None\<rparr>)"
  then have "event_pairs (ev\<lparr>ev_sig := None\<rparr>) = event_pairs (ev'\<lparr>ev_sig := None\<rparr>)"
    by (metis event_pairs_as_parsed)
  then show "msg = msg'" using assms(6,7) by (simp add: signing_payload_Inr)
qed

text \<open>
  C19: the bytes a signature covers determine the event up to the signature. For two events that
  have signing payloads and whose extension fields are values of the CBOR profile under keys
  from 33 on, with byte strings below \<open>2 ^ 64\<close> bytes (\<open>encodable\<close>), the payloads are equal
  exactly when the events agree in every field except the signature and, at version 0 only,
  \<open>enc_scheme\<close>, which v0 bytes do not carry. (An extension entry stored under a core key is
  written like the core field itself and is not covered: lemma
  \<open>Encode_Limits.extension_forges_target\<close>.)
\<close>
theorem signing_payload_binds:
  assumes "cbor_codec ser de" and "wf_event ev" and "encodable ev" and "wf_event ev'" and "encodable ev'"
    and "signing_payload_cbor ser ev = Inr msg" and "signing_payload_cbor ser ev' = Inr msg'"
  shows "msg = msg' \<longleftrightarrow>
    ev' = ev\<lparr>ev_sig := ev_sig ev', ev_enc_scheme := if ev_v ev = 0 then ev_enc_scheme ev' else ev_enc_scheme ev\<rparr>"
  by (rule signing_payload_eq_iff [OF assms])

text \<open>Signing the direct message does not change its signing payload; moving its time stamp does.\<close>

lemma unsigned_sample_dm:
  "validate_event (sample_dm\<lparr>ev_sig := None\<rparr>) = Inr ()"
  "validate_event (sample_dm\<lparr>ev_ts := Some 5, ev_sig := None\<rparr>) = Inr ()"
  by (rule valid_I; simp add: sample_dm_def default_event_def row_defs)+

lemma wf_sample_dm_variants:
  "wf_event (sample_dm\<lparr>ev_sig := Some (replicate 64 9)\<rparr>)" "wf_event (sample_dm\<lparr>ev_ts := Some t\<rparr>)"
  "encodable (sample_dm\<lparr>ev_sig := Some (replicate 64 9)\<rparr>)" "encodable (sample_dm\<lparr>ev_ts := Some t\<rparr>)"
  using wf_sample_dm by (simp_all add: wf_event_def encodable_def wire_layout_def uint_val_def)

theorem signing_payload_binds_witness:
  "signing_payload_cbor rfc_ser (sample_dm\<lparr>ev_sig := Some (replicate 64 9)\<rparr>) = signing_payload_cbor rfc_ser sample_dm \<and>
   signing_payload_cbor rfc_ser (sample_dm\<lparr>ev_ts := Some 5\<rparr>) \<noteq> signing_payload_cbor rfc_ser sample_dm"
proof -
  let ?pay = "\<lambda>ev. rfc_ser (Map (event_pairs (ev\<lparr>ev_sig := None\<rparr>)))"
  let ?signed = "sample_dm\<lparr>ev_sig := Some (replicate 64 9)\<rparr>" and ?later = "sample_dm\<lparr>ev_ts := Some 5\<rparr>"
  have p: "signing_payload_cbor rfc_ser sample_dm = Inr (?pay sample_dm)"
    "signing_payload_cbor rfc_ser ?signed = Inr (?pay ?signed)"
    "signing_payload_cbor rfc_ser ?later = Inr (?pay ?later)"
    using unsigned_sample_dm by (simp_all add: signing_payload_Inr)
  note binds = signing_payload_binds [OF rfc.cbor_codec_axioms wf_sample_dm]
  have "?pay sample_dm = ?pay ?signed"
    using binds [OF wf_sample_dm_variants(1,3) p(1,2)] by simp
  moreover have "?pay sample_dm \<noteq> ?pay ?later"
  proof
    assume "?pay sample_dm = ?pay ?later"
    then have "ev_ts ?later = ev_ts (sample_dm\<lparr>ev_sig := ev_sig ?later, ev_enc_scheme :=
        if ev_v sample_dm = 0 then ev_enc_scheme ?later else ev_enc_scheme sample_dm\<rparr>)"
      unfolding binds [OF wf_sample_dm_variants(2,4) p(1,3)] by (rule arg_cong)
    then show False by (simp add: sample_dm_def)
  qed
  ultimately show ?thesis using p by simp
qed

section \<open>Accepted bytes re-encode to themselves\<close>

lemma bk_eq: "bk k = Integer (uint k)"
  by (simp add: bk_def uint_up_ucast is_up)

lemma entries_of_keys:
  "entry_keys entries ks \<Longrightarrow> map (\<lambda>(k, v). (bk k, v)) (zip ks (map snd entries)) = entries"
proof (induction entries arbitrary: ks)
  case (Cons e entries)
  then show ?case by (cases e) (auto simp: bk_eq)
qed simp

lemma Dict_keys:
  fixes kvs :: "(u64 \<times> item) list"
  assumes "entry_keys (map (\<lambda>(k, v). (Integer (uint k), value_of v)) kvs) ks"
  shows "map fst kvs = map ucast ks"
  using assms
proof (induction kvs arbitrary: ks)
  case (Cons kv kvs)
  obtain k v where kv: "kv = (k, v)" by (cases kv)
  with Cons.prems obtain b ks' where b: "ks = b # ks'" "uint k = uint b"
    and ks': "entry_keys (map (\<lambda>(k, v). (Integer (uint k), value_of v)) kvs) ks'"
    by auto
  have "uint k = uint (ucast b :: u64)" using b(2) by (simp add: uint_up_ucast is_up)
  then have "k = ucast b" by (simp only: word_eq_iff_unsigned [where 'a = int])
  with Cons.IH [OF ks'] b kv show ?case by simp
qed simp

text \<open>What the parsed map holds at a key is the value of an entry on the wire.\<close>

lemma wire_lookup:
  fixes kvs :: "(u64 \<times> item) list" and ks :: "u8 list"
  assumes fst: "map fst kvs = map ucast ks"
    and get: "map_of (zip ks (map snd (map (\<lambda>(k, v). (Integer (uint k), value_of v)) kvs))) k = Some v"
  shows "\<exists>w. (ucast k, w) \<in> set kvs \<and> value_of w = v"
proof -
  have len: "length ks = length kvs" using fst by (metis length_map)
  from get have "(k, v) \<in> set (zip ks (map snd (map (\<lambda>(k, v). (Integer (uint k), value_of v)) kvs)))"
    by (rule map_of_SomeD)
  then obtain i where i: "i < length kvs" "ks ! i = k" "value_of (snd (kvs ! i)) = v"
    using len by (auto simp: set_zip case_prod_beta)
  then have "fst (kvs ! i) = ucast k" using fst len by (metis length_map nth_map)
  then have "kvs ! i = (ucast k, snd (kvs ! i))" by (simp add: prod_eq_iff)
  with i show ?thesis by (metis nth_mem)
qed

lemma sorted_narrow: "sorted_wrt (<) (map (ucast :: u8 \<Rightarrow> u64) ks) \<Longrightarrow> sorted_wrt (<) ks"
  by (induction ks) (auto simp: word_less_nat_alt)

text \<open>What an accepted payload says of the event it parses to: the map of the entries on the
  wire reads as the event.\<close>

lemma parsed_fields:
  assumes "cbor_codec ser de" and parse: "parse_komms_payload de (KOMMS_PAYLOAD_PREFIX @ enc_item (Dict kvs)) = Inr ev"
    and wf: "wf_item 0 (Dict kvs)" and plain: "plain_item (Dict kvs)"
  obtains ks where "map fst kvs = map ucast ks" and "sorted_wrt (<) ks" and "texts_valid (Dict kvs)"
    and "entry_keys (map (\<lambda>(k, v). (Integer (uint k), value_of v)) kvs) ks"
    and "fields_of ev (map_of (zip ks (map snd (map (\<lambda>(k, v). (Integer (uint k), value_of v)) kvs))))"
proof -
  let ?entries = "map (\<lambda>(k, v). (Integer (uint k), value_of v)) kvs"
  from parse have "parse_cbor_map de (enc_item (Dict kvs)) = Inr ev"
    by (auto simp: parse_komms_payload_def bindE_Inr_iff result_simps split: if_splits)
  then obtain entries ks where de: "de (enc_item (Dict kvs)) = Inr (Map entries)"
    and keys: "entry_keys entries ks" and f: "fields_of ev (map_of (zip ks (map snd entries)))"
    unfolding parse_cbor_map_spec by blast
  from cbor_codec.de_Inr_item [OF assms(1) wf plain de] have texts: "texts_valid (Dict kvs)"
    and entries: "entries = ?entries" by auto
  have fst: "map fst kvs = map ucast ks"
    using keys unfolding entries by (rule Dict_keys)
  then have "sorted_wrt (<) ks" using wf by (intro sorted_narrow) auto
  from that [OF fst this texts] keys f show thesis unfolding entries by blast
qed

lemma parsed_valid: "parse_komms_payload de raw = Inr ev \<Longrightarrow> validate_event ev = Inr ()"
  by (auto simp: parse_komms_payload_def bindE_Inr_iff result_simps split: if_splits)

text \<open>The encoder's entries for an event that was parsed are the entries on the wire.\<close>

lemma parsed_pairs:
  assumes "cbor_codec ser de" and "parse_komms_payload de (KOMMS_PAYLOAD_PREFIX @ enc_item (Dict kvs)) = Inr ev"
    and wf: "wf_item 0 (Dict kvs)" and plain: "plain_item (Dict kvs)"
    and v0: "ev_v ev = 0 \<Longrightarrow> 13 \<notin> fst ` set kvs"
    and role: "\<And>u. (31, UInt u) \<in> set kvs \<Longrightarrow> u \<le> 0xFF"
  shows "event_pairs ev = map (\<lambda>(k, v). (Integer (uint k), value_of v)) kvs" (is "_ = ?entries")
    and "ext_keys_ok ev"
proof -
  obtain ks where fst: "map fst kvs = map ucast ks" and s: "sorted_wrt (<) ks"
    and keys: "entry_keys ?entries ks" and f: "fields_of ev (map_of (zip ks (map snd ?entries)))"
    by (rule parsed_fields [OF assms(1-4)])
  have len: "length ks = length kvs" using fst by (metis length_map)
  let ?m = "map_of (zip ks (map snd ?entries))"
  have m13: "?m 13 = None" if "ev_v ev = 0"
    using wire_lookup [OF fst, of 13] v0 [OF that] by (cases "?m 13") force+
  have m31: "u \<le> 0xFF" if "?m 31 = Some (uint_val u)" for u
  proof -
    from wire_lookup [OF fst that] obtain w where w: "(31, w) \<in> set kvs" "value_of w = Integer (uint u)"
      by (auto simp: uint_val_def)
    from w(2) plain w(1) have "item_of (Integer (uint u)) = w"
      using item_of_value_of [of w] by auto
    with w(1) role show ?thesis by simp
  qed
  have "map_of (event_entries ev) = ?m" by (rule entries_of_fields(1) [OF f m13 m31])
  moreover show ext: "ext_keys_ok ev" by (rule entries_of_fields(2) [OF f m13 m31])
  moreover have "sorted_wrt (<) (map fst (zip ks (map snd ?entries)))"
    using s len by simp
  moreover have "om_ok (ev_extension_fields ev)"
    using f by (simp add: fields_of_def wf_event_def)
  ultimately have "event_entries ev = zip ks (map snd ?entries)"
    using sorted_event_entries by (intro btree.sorted_map_of_unique) auto
  then show "event_pairs ev = ?entries"
    using entries_of_keys [OF keys] by (simp add: event_pairs_entries)
qed

text \<open>
  C5: accepted bytes re-encode to exactly themselves, so the encoder reproduces what the sender
  signed. The conditions are the cases where the parse is not faithful to the wire: an
  \<open>undefined\<close> value, an explicit key 13 in a version-0 payload, a role above 255.
\<close>
theorem parse_encode_identity:
  assumes "cbor_codec ser de" and parse: "parse_komms_payload de raw = Inr ev"
    and raw: "raw = KOMMS_PAYLOAD_PREFIX @ enc_item (Dict kvs)"
    and wf: "wf_item 0 (Dict kvs)" and plain: "plain_item (Dict kvs)"
    and v0: "ev_v ev = 0 \<Longrightarrow> 13 \<notin> fst ` set kvs"
    and role: "\<And>u. (31, UInt u) \<in> set kvs \<Longrightarrow> u \<le> 0xFF"
  shows "encode_komms_payload ser ev = Inr raw"
proof -
  note p = parse [unfolded raw]
  have "texts_valid (Dict kvs)" by (rule parsed_fields [OF assms(1) p wf plain])
  then have "ser (Map (event_pairs ev)) = enc_item (Dict kvs)"
    using cbor_codec.ser_item [OF assms(1) wf plain] parsed_pairs(1) [OF assms(1) p wf plain v0 role]
    by simp
  with parsed_valid [OF parse] raw show ?thesis
    by (simp add: encode_komms_payload_def bindE_Inr_iff encode_cbor_map_Inr)
qed

text \<open>Every event the strict parser returns from bytes without \<open>undefined\<close> is \<open>encodable\<close>, so
  that the properties above apply to received events.\<close>

lemma parsed_encodable:
  assumes "cbor_codec ser de" and "parse_komms_payload de (KOMMS_PAYLOAD_PREFIX @ enc_item (Dict kvs)) = Inr ev"
    and wf: "wf_item 0 (Dict kvs)" and plain: "plain_item (Dict kvs)"
  shows "wf_event ev" and "encodable ev"
proof -
  obtain ks where fst: "map fst kvs = map ucast ks" and texts: "texts_valid (Dict kvs)"
    and f: "fields_of ev (map_of (zip ks (map snd (map (\<lambda>(k, v). (Integer (uint k), value_of v)) kvs))))"
      (is "fields_of ev ?m")
    by (rule parsed_fields [OF assms])
  have prof: "prof 1 v" if "?m k = Some v" for k v
  proof -
    from wire_lookup [OF fst that] obtain w where w: "(ucast k, w) \<in> set kvs" "value_of w = v" by blast
    then have "wf_item 1 w" "plain_item w" "texts_valid w" using wf plain texts by auto
    with w(2) profI show ?thesis by blast
  qed
  have sized: "sized_val v" if "?m k = Some v" for k v
    using prof [OF that] by (cases v) (auto simp: prof_def Let_def)
  show "wf_event ev" using f by (simp add: fields_of_def)
  then have ok: "om_ok (ev_extension_fields ev)" by (simp add: wf_event_def)
  have ext: "om_get (ev_extension_fields ev) = (\<lambda>k. if EXTENSION_KEY_MIN \<le> k then ?m k else None)"
    using f unfolding fields_of_def by (elim conjE)
  have "EXTENSION_KEY_MIN \<le> k \<and> prof 1 v" if "(k, v) \<in> set (ev_extension_fields ev)" for k v
  proof -
    have "om_get (ev_extension_fields ev) k = Some v"
      using that btree.get_Some_iff [OF ok] by (simp add: om_entries_def)
    with prof [of k v] show ?thesis by (auto simp: ext split: if_splits)
  qed
  moreover have "sized_val x" if "(k, Some x) \<in> set (wire_layout ev)" for k x
  proof (cases "k \<in> {13, 31}")
    case True
    with that show ?thesis by (auto simp: wire_layout_def uint_val_def Some_map_option split: if_splits)
  next
    case False
    with that have "(k, Some x) \<in> set (field_layout ev)"
      by (auto simp: wire_layout_def field_layout_def)
    with f have "?m k = Some x" unfolding fields_of_def by (elim conjE) (drule (1) bspec, simp only: prod.case)
    then show ?thesis by (rule sized)
  qed
  ultimately show "encodable ev" by (auto simp: encodable_def)
qed

definition sample_dm_kvs :: "(u64 \<times> item) list" where
  "sample_dm_kvs = [(0, UInt 1), (1, UInt 7), (4, ByteStr (replicate 32 7)),
     (7, ByteStr [0x01, 0x62]), (8, Simple STrue), (9, UInt 1700000000), (10, UInt 7), (13, UInt 1)]"

lemma sample_dm_raw_item: "sample_dm_raw = KOMMS_PAYLOAD_PREFIX @ enc_item (Dict sample_dm_kvs)"
  by (simp add: sample_dm_raw_def rfc_ser_def event_pairs_def sample_dm_def default_event_def
      opt_pair_def bk_def uint_val_def om_empty_def om_entries_def sample_dm_kvs_def)

lemma parse_sample_dm: "parse_komms_payload rfc_de sample_dm_raw = Inr sample_dm"
proof -
  show ?thesis
    using parse_of_encode [OF rfc.cbor_codec_axioms wf_sample_dm encode_sample_dm length_sample_dm_raw]
    by (simp add: valid_sample_dm as_parsed_sample_dm)
qed

theorem parse_encode_identity_witness: "encode_komms_payload rfc_ser sample_dm = Inr sample_dm_raw"
proof (rule parse_encode_identity [OF rfc.cbor_codec_axioms parse_sample_dm sample_dm_raw_item])
  show "wf_item 0 (Dict sample_dm_kvs)" "plain_item (Dict sample_dm_kvs)"
    by (simp_all add: sample_dm_kvs_def MAX_NESTING_DEPTH_def word_less_nat_alt)
  show "ev_v sample_dm = 0 \<Longrightarrow> 13 \<notin> fst ` set sample_dm_kvs" by (simp add: sample_dm_def)
  show "(31, UInt u) \<in> set sample_dm_kvs \<Longrightarrow> u \<le> 0xFF" for u by (simp add: sample_dm_kvs_def)
qed

end
