(* ===== verification/Hexutil.thy ===== *)
theory Hexutil
  imports Utf8 Payload
begin

text \<open>
  \<open>src/hexutil.rs\<close>: hex arguments of the command line. The crate \<open>faster_hex\<close> is a pair of
  parameters, \<open>hex_string\<close> and \<open>hex_decode src n\<close> (the decoder fills a buffer of \<open>n\<close> bytes or
  fails); what the sources rely on are the laws of the locale \<open>hex_codec\<close>, and base 16 of
  RFC 4648 satisfies them. \<open>CliError\<close> lists the errors of the command-line crate (values of
  \<open>anyhow::Error\<close>, told apart by their message).
\<close>

datatype CliError =
    Hex32Length nat
  | HexOddLength
  | HexSigLength
  | InvalidHex
  | StdinNotUtf8
  | InputIo
  | StrictParse KommsPayloadError
  | LenientParse ParseError
  | CborDebugParse string
  | PubkeyRequired
  | PubkeyInvalid
  | NoSig
  | SigBytesInvalid
  | SigningPayload ValidationError
  | SigInvalid
  | TooManyRefOptions
  | RefBuild RefBuildError
  | RefRequired string
  | MemberAddressRequired
  | MemberOrChangeAddressRequired
  | AddressInvalid
  | EncodeEvent ValidationError
  | ChangeAddressRequired
  | PrivateKeyRequired
  | PrivateKeyLength
  | PrivateKeyInvalid
  | RpcFailed string
  | InsufficientUtxos
  | UnsupportedUtxoScript nat
  | IndexIo
  | IndexKeyLength nat
  | IndexDecode bytes
  | TransactionNotFound
  | SubmitNotBuilt
  | JsonText

text \<open>\<open>s.trim().strip_prefix("0x").unwrap_or(s.trim())\<close>\<close>

definition strip_0x :: "bytes \<Rightarrow> bytes" where
  "strip_0x s = (let t = trim s in if take 2 t = [0x30, 0x78] then drop 2 t else t)"

definition parse_hex32 :: "(bytes \<Rightarrow> nat \<Rightarrow> bytes option) \<Rightarrow> bytes \<Rightarrow> CliError + bytes" where
  "parse_hex32 hex_decode s =
     (let s = strip_0x s in
      if length s \<noteq> 64 then Inl (Hex32Length (length s))
      else ok_or (hex_decode s 32) InvalidHex)"

definition parse_hex_bytes :: "(bytes \<Rightarrow> nat \<Rightarrow> bytes option) \<Rightarrow> bytes \<Rightarrow> CliError + bytes" where
  "parse_hex_bytes hex_decode s =
     (let s = strip_0x s in
      if length s mod 2 \<noteq> 0 then Inl HexOddLength
      else ok_or (hex_decode s (length s div 2)) InvalidHex)"

definition parse_hex64_sig :: "(bytes \<Rightarrow> nat \<Rightarrow> bytes option) \<Rightarrow> bytes \<Rightarrow> CliError + bytes" where
  "parse_hex64_sig hex_decode s =
     (let s = strip_0x s in
      if length s \<noteq> 128 then Inl HexSigLength
      else ok_or (hex_decode s 64) InvalidHex)"

definition parse_hex32_pk :: "(bytes \<Rightarrow> nat \<Rightarrow> bytes option) \<Rightarrow> bytes \<Rightarrow> CliError + bytes" where
  "parse_hex32_pk hex_decode s = parse_hex32 hex_decode s"

section \<open>The interface of the hex library\<close>

definition hex_digit :: "u8 \<Rightarrow> bool" where
  "hex_digit c \<longleftrightarrow> (0x30 \<le> c \<and> c \<le> 0x39) \<or> (0x61 \<le> c \<and> c \<le> 0x66) \<or> (0x41 \<le> c \<and> c \<le> 0x46)"

lemma hex_digit_visible: "hex_digit c \<Longrightarrow> 0x20 < c \<and> c < 0x80 \<and> c \<noteq> 0x78"
  by (auto simp: hex_digit_def word_less_nat_alt word_le_nat_alt)

text \<open>A string of hex digits survives \<open>strip_0x\<close>, with or without the prefix.\<close>

lemma strip_0x_hex: "\<forall>c\<in>set s. hex_digit c \<Longrightarrow> strip_0x s = s"
proof -
  assume a: "\<forall>c\<in>set s. hex_digit c"
  then have "trim s = s" by (intro trim_visible) (use hex_digit_visible in blast)
  moreover have "take 2 s \<noteq> [0x30, 0x78]"
  proof
    assume "take 2 s = [0x30, 0x78]"
    then have "(0x78 :: u8) \<in> set s" by (metis in_set_takeD list.set_intros(1,2))
    with a hex_digit_visible show False by blast
  qed
  ultimately show ?thesis by (simp add: strip_0x_def)
qed

lemma strip_0x_prefixed: "\<forall>c\<in>set s. hex_digit c \<Longrightarrow> strip_0x (0x30 # 0x78 # s) = s"
proof -
  assume a: "\<forall>c\<in>set s. hex_digit c"
  have "\<forall>c\<in>set (0x30 # 0x78 # s). 0x20 < c \<and> c < 0x80"
    using a hex_digit_visible by (auto simp: word_less_nat_alt)
  then have "trim (0x30 # 0x78 # s) = 0x30 # 0x78 # s" by (rule trim_visible)
  then show ?thesis by (simp add: strip_0x_def)
qed

locale hex_codec =
  fixes hex_string :: "bytes \<Rightarrow> bytes" and hex_decode :: "bytes \<Rightarrow> nat \<Rightarrow> bytes option"
  assumes decode_length: "hex_decode s n = Some b \<Longrightarrow> length b = n"
    and decode_encode: "hex_decode (hex_string b) (length b) = Some b"
    and encode_length: "length (hex_string b) = 2 * length b"
    and encode_digits: "c \<in> set (hex_string b) \<Longrightarrow> hex_digit c"
    and decode_digits: "hex_decode s n = Some b \<Longrightarrow> length s = 2 * n \<Longrightarrow> c \<in> set s \<Longrightarrow> hex_digit c"
begin

lemma encode_inject:
  assumes "hex_string a = hex_string b"
  shows "a = b"
proof -
  have "2 * length a = 2 * length b" unfolding encode_length [symmetric] assms by (rule refl)
  then have "hex_decode (hex_string b) (length b) = Some a" using decode_encode [of a] assms by simp
  then show ?thesis unfolding decode_encode by (rule option.inject [THEN iffD1, symmetric])
qed

lemma strip_encode: "strip_0x (hex_string b) = hex_string b" "strip_0x (0x30 # 0x78 # hex_string b) = hex_string b"
  using encode_digits by (auto intro!: strip_0x_hex strip_0x_prefixed)

lemma parse_hex32_length: "parse_hex32 hex_decode s = Inr b \<Longrightarrow> length b = 32"
  by (auto simp: parse_hex32_def Let_def result_simps split: if_splits dest: decode_length)

lemma parse_hex64_length: "parse_hex64_sig hex_decode s = Inr b \<Longrightarrow> length b = 64"
  by (auto simp: parse_hex64_sig_def Let_def result_simps split: if_splits dest: decode_length)

lemma parse_hex_bytes_length: "parse_hex_bytes hex_decode s = Inr b \<Longrightarrow> length (strip_0x s) = 2 * length b"
  by (auto simp: parse_hex_bytes_def Let_def result_simps split: if_splits dest: decode_length)

lemma parsed_digits:
  "parse_hex32 hex_decode s = Inr b \<Longrightarrow> \<forall>c\<in>set (strip_0x s). hex_digit c"
  "parse_hex64_sig hex_decode s = Inr b \<Longrightarrow> \<forall>c\<in>set (strip_0x s). hex_digit c"
  "parse_hex_bytes hex_decode s = Inr b \<Longrightarrow> \<forall>c\<in>set (strip_0x s). hex_digit c"
  by (auto simp: parse_hex32_def parse_hex64_sig_def parse_hex_bytes_def Let_def result_simps
      split: if_splits intro: decode_digits)

lemma parse_hex_bytes_encode:
  "parse_hex_bytes hex_decode (hex_string b) = Inr b"
  "parse_hex_bytes hex_decode (0x30 # 0x78 # hex_string b) = Inr b"
  by (simp_all add: parse_hex_bytes_def strip_encode encode_length decode_encode)

lemma parse_hex32_encode:
  assumes "length b = 32"
  shows "parse_hex32 hex_decode (hex_string b) = Inr b" "parse_hex32 hex_decode (0x30 # 0x78 # hex_string b) = Inr b"
  using decode_encode [of b] assms by (simp_all add: parse_hex32_def strip_encode encode_length)

lemma parse_hex64_encode:
  assumes "length b = 64"
  shows "parse_hex64_sig hex_decode (hex_string b) = Inr b"
    "parse_hex64_sig hex_decode (0x30 # 0x78 # hex_string b) = Inr b"
  using decode_encode [of b] assms by (simp_all add: parse_hex64_sig_def strip_encode encode_length)

end

section \<open>Base 16\<close>

definition nibble_char :: "u8 \<Rightarrow> u8" where
  "nibble_char n = (if n < 10 then 0x30 + n else 0x57 + n)"

definition char_nibble :: "u8 \<Rightarrow> u8 option" where
  "char_nibble c =
     (if 0x30 \<le> c \<and> c \<le> 0x39 then Some (c - 0x30)
      else if 0x61 \<le> c \<and> c \<le> 0x66 then Some (c - 0x57)
      else if 0x41 \<le> c \<and> c \<le> 0x46 then Some (c - 0x37)
      else None)"

definition base16_encode :: "bytes \<Rightarrow> bytes" where
  "base16_encode bs = concat (map (\<lambda>b. [nibble_char (b div 16), nibble_char (b mod 16)]) bs)"

fun base16_decode :: "bytes \<Rightarrow> nat \<Rightarrow> bytes option" where
  "base16_decode [] n = (if n = 0 then Some [] else None)"
| "base16_decode [c] n = None"
| "base16_decode (c # d # s) n =
     (case (char_nibble c, char_nibble d, n) of
        (Some h, Some l, Suc m) \<Rightarrow> map_option ((#) (16 * h + l)) (base16_decode s m)
      | _ \<Rightarrow> None)"

lemma char_nibble_char:
  assumes "n < 16"
  shows "char_nibble (nibble_char n) = Some n \<and> hex_digit (nibble_char n)"
proof (cases "n < 10")
  case True
  then have "unat (0x30 + n) = 48 + unat n"
    using unat_add_lem [of "0x30" n] by (simp add: word_less_nat_alt)
  with True show ?thesis
    by (simp add: nibble_char_def char_nibble_def hex_digit_def word_le_nat_alt word_less_nat_alt)
next
  case False
  have "unat (0x57 + n) = 87 + unat n"
    using assms unat_add_lem [of "0x57" n] by (simp add: word_less_nat_alt)
  with False assms show ?thesis
    by (simp add: nibble_char_def char_nibble_def hex_digit_def word_le_nat_alt word_less_nat_alt)
qed

lemma byte_nibbles: "(b :: u8) div 16 < 16" "b mod 16 < 16" "16 * (b div 16) + b mod 16 = b"
proof -
  have "unat b < 256" by simp
  then have "unat b div 16 < 16" by linarith
  then show "b div 16 < 16" "b mod 16 < 16"
    by (simp_all add: word_less_nat_alt unat_div unat_mod)
  show "16 * (b div 16) + b mod 16 = b" by (rule mult_div_mod_eq)
qed

lemma base16_decode_length: "base16_decode s n = Some b \<Longrightarrow> length b = n"
  by (induction s n arbitrary: b rule: base16_decode.induct) (auto split: option.splits nat.splits if_splits)

lemma char_nibble_digit: "char_nibble c \<noteq> None \<Longrightarrow> hex_digit c"
  by (auto simp: char_nibble_def hex_digit_def split: if_splits)

lemma base16_decode_digits: "base16_decode s n = Some b \<Longrightarrow> c \<in> set s \<Longrightarrow> hex_digit c"
  by (induction s n arbitrary: b rule: base16_decode.induct)
    (auto split: option.splits nat.splits if_splits intro: char_nibble_digit)

interpretation base16: hex_codec base16_encode base16_decode
proof unfold_locales
  show "base16_decode s n = Some b \<Longrightarrow> length b = n" for s n b by (rule base16_decode_length)
  show "base16_decode (base16_encode b) (length b) = Some b" for b
    by (induction b) (simp_all add: base16_encode_def char_nibble_char byte_nibbles)
  show "length (base16_encode b) = 2 * length b" for b
    by (induction b) (simp_all add: base16_encode_def)
  show "c \<in> set (base16_encode b) \<Longrightarrow> hex_digit c" for c b
    by (auto simp: base16_encode_def char_nibble_char byte_nibbles)
  show "base16_decode s n = Some b \<Longrightarrow> length s = 2 * n \<Longrightarrow> c \<in> set s \<Longrightarrow> hex_digit c" for s n b c
    by (rule base16_decode_digits)
qed

text \<open>
  Hex arguments: whatever the hex encoder prints is read back by the three parsers, with or
  without the prefix \<open>0x\<close>, and conversely an accepted argument consists (after trimming and
  prefix) of hex digits only, twice as many as the bytes it denotes: 32 for identifiers and keys,
  64 for signatures.
\<close>
lemma hex_arguments_roundtrip:
  assumes "hex_codec hex_string hex_decode"
  shows "(parse_hex_bytes hex_decode (hex_string b) = Inr b \<and>
       parse_hex_bytes hex_decode (0x30 # 0x78 # hex_string b) = Inr b) \<and>
     (length b = 32 \<longrightarrow> parse_hex32 hex_decode (hex_string b) = Inr b \<and>
       parse_hex32 hex_decode (0x30 # 0x78 # hex_string b) = Inr b) \<and>
     (length b = 64 \<longrightarrow> parse_hex64_sig hex_decode (hex_string b) = Inr b \<and>
       parse_hex64_sig hex_decode (0x30 # 0x78 # hex_string b) = Inr b) \<and>
     (parse_hex_bytes hex_decode s = Inr b \<longrightarrow>
       length (strip_0x s) = 2 * length b \<and> (\<forall>c\<in>set (strip_0x s). hex_digit c)) \<and>
     (parse_hex32 hex_decode s = Inr b \<longrightarrow> length b = 32 \<and> (\<forall>c\<in>set (strip_0x s). hex_digit c)) \<and>
     (parse_hex64_sig hex_decode s = Inr b \<longrightarrow> length b = 64 \<and> (\<forall>c\<in>set (strip_0x s). hex_digit c))"
  using assms by (simp add: hex_codec.parse_hex_bytes_encode hex_codec.parse_hex32_encode
      hex_codec.parse_hex64_encode hex_codec.parsed_digits hex_codec.parse_hex32_length
      hex_codec.parse_hex64_length hex_codec.parse_hex_bytes_length)

lemma hex_arguments_roundtrip_example:
  "parse_hex_bytes base16_decode [0x30, 0x78, 0x61, 0x66] = Inr [0xAF]"
proof -
  have "base16_encode [0xAF] = [0x61, 0x66]" by (simp add: base16_encode_def nibble_char_def)
  then show ?thesis
    using hex_arguments_roundtrip [OF base16.hex_codec_axioms, of "[0xAF]"] by simp
qed

end
