(* ===== verification/Output.thy ===== *)
theory Output
  imports Hexutil
begin

text \<open>
  \<open>src/output.rs\<close>: the JSON documents the command line prints. A \<open>serde_json::Value\<close> is a
  \<open>json\<close>; the members of an object are listed in the order the source gives them (the order in
  which \<open>serde_json\<close> prints them is not modelled). \<open>hex_string\<close> is the encoder of \<open>hex_codec\<close>.
\<close>

datatype json =
    JNull
  | JBool bool
  | JNum int
  | JStr bytes
  | JArr "json list"
  | JObj "(string \<times> json) list"

text \<open>\<open>j["k"]\<close> and \<open>j["k"] = v\<close> on an object.\<close>

fun json_get :: "json \<Rightarrow> string \<Rightarrow> json" where
  "json_get (JObj ms) k = (case map_of ms k of None \<Rightarrow> JNull | Some v \<Rightarrow> v)"
| "json_get _ k = JNull"

fun json_set :: "json \<Rightarrow> string \<Rightarrow> json \<Rightarrow> json" where
  "json_set (JObj ms) k v = JObj (filter (\<lambda>(k', _). k' \<noteq> k) ms @ [(k, v)])"
| "json_set j k v = j"

definition j_u64 :: "u64 \<Rightarrow> json" where
  "j_u64 v = JNum (uint v)"

definition j_u8 :: "u8 \<Rightarrow> json" where
  "j_u8 v = JNum (uint v)"

definition j_opt :: "('a \<Rightarrow> json) \<Rightarrow> 'a option \<Rightarrow> json" where
  "j_opt f x = (case x of None \<Rightarrow> JNull | Some y \<Rightarrow> f y)"

text \<open>The text \<open>{:?}\<close> gives for an event type: the derived \<open>Debug\<close>.\<close>

fun decimal :: "nat \<Rightarrow> bytes" where
  "decimal n = (if n < 10 then [0x30 + word_of_nat n] else decimal (n div 10) @ [0x30 + word_of_nat (n mod 10)])"

declare decimal.simps [simp del]

fun debug_EventType :: "EventType \<Rightarrow> bytes" where
  "debug_EventType ServerCreate = ascii ''ServerCreate''"
| "debug_EventType ServerUpdate = ascii ''ServerUpdate''"
| "debug_EventType ChannelCreate = ascii ''ChannelCreate''"
| "debug_EventType ChannelUpdate = ascii ''ChannelUpdate''"
| "debug_EventType MessagePost = ascii ''MessagePost''"
| "debug_EventType MessageEdit = ascii ''MessageEdit''"
| "debug_EventType MessageDelete = ascii ''MessageDelete''"
| "debug_EventType DmMessagePost = ascii ''DmMessagePost''"
| "debug_EventType ReactionAdd = ascii ''ReactionAdd''"
| "debug_EventType ReactionRemove = ascii ''ReactionRemove''"
| "debug_EventType MemberJoin = ascii ''MemberJoin''"
| "debug_EventType MemberLeave = ascii ''MemberLeave''"
| "debug_EventType RoleAssign = ascii ''RoleAssign''"
| "debug_EventType RoleRevoke = ascii ''RoleRevoke''"
| "debug_EventType ModerationAction = ascii ''ModerationAction''"
| "debug_EventType DeviceRegister = ascii ''DeviceRegister''"
| "debug_EventType DeviceRevoke = ascii ''DeviceRevoke''"
| "debug_EventType PinMessage = ascii ''PinMessage''"
| "debug_EventType UnpinMessage = ascii ''UnpinMessage''"
| "debug_EventType BookmarkAdd = ascii ''BookmarkAdd''"
| "debug_EventType BookmarkRemove = ascii ''BookmarkRemove''"
| "debug_EventType SealedMemberJoin = ascii ''SealedMemberJoin''"
| "debug_EventType SealedMemberLeave = ascii ''SealedMemberLeave''"
| "debug_EventType KeyRotate = ascii ''KeyRotate''"
| "debug_EventType SealedEvent = ascii ''SealedEvent''"
| "debug_EventType (Reserved n) = ascii ''Reserved('' @ decimal (unat n) @ ascii '')''"

section \<open>The documents\<close>

definition hex32 :: "(bytes \<Rightarrow> bytes) \<Rightarrow> bytes \<Rightarrow> json" where
  "hex32 hex_string b = JStr (hex_string b)"

definition hex_opt :: "(bytes \<Rightarrow> bytes) \<Rightarrow> bytes option \<Rightarrow> json" where
  "hex_opt hex_string b = j_opt (hex32 hex_string) b"

definition hex_vec :: "(bytes \<Rightarrow> bytes) \<Rightarrow> bytes option \<Rightarrow> json" where
  "hex_vec hex_string b = j_opt (\<lambda>v. JStr (hex_string v)) b"

definition ref_json :: "(bytes \<Rightarrow> bytes) \<Rightarrow> bytes \<Rightarrow> json" where
  "ref_json hex_string ref_bytes =
     (case ref_bytes of
        [] \<Rightarrow> JObj [(''error'', JStr (ascii ''empty ref''))]
      | b # body \<Rightarrow>
          if b = 0x01 then
            JObj [(''ref_type'', JStr (ascii ''cid'')), (''ref_type_byte'', JNum 1),
              (''cid'', JStr (if utf8_valid body then body else ascii ''<invalid utf-8>''))]
          else if b = 0x02 then
            (if length ref_bytes = 33 then
               JObj [(''ref_type'', JStr (ascii ''content_hash'')), (''ref_type_byte'', JNum 2),
                 (''sha256'', hex32 hex_string body)]
             else JObj [(''ref_type'', JStr (ascii ''content_hash'')),
                 (''error'', JStr (ascii ''expected 33 bytes''))])
          else JObj [(''ref_type'', JStr (ascii ''unknown'')), (''ref_type_byte'', j_u8 b)])"

definition event_to_json :: "(bytes \<Rightarrow> bytes) \<Rightarrow> ParsedKommsEvent \<Rightarrow> json" where
  "event_to_json hex_string ev =
     (let ref_parsed = j_opt (ref_json hex_string) (ev_ref_bytes ev) in
      JObj [(''v'', j_u64 (ev_v ev)),
        (''t'', j_u8 (as_u8 (ev_t ev))),
        (''event_type'', JStr (debug_EventType (ev_t ev))),
        (''sid'', hex_opt hex_string (ev_sid ev)),
        (''cid'', hex_opt hex_string (ev_cid ev)),
        (''did'', hex_opt hex_string (ev_did ev)),
        (''pid'', hex_opt hex_string (ev_pid ev)),
        (''mid'', hex_opt hex_string (ev_mid ev)),
        (''ref'', hex_vec hex_string (ev_ref_bytes ev)),
        (''ref_decoded'', ref_parsed),
        (''ref_valid'', j_opt (\<lambda>r. JBool (is_ok (validate_ref r))) (ev_ref_bytes ev)),
        (''enc'', JBool (ev_enc ev)),
        (''ts'', j_opt j_u64 (ev_ts ev)),
        (''n'', j_opt j_u64 (ev_n ev)),
        (''sig'', j_opt (\<lambda>s. JStr (hex_string s)) (ev_sig ev))])"

section \<open>What a printed event determines\<close>

lemma j_opt_inject: "(\<And>a b. f a = f b \<longleftrightarrow> a = b) \<Longrightarrow> (\<And>a. f a \<noteq> JNull) \<Longrightarrow> j_opt f x = j_opt f y \<longleftrightarrow> x = y"
  by (auto simp: j_opt_def split: option.splits) metis+

lemma j_num_inject [simp]: "j_u64 v = j_u64 w \<longleftrightarrow> v = w" "j_u8 a = j_u8 b \<longleftrightarrow> a = b"
  unfolding j_u64_def j_u8_def json.inject by (rule word_eq_iff_unsigned [symmetric])+

lemma j_opt_u64 [simp]: "j_opt j_u64 x = j_opt j_u64 y \<longleftrightarrow> x = y"
  by (rule j_opt_inject) (simp, simp add: j_u64_def)

text \<open>Only the name of a \<open>Reserved\<close> type ends in a parenthesis.\<close>

lemma last_ascii: "s \<noteq> '''' \<Longrightarrow> last (ascii s) = of_char (last s)"
  by (simp add: ascii_def last_map)

lemma last_debug: "last (debug_EventType t) = 0x29 \<longleftrightarrow> \<not> is_known t"
  by (cases t) (simp_all add: ascii_def)

lemma event_type_shown:
  assumes "as_u8 t = as_u8 t'" and "debug_EventType t = debug_EventType t'"
  shows "t = t'"
proof (cases "is_known t")
  case True
  then have "is_known t'" using assms(2) last_debug by metis
  with True assms(1) show ?thesis using from_u8_as_u8_known by metis
next
  case False
  then have "\<not> is_known t'" using assms(2) last_debug by metis
  with False obtain n n' where "t = Reserved n" "t' = Reserved n'" by (cases t; cases t') auto
  with assms(1) show ?thesis by simp
qed

context hex_codec
begin

lemma hex_inject [simp]: "hex_string a = hex_string b \<longleftrightarrow> a = b"
  using encode_inject by blast

lemma hex_opt_inject [simp]:
  "hex_opt hex_string x = hex_opt hex_string y \<longleftrightarrow> x = y"
  "hex_vec hex_string x = hex_vec hex_string y \<longleftrightarrow> x = y"
  "j_opt (\<lambda>s. JStr (hex_string s)) x = j_opt (\<lambda>s. JStr (hex_string s)) y \<longleftrightarrow> x = y"
  unfolding hex_opt_def hex_vec_def by (rule j_opt_inject; simp add: hex32_def)+

lemma event_json_eq:
  "event_to_json hex_string ev = event_to_json hex_string ev' \<longleftrightarrow>
     ev_v ev = ev_v ev' \<and> ev_t ev = ev_t ev' \<and> ev_sid ev = ev_sid ev' \<and> ev_cid ev = ev_cid ev' \<and>
     ev_did ev = ev_did ev' \<and> ev_pid ev = ev_pid ev' \<and> ev_mid ev = ev_mid ev' \<and>
     ev_ref_bytes ev = ev_ref_bytes ev' \<and> ev_enc ev = ev_enc ev' \<and> ev_ts ev = ev_ts ev' \<and>
     ev_n ev = ev_n ev' \<and> ev_sig ev = ev_sig ev'"
  by (simp add: event_to_json_def Let_def) (metis event_type_shown)

end

text \<open>
  C39: the printed document of an event shows exactly the twelve fields of the v0 format:
  two events print the same document if and only if they agree in these fields, so nothing of
  them is lost or ambiguous, and none of the v1 fields (parent, device key, tags, encrypted
  counterparts, role, target, extension fields) is shown at all.
\<close>
theorem event_json_shows_v0_fields:
  assumes "hex_codec hex_string hex_decode"
  shows "event_to_json hex_string ev = event_to_json hex_string ev' \<longleftrightarrow>
     ev_v ev = ev_v ev' \<and> ev_t ev = ev_t ev' \<and> ev_sid ev = ev_sid ev' \<and> ev_cid ev = ev_cid ev' \<and>
     ev_did ev = ev_did ev' \<and> ev_pid ev = ev_pid ev' \<and> ev_mid ev = ev_mid ev' \<and>
     ev_ref_bytes ev = ev_ref_bytes ev' \<and> ev_enc ev = ev_enc ev' \<and> ev_ts ev = ev_ts ev' \<and>
     ev_n ev = ev_n ev' \<and> ev_sig ev = ev_sig ev'"
  by (rule hex_codec.event_json_eq [OF assms])

theorem event_json_shows_v0_fields_witness:
  "event_to_json base16_encode sample_sealed = event_to_json base16_encode (sample_sealed\<lparr>ev_match_tag := None\<rparr>) \<and>
   event_to_json base16_encode sample_dm \<noteq> event_to_json base16_encode (sample_dm\<lparr>ev_n := None\<rparr>)"
  by (simp add: event_json_shows_v0_fields [OF base16.hex_codec_axioms])
    (simp add: sample_dm_def)

end
