(* ===== verification/Cli_Post.thy ===== *)
theory Cli_Post
  imports Output
begin

text \<open>
  The \<open>post\<close> commands of \<open>src/lib.rs\<close>: the arguments of each command, the event
  \<open>build_post_ev\<close> makes of them, the participant id that \<open>patch_member_join_leave_pid\<close> fills in,
  and the validation and encoding of the result. Command-line strings are their UTF-8 bytes.
  Parameters: \<open>hex_decode\<close>, \<open>sha256\<close>, the CBOR writer \<open>ser\<close>, and \<open>parse_address\<close>, the
  bech32 parser of \<open>kaspa_addresses\<close>.
\<close>

record OptMeta =
  meta_ts :: "u64 option"
  meta_n :: "u64 option"
  meta_sig_hex :: "bytes option"

text \<open>The arguments are, in the order of the source: \<open>sid\<close>, \<open>cid\<close>, \<open>mid\<close> or \<open>did\<close>; for the
  member commands \<open>member_address\<close>; \<open>ref_hex\<close>, \<open>cid_str\<close> or \<open>ref_cid\<close>, \<open>content_hash\<close>; \<open>pid\<close>;
  \<open>meta\<close>.\<close>

datatype PostCmd =
    Post_ServerCreate bytes "bytes option" "bytes option" "bytes option" OptMeta
  | Post_ServerUpdate bytes "bytes option" "bytes option" "bytes option" OptMeta
  | Post_ChannelCreate bytes bytes "bytes option" OptMeta
  | Post_ChannelUpdate bytes bytes "bytes option" OptMeta
  | Post_MessagePost bytes bytes "bytes option" "bytes option" "bytes option" "bytes option" OptMeta
  | Post_MessageEdit bytes bytes bytes "bytes option" "bytes option" "bytes option" OptMeta
  | Post_MessageDelete bytes bytes bytes OptMeta
  | Post_DmMessagePost bytes "bytes option" "bytes option" "bytes option" OptMeta
  | Post_ReactionAdd bytes bytes bytes "bytes option" OptMeta
  | Post_ReactionRemove bytes bytes bytes "bytes option" OptMeta
  | Post_MemberJoin bytes "bytes option" "bytes option" OptMeta
  | Post_MemberLeave bytes "bytes option" "bytes option" OptMeta
  | Post_RoleAssign bytes "bytes option" "bytes option" OptMeta
  | Post_RoleRevoke bytes "bytes option" "bytes option" OptMeta
  | Post_ModerationAction bytes "bytes option" "bytes option" "bytes option" OptMeta

section \<open>Arguments\<close>

text \<open>\<open>x.as_ref().map(f).transpose()\<close>\<close>

definition opt_arg :: "('a \<Rightarrow> CliError + 'b) \<Rightarrow> 'a option \<Rightarrow> CliError + 'b option" where
  "opt_arg f x = (case x of None \<Rightarrow> Inr None | Some a \<Rightarrow> mapE Some (f a))"

definition ref_from_opts ::
  "(bytes \<Rightarrow> nat \<Rightarrow> bytes option) \<Rightarrow> bytes option \<Rightarrow> bytes option \<Rightarrow> bytes option \<Rightarrow> CliError + bytes option" where
  "ref_from_opts hex_decode ref_hex cid_str content_hash =
     (let given = (\<lambda>x :: bytes option. if x \<noteq> None then 1 else (0 :: u8));
          n = given ref_hex + given cid_str + given content_hash in
      if n > 1 then Inl TooManyRefOptions
      else case ref_hex of
        Some h \<Rightarrow> mapE Some (parse_hex_bytes hex_decode h)
      | None \<Rightarrow> (case cid_str of
          Some c \<Rightarrow> mapE Some (map_err RefBuild (ref_from_cid_str c))
        | None \<Rightarrow> (case content_hash of
            Some h \<Rightarrow> mapE (\<lambda>hash. Some (ref_from_content_hash hash)) (parse_hex32 hex_decode h)
          | None \<Rightarrow> Inr None)))"

definition meta_sig :: "(bytes \<Rightarrow> nat \<Rightarrow> bytes option) \<Rightarrow> OptMeta \<Rightarrow> CliError + bytes option" where
  "meta_sig hex_decode m = opt_arg (parse_hex64_sig hex_decode) (meta_sig_hex m)"

text \<open>The fields every command sets the same way: version 0, no encryption, the metadata.\<close>

definition post_base :: "EventType \<Rightarrow> OptMeta \<Rightarrow> bytes option \<Rightarrow> ParsedKommsEvent" where
  "post_base t meta sig = default_event\<lparr> ev_v := 0, ev_t := t, ev_enc := False,
     ev_ts := meta_ts meta, ev_n := meta_n meta, ev_sig := sig \<rparr>"

section \<open>The events of the commands\<close>

definition server_ev where
  "server_ev hex_decode t sid ref_hex cid_str content_hash meta =
     bindE (parse_hex32 hex_decode sid) (\<lambda>sid.
     bindE (ref_from_opts hex_decode ref_hex cid_str content_hash) (\<lambda>r.
     bindE (meta_sig hex_decode meta) (\<lambda>sig.
       Inr ((post_base t meta sig)\<lparr> ev_sid := Some sid, ev_ref_bytes := r \<rparr>))))"

definition channel_ev where
  "channel_ev hex_decode t sid cid ref_hex meta =
     bindE (parse_hex32 hex_decode sid) (\<lambda>sid.
     bindE (parse_hex32 hex_decode cid) (\<lambda>cid.
     bindE (opt_arg (parse_hex_bytes hex_decode) ref_hex) (\<lambda>r.
     bindE (meta_sig hex_decode meta) (\<lambda>sig.
       Inr ((post_base t meta sig)\<lparr> ev_sid := Some sid, ev_cid := Some cid, ev_ref_bytes := r \<rparr>)))))"

definition message_post_ev where
  "message_post_ev hex_decode sid cid ref_hex ref_cid content_hash pid meta =
     bindE (parse_hex32 hex_decode sid) (\<lambda>sid.
     bindE (parse_hex32 hex_decode cid) (\<lambda>cid.
     bindE (opt_arg (parse_hex32 hex_decode) pid) (\<lambda>pid.
     bindE (ref_from_opts hex_decode ref_hex ref_cid content_hash) (\<lambda>r.
     bindE (ok_or r (RefRequired ''message-post'')) (\<lambda>r.
     bindE (meta_sig hex_decode meta) (\<lambda>sig.
       Inr ((post_base MessagePost meta sig)\<lparr> ev_sid := Some sid, ev_cid := Some cid,
         ev_pid := pid, ev_ref_bytes := Some r \<rparr>)))))))"

definition message_edit_ev where
  "message_edit_ev hex_decode sid cid mid ref_hex ref_cid content_hash meta =
     bindE (parse_hex32 hex_decode sid) (\<lambda>sid.
     bindE (parse_hex32 hex_decode cid) (\<lambda>cid.
     bindE (parse_hex32 hex_decode mid) (\<lambda>mid.
     bindE (ref_from_opts hex_decode ref_hex ref_cid content_hash) (\<lambda>r.
     bindE (ok_or r (RefRequired ''message-edit'')) (\<lambda>r.
     bindE (meta_sig hex_decode meta) (\<lambda>sig.
       Inr ((post_base MessageEdit meta sig)\<lparr> ev_sid := Some sid, ev_cid := Some cid,
         ev_mid := Some mid, ev_ref_bytes := Some r \<rparr>)))))))"

definition message_delete_ev where
  "message_delete_ev hex_decode sid cid mid meta =
     bindE (parse_hex32 hex_decode sid) (\<lambda>sid.
     bindE (parse_hex32 hex_decode cid) (\<lambda>cid.
     bindE (parse_hex32 hex_decode mid) (\<lambda>mid.
     bindE (meta_sig hex_decode meta) (\<lambda>sig.
       Inr ((post_base MessageDelete meta sig)\<lparr> ev_sid := Some sid, ev_cid := Some cid,
         ev_mid := Some mid, ev_ref_bytes := None \<rparr>)))))"

definition dm_ev where
  "dm_ev hex_decode did ref_hex ref_cid content_hash meta =
     bindE (parse_hex32 hex_decode did) (\<lambda>did.
     bindE (ref_from_opts hex_decode ref_hex ref_cid content_hash) (\<lambda>r.
     bindE (ok_or r (RefRequired ''dm-message-post'')) (\<lambda>r.
     bindE (meta_sig hex_decode meta) (\<lambda>sig.
       Inr ((post_base DmMessagePost meta sig)\<lparr> ev_did := Some did, ev_ref_bytes := Some r,
         ev_enc := True \<rparr>)))))"

definition reaction_ev where
  "reaction_ev hex_decode t sid cid mid ref_hex meta =
     bindE (parse_hex32 hex_decode sid) (\<lambda>sid.
     bindE (parse_hex32 hex_decode cid) (\<lambda>cid.
     bindE (parse_hex32 hex_decode mid) (\<lambda>mid.
     bindE (opt_arg (parse_hex_bytes hex_decode) ref_hex) (\<lambda>r.
     bindE (meta_sig hex_decode meta) (\<lambda>sig.
       Inr ((post_base t meta sig)\<lparr> ev_sid := Some sid, ev_cid := Some cid, ev_mid := Some mid,
         ev_ref_bytes := r \<rparr>))))))"

definition member_ev where
  "member_ev hex_decode t sid ref_hex meta =
     bindE (parse_hex32 hex_decode sid) (\<lambda>sid.
     bindE (opt_arg (parse_hex_bytes hex_decode) ref_hex) (\<lambda>r.
     bindE (meta_sig hex_decode meta) (\<lambda>sig.
       Inr ((post_base t meta sig)\<lparr> ev_sid := Some sid, ev_ref_bytes := r \<rparr>))))"

definition role_ev where
  "role_ev hex_decode t sid cid ref_hex meta =
     bindE (parse_hex32 hex_decode sid) (\<lambda>sid.
     bindE (opt_arg (parse_hex32 hex_decode) cid) (\<lambda>cid.
     bindE (opt_arg (parse_hex_bytes hex_decode) ref_hex) (\<lambda>r.
     bindE (meta_sig hex_decode meta) (\<lambda>sig.
       Inr ((post_base t meta sig)\<lparr> ev_sid := Some sid, ev_cid := cid, ev_ref_bytes := r \<rparr>)))))"

definition moderation_ev where
  "moderation_ev hex_decode sid cid mid ref_hex meta =
     bindE (parse_hex32 hex_decode sid) (\<lambda>sid.
     bindE (opt_arg (parse_hex32 hex_decode) cid) (\<lambda>cid.
     bindE (opt_arg (parse_hex32 hex_decode) mid) (\<lambda>mid.
     bindE (opt_arg (parse_hex_bytes hex_decode) ref_hex) (\<lambda>r.
     bindE (meta_sig hex_decode meta) (\<lambda>sig.
       Inr ((post_base ModerationAction meta sig)\<lparr> ev_sid := Some sid, ev_cid := cid,
         ev_mid := mid, ev_ref_bytes := r \<rparr>))))))"

fun build_post_ev ::
  "(bytes \<Rightarrow> nat \<Rightarrow> bytes option) \<Rightarrow> PostCmd \<Rightarrow> CliError + ParsedKommsEvent" where
  "build_post_ev hx (Post_ServerCreate sid rh cs ch m) = server_ev hx ServerCreate sid rh cs ch m"
| "build_post_ev hx (Post_ServerUpdate sid rh cs ch m) = server_ev hx ServerUpdate sid rh cs ch m"
| "build_post_ev hx (Post_ChannelCreate sid cid rh m) = channel_ev hx ChannelCreate sid cid rh m"
| "build_post_ev hx (Post_ChannelUpdate sid cid rh m) = channel_ev hx ChannelUpdate sid cid rh m"
| "build_post_ev hx (Post_MessagePost sid cid rh rc ch pid m) = message_post_ev hx sid cid rh rc ch pid m"
| "build_post_ev hx (Post_MessageEdit sid cid mid rh rc ch m) = message_edit_ev hx sid cid mid rh rc ch m"
| "build_post_ev hx (Post_MessageDelete sid cid mid m) = message_delete_ev hx sid cid mid m"
| "build_post_ev hx (Post_DmMessagePost did rh rc ch m) = dm_ev hx did rh rc ch m"
| "build_post_ev hx (Post_ReactionAdd sid cid mid rh m) = reaction_ev hx ReactionAdd sid cid mid rh m"
| "build_post_ev hx (Post_ReactionRemove sid cid mid rh m) = reaction_ev hx ReactionRemove sid cid mid rh m"
| "build_post_ev hx (Post_MemberJoin sid addr rh m) = member_ev hx MemberJoin sid rh m"
| "build_post_ev hx (Post_MemberLeave sid addr rh m) = member_ev hx MemberLeave sid rh m"
| "build_post_ev hx (Post_RoleAssign sid cid rh m) = role_ev hx RoleAssign sid cid rh m"
| "build_post_ev hx (Post_RoleRevoke sid cid rh m) = role_ev hx RoleRevoke sid cid rh m"
| "build_post_ev hx (Post_ModerationAction sid cid mid rh m) = moderation_ev hx sid cid mid rh m"

section \<open>The participant id of the member commands\<close>

record Address =
  addr_version :: u8
  addr_payload :: bytes

definition creator_address_body_from_addr :: "Address \<Rightarrow> bytes" where
  "creator_address_body_from_addr addr = addr_version addr # addr_payload addr"

fun member_address_opt :: "PostCmd \<Rightarrow> bytes option option" where
  "member_address_opt (Post_MemberJoin sid addr rh m) = Some addr"
| "member_address_opt (Post_MemberLeave sid addr rh m) = Some addr"
| "member_address_opt _ = None"

definition patch_member_join_leave_pid ::
  "(bytes \<Rightarrow> bytes) \<Rightarrow> (bytes \<Rightarrow> Address option) \<Rightarrow> ParsedKommsEvent \<Rightarrow> PostCmd \<Rightarrow> bool \<Rightarrow>
     bytes option \<Rightarrow> CliError + ParsedKommsEvent" where
  "patch_member_join_leave_pid sha256 parse_address ev cmd submit change_address =
     (case member_address_opt cmd of
        None \<Rightarrow> Inr ev
      | Some addr \<Rightarrow>
          bindE (case addr of
                   Some s \<Rightarrow> Inr s
                 | None \<Rightarrow> if submit then ok_or change_address MemberOrChangeAddressRequired
                           else Inl MemberAddressRequired) (\<lambda>addr_str.
          bindE (ok_or (parse_address addr_str) AddressInvalid) (\<lambda>addr.
            Inr (ev\<lparr>ev_pid := Some (participant_id sha256 (creator_address_body_from_addr addr))\<rparr>))))"

definition post_event ::
  "(bytes \<Rightarrow> nat \<Rightarrow> bytes option) \<Rightarrow> (bytes \<Rightarrow> bytes) \<Rightarrow> (bytes \<Rightarrow> Address option) \<Rightarrow> (cval \<Rightarrow> bytes) \<Rightarrow>
     PostCmd \<Rightarrow> bool \<Rightarrow> bytes option \<Rightarrow> CliError + ParsedKommsEvent \<times> bytes" where
  "post_event hex_decode sha256 parse_address ser cmd submit change_address =
     bindE (build_post_ev hex_decode cmd) (\<lambda>ev.
     bindE (patch_member_join_leave_pid sha256 parse_address ev cmd submit change_address) (\<lambda>ev.
     bindE (map_err EncodeEvent (encode_komms_payload ser ev)) (\<lambda>raw. Inr (ev, raw))))"

section \<open>What the commands build\<close>

fun cmd_type :: "PostCmd \<Rightarrow> EventType" where
  "cmd_type (Post_ServerCreate sid rh cs ch m) = ServerCreate"
| "cmd_type (Post_ServerUpdate sid rh cs ch m) = ServerUpdate"
| "cmd_type (Post_ChannelCreate sid cid rh m) = ChannelCreate"
| "cmd_type (Post_ChannelUpdate sid cid rh m) = ChannelUpdate"
| "cmd_type (Post_MessagePost sid cid rh rc ch pid m) = MessagePost"
| "cmd_type (Post_MessageEdit sid cid mid rh rc ch m) = MessageEdit"
| "cmd_type (Post_MessageDelete sid cid mid m) = MessageDelete"
| "cmd_type (Post_DmMessagePost did rh rc ch m) = DmMessagePost"
| "cmd_type (Post_ReactionAdd sid cid mid rh m) = ReactionAdd"
| "cmd_type (Post_ReactionRemove sid cid mid rh m) = ReactionRemove"
| "cmd_type (Post_MemberJoin sid addr rh m) = MemberJoin"
| "cmd_type (Post_MemberLeave sid addr rh m) = MemberLeave"
| "cmd_type (Post_RoleAssign sid cid rh m) = RoleAssign"
| "cmd_type (Post_RoleRevoke sid cid rh m) = RoleRevoke"
| "cmd_type (Post_ModerationAction sid cid mid rh m) = ModerationAction"

fun cmd_meta :: "PostCmd \<Rightarrow> OptMeta" where
  "cmd_meta (Post_ServerCreate sid rh cs ch m) = m"
| "cmd_meta (Post_ServerUpdate sid rh cs ch m) = m"
| "cmd_meta (Post_ChannelCreate sid cid rh m) = m"
| "cmd_meta (Post_ChannelUpdate sid cid rh m) = m"
| "cmd_meta (Post_MessagePost sid cid rh rc ch pid m) = m"
| "cmd_meta (Post_MessageEdit sid cid mid rh rc ch m) = m"
| "cmd_meta (Post_MessageDelete sid cid mid m) = m"
| "cmd_meta (Post_DmMessagePost did rh rc ch m) = m"
| "cmd_meta (Post_ReactionAdd sid cid mid rh m) = m"
| "cmd_meta (Post_ReactionRemove sid cid mid rh m) = m"
| "cmd_meta (Post_MemberJoin sid addr rh m) = m"
| "cmd_meta (Post_MemberLeave sid addr rh m) = m"
| "cmd_meta (Post_RoleAssign sid cid rh m) = m"
| "cmd_meta (Post_RoleRevoke sid cid rh m) = m"
| "cmd_meta (Post_ModerationAction sid cid mid rh m) = m"

text \<open>The fields of the v0 format only.\<close>

definition v0_fields_only :: "ParsedKommsEvent \<Rightarrow> bool" where
  "v0_fields_only ev \<longleftrightarrow> ev = default_event\<lparr> ev_v := ev_v ev, ev_t := ev_t ev, ev_sid := ev_sid ev,
     ev_cid := ev_cid ev, ev_did := ev_did ev, ev_pid := ev_pid ev, ev_mid := ev_mid ev,
     ev_ref_bytes := ev_ref_bytes ev, ev_enc := ev_enc ev, ev_ts := ev_ts ev, ev_n := ev_n ev,
     ev_sig := ev_sig ev \<rparr>"

definition built :: "PostCmd \<Rightarrow> ParsedKommsEvent \<Rightarrow> bool" where
  "built cmd ev \<longleftrightarrow> wf_event ev \<and> v0_fields_only ev \<and> ev_v ev = 0 \<and> ev_t ev = cmd_type cmd \<and>
     (ev_enc ev \<longleftrightarrow> cmd_type cmd = DmMessagePost) \<and>
     ev_ts ev = meta_ts (cmd_meta cmd) \<and> ev_n ev = meta_n (cmd_meta cmd)"

text \<open>The required fields of the row of the event table for the command's type that
  \<open>build_post_ev\<close> fills in itself.\<close>

definition filled :: "ParsedKommsEvent \<Rightarrow> bool" where
  "filled ev \<longleftrightarrow>
     (if ev_t ev = DmMessagePost
      then ev_did ev \<noteq> None \<and> ev_sid ev = None \<and> ev_cid ev = None
      else ev_sid ev \<noteq> None \<and> ev_did ev = None) \<and>
     (ev_t ev \<in> {ServerCreate, ServerUpdate, MemberJoin, MemberLeave} \<longrightarrow> ev_cid ev = None) \<and>
     (ev_t ev \<in> {ChannelCreate, ChannelUpdate, MessagePost, MessageEdit, MessageDelete, ReactionAdd,
        ReactionRemove} \<longrightarrow> ev_cid ev \<noteq> None) \<and>
     (ev_t ev \<in> {MessageEdit, MessageDelete, ReactionAdd, ReactionRemove} \<longrightarrow> ev_mid ev \<noteq> None) \<and>
     (ev_t ev \<in> {MessagePost, MessageEdit, DmMessagePost} \<longrightarrow> ev_ref_bytes ev \<noteq> None)"

lemmas post_ev_defs = server_ev_def channel_ev_def message_post_ev_def message_edit_ev_def
  message_delete_ev_def dm_ev_def reaction_ev_def member_ev_def role_ev_def moderation_ev_def

lemma opt_arg_Inr: "opt_arg f x = Inr y \<longleftrightarrow>
    (x = None \<and> y = None) \<or> (\<exists>a b. x = Some a \<and> f a = Inr b \<and> y = Some b)"
  by (cases x) (auto simp: opt_arg_def result_simps)

text \<open>\<open>built_from\<close> is \<open>built\<close> without the flag \<open>enc\<close>; it holds of \<open>post_base\<close> and every update the
  commands make keeps it.\<close>

definition built_from :: "EventType \<Rightarrow> OptMeta \<Rightarrow> ParsedKommsEvent \<Rightarrow> bool" where
  "built_from t m ev \<longleftrightarrow> wf_event ev \<and> v0_fields_only ev \<and> ev_v ev = 0 \<and> ev_t ev = t \<and>
     ev_ts ev = meta_ts m \<and> ev_n ev = meta_n m"

lemma built_iff: "built cmd ev \<longleftrightarrow> built_from (cmd_type cmd) (cmd_meta cmd) ev \<and>
    (ev_enc ev \<longleftrightarrow> cmd_type cmd = DmMessagePost)"
  by (auto simp: built_def built_from_def)

lemma v0_fields_only_update:
  assumes "v0_fields_only ev"
  shows "v0_fields_only (ev\<lparr>ev_sid := x\<rparr>)" "v0_fields_only (ev\<lparr>ev_cid := x\<rparr>)"
    "v0_fields_only (ev\<lparr>ev_did := x\<rparr>)" "v0_fields_only (ev\<lparr>ev_pid := x\<rparr>)"
    "v0_fields_only (ev\<lparr>ev_mid := x\<rparr>)" "v0_fields_only (ev\<lparr>ev_ref_bytes := x\<rparr>)"
    "v0_fields_only (ev\<lparr>ev_enc := e\<rparr>)"
  using assms by (cases ev; simp add: v0_fields_only_def default_event_def)+

lemma built_from_base: "len_ok 64 sig \<Longrightarrow> built_from t m (post_base t m sig)"
  by (simp add: built_from_def post_base_def v0_fields_only_def wf_event_def default_event_def btree.ok_empty)

lemma built_from_update:
  assumes "built_from t m ev"
  shows "len_ok 32 x \<Longrightarrow> built_from t m (ev\<lparr>ev_sid := x\<rparr>)" "len_ok 32 x \<Longrightarrow> built_from t m (ev\<lparr>ev_cid := x\<rparr>)"
    "len_ok 32 x \<Longrightarrow> built_from t m (ev\<lparr>ev_did := x\<rparr>)" "len_ok 32 x \<Longrightarrow> built_from t m (ev\<lparr>ev_pid := x\<rparr>)"
    "len_ok 32 x \<Longrightarrow> built_from t m (ev\<lparr>ev_mid := x\<rparr>)" "built_from t m (ev\<lparr>ev_ref_bytes := x\<rparr>)"
    "built_from t m (ev\<lparr>ev_enc := e\<rparr>)"
  using assms v0_fields_only_update [of ev] by (simp_all add: built_from_def wf_event_def)

lemma post_base_enc [simp]: "ev_enc (post_base t m sig) = False" "ev_t (post_base t m sig) = t"
    "ev_sid (post_base t m sig) = None" "ev_cid (post_base t m sig) = None"
    "ev_did (post_base t m sig) = None" "ev_pid (post_base t m sig) = None"
    "ev_mid (post_base t m sig) = None" "ev_ref_bytes (post_base t m sig) = None"
  by (simp_all add: post_base_def default_event_def)

context hex_codec
begin

lemma opt_arg_hex32: "opt_arg (parse_hex32 hex_decode) x = Inr y \<Longrightarrow> len_ok 32 y"
  by (auto simp: opt_arg_Inr parse_hex32_length)

lemma meta_sig_length: "meta_sig hex_decode m = Inr y \<Longrightarrow> len_ok 64 y"
  by (auto simp: meta_sig_def opt_arg_Inr parse_hex64_length)

lemmas arg_lengths = opt_arg_hex32 meta_sig_length parse_hex32_length

lemma build_post_built:
  assumes "build_post_ev hex_decode cmd = Inr ev"
  shows "built cmd ev"
  unfolding built_iff using assms
  by (cases cmd) (auto simp: post_ev_defs result_simps dest!: arg_lengths intro!: built_from_base built_from_update)

lemma build_post_filled:
  assumes "build_post_ev hex_decode cmd = Inr ev"
  shows "filled ev"
  using assms by (cases cmd) (auto simp: post_ev_defs result_simps filled_def)

end

end
