(* ===== verification/Cli_Post_Valid.thy ===== *)
theory Cli_Post_Valid
  imports Cli_Post
begin

text \<open>
  What becomes of the events the \<open>post\<close> commands build: which of them pass the validation that
  precedes encoding, what the payloads parse to, and what the role commands do. The lemmas speak of
  any event with the fields of a command (\<open>built\<close>, \<open>filled\<close>), so that the participant id of
  the member commands may be filled in later.
\<close>

lemma validate_parts_iff: "validate_event ev = Inr () \<longleftrightarrow> envelope_ok ev \<and> scheme_ok ev \<and> row_ok ev"
  using valid_parts valid_I by blast

lemma v0_fields_only_None:
  assumes "v0_fields_only ev"
  shows "ev_parent_mid ev = None" "ev_enc_scheme ev = None" "ev_kind ev = None" "ev_mime ev = None"
    "ev_ref_type ev = None" "ev_device_pk ev = None" "ev_sig_scheme ev = None"
    "ev_reaction_key ev = None" "ev_payment_hint ev = None" "ev_member_tag ev = None"
    "ev_member_sealed ev = None" "ev_enc_sid ev = None" "ev_enc_cid ev = None"
    "ev_enc_body_ref ev = None" "ev_enc_parent_mid ev = None" "ev_match_tag ev = None"
    "ev_enc_t ev = None" "ev_key_epoch ev = None" "ev_sealed_signer ev = None"
    "ev_role ev = None" "ev_target ev = None" "ev_extension_fields ev = om_empty"
  using assms by (cases ev; simp add: v0_fields_only_def default_event_def)+

definition role_cmd :: "PostCmd \<Rightarrow> bool" where
  "role_cmd cmd \<longleftrightarrow> cmd_type cmd \<in> {RoleAssign, RoleRevoke}"

definition ref_acceptable :: "ParsedKommsEvent \<Rightarrow> bool" where
  "ref_acceptable ev \<longleftrightarrow>
     (\<forall>r. ev_ref_bytes ev = Some r \<longrightarrow> validate_ref r = Inr ()) \<and>
     (ev_t ev \<in> {ReactionAdd, ReactionRemove} \<longrightarrow> ev_ref_bytes ev \<noteq> None)"

lemma built_parts:
  assumes "built cmd ev"
  shows "envelope_ok ev \<longleftrightarrow> (\<forall>r. ev_ref_bytes ev = Some r \<longrightarrow> validate_ref r = Inr ())" and "scheme_ok ev"
proof -
  have v: "v0_fields_only ev" "ev_v ev = 0" "as_u8 (ev_t ev) \<noteq> 21" "as_u8 (ev_t ev) \<noteq> 22"
    using assms by (cases cmd; simp add: built_def)+
  show "envelope_ok ev \<longleftrightarrow> (\<forall>r. ev_ref_bytes ev = Some r \<longrightarrow> validate_ref r = Inr ())"
    using v v0_fields_only_None [OF v(1)] by (auto simp: envelope_ok_def ref_ok_def validate_ref_ok)
  show "scheme_ok ev"
    using v v0_fields_only_None [OF v(1)] by (simp add: scheme_ok_def)
qed

lemma built_row:
  assumes "built cmd ev" and "filled ev" and "cmd_type cmd \<in> {MemberJoin, MemberLeave} \<Longrightarrow> ev_pid ev \<noteq> None"
  shows "row_ok ev \<longleftrightarrow>
    \<not> role_cmd cmd \<and> (cmd_type cmd \<in> {ReactionAdd, ReactionRemove} \<longrightarrow> ev_ref_bytes ev \<noteq> None)"
proof -
  have v: "v0_fields_only ev" "ev_t ev = cmd_type cmd" "ev_enc ev \<longleftrightarrow> cmd_type cmd = DmMessagePost"
    using assms(1) by (simp_all add: built_def)
  show ?thesis
    using v(2,3) v0_fields_only_None [OF v(1)] assms(2,3)
    by (cases cmd) (simp_all add: row_ok_def role_cmd_def filled_def)
qed

lemma built_valid:
  assumes "built cmd ev" and "filled ev" and "cmd_type cmd \<in> {MemberJoin, MemberLeave} \<Longrightarrow> ev_pid ev \<noteq> None"
  shows "validate_event ev = Inr () \<longleftrightarrow> \<not> role_cmd cmd \<and> ref_acceptable ev"
proof -
  have "ev_t ev = cmd_type cmd" using assms(1) by (simp add: built_def)
  then show ?thesis
    using built_parts [OF assms(1)] built_row [OF assms]
    by (auto simp: validate_parts_iff ref_acceptable_def)
qed

lemma role_refused:
  assumes "built cmd ev" and "filled ev" and "role_cmd cmd" and "ref_acceptable ev"
  shows "validate_event ev = Inl (MissingForType (ev_t ev) ''target'')"
proof -
  have v: "v0_fields_only ev" "ev_t ev = cmd_type cmd"
    using assms(1) by (simp_all add: built_def)
  have "validate_envelope ev = Inr ()"
    using assms(4) built_parts(1) [OF assms(1)] by (simp add: validate_envelope_iff ref_acceptable_def)
  moreover have "validate_enc_scheme ev = Inr ()" "validate_sealed_sender ev = Inr ()" "validate_group_encrypted ev = Inr ()"
    using built_parts(2) [OF assms(1)] validate_scheme_iff [of ev] by auto
  moreover have "run_checks (type_checks ev) = Inl (MissingForType (ev_t ev) ''target'')"
    using v assms(2,3) v0_fields_only_None [OF v(1)]
    by (cases cmd) (simp_all add: type_checks_def role_assign_checks_def role_revoke_checks_def
        require_def has_sid_def role_cmd_def filled_def)
  ultimately show ?thesis by (simp add: validate_event_def)
qed

text \<open>The member commands fill in the participant id, the others leave the event alone.\<close>

definition member_address :: "PostCmd \<Rightarrow> bool \<Rightarrow> bytes option \<Rightarrow> bytes option" where
  "member_address cmd submit change_address =
     (case member_address_opt cmd of
        Some (Some s) \<Rightarrow> Some s
      | Some None \<Rightarrow> if submit then change_address else None
      | None \<Rightarrow> None)"

lemma patch_Inr:
  "patch_member_join_leave_pid sha256 parse_address ev cmd submit change = Inr ev' \<longleftrightarrow>
     (if cmd_type cmd \<in> {MemberJoin, MemberLeave}
      then \<exists>s addr. member_address cmd submit change = Some s \<and> parse_address s = Some addr \<and>
        ev' = ev\<lparr>ev_pid := Some (participant_id sha256 (creator_address_body_from_addr addr))\<rparr>
      else ev' = ev)"
  by (cases cmd) (auto simp: patch_member_join_leave_pid_def member_address_def result_simps
      split: option.splits)

lemma patched_built:
  assumes "built cmd ev" and "filled ev" and "length pid = 32"
  shows "built cmd (ev\<lparr>ev_pid := Some pid\<rparr>)" "filled (ev\<lparr>ev_pid := Some pid\<rparr>)"
  using assms built_from_update(4) [of "cmd_type cmd" "cmd_meta cmd" ev "Some pid"]
  by (simp_all add: built_iff filled_def)

lemma patched:
  assumes "hex_codec hex_string hex_decode" and "build_post_ev hex_decode cmd = Inr ev0"
    and "\<forall>x. length (sha256 x) = 32"
    and "patch_member_join_leave_pid sha256 parse_address ev0 cmd submit change = Inr ev"
  shows "built cmd ev" "filled ev" "cmd_type cmd \<in> {MemberJoin, MemberLeave} \<Longrightarrow> ev_pid ev \<noteq> None"
    "ref_acceptable ev = ref_acceptable ev0"
  using assms(4) hex_codec.build_post_built [OF assms(1,2)] hex_codec.build_post_filled [OF assms(1,2)]
  by (auto simp: patch_Inr participant_id_def sha256_domain_def assms(3) [rule_format] ref_acceptable_def
      intro: patched_built split: if_splits)

lemma post_event_Inr:
  "post_event hex_decode sha256 parse_address ser cmd submit change = Inr (ev, raw) \<longleftrightarrow>
     (\<exists>ev0. build_post_ev hex_decode cmd = Inr ev0 \<and>
        patch_member_join_leave_pid sha256 parse_address ev0 cmd submit change = Inr ev \<and>
        encode_komms_payload ser ev = Inr raw)"
  by (auto simp: post_event_def result_simps)

lemma encode_komms_payload_ok: "is_ok (encode_komms_payload ser ev) \<longleftrightarrow> validate_event ev = Inr ()"
  by (auto simp: is_ok_iff encode_komms_payload_def bindE_Inr_iff encode_cbor_map_Inr)

section \<open>The properties\<close>

text \<open>
  C22: a \<open>post\<close> command whose arguments parse produces a payload exactly when it is not a role
  command, its content reference (if any) is well formed, a reaction has a reference, and the
  member commands find a valid address, in \<open>--member-address\<close> or, with \<open>--submit\<close>, in
  \<open>--change-address\<close>. Everything else the validation requires, \<open>build_post_ev\<close> has filled in. (The
  README lists \<open>--ref-hex\<close> as optional for \<open>reaction-add\<close> and \<open>reaction-remove\<close>; it is not, because
  the validation wants a reference or a reaction key and these commands cannot give the latter.)
\<close>
theorem post_accepts_iff:
  assumes "hex_codec hex_string hex_decode" and "\<forall>x. length (sha256 x) = 32"
    and "build_post_ev hex_decode cmd = Inr ev0"
  shows "is_ok (post_event hex_decode sha256 parse_address ser cmd submit change) \<longleftrightarrow>
     \<not> role_cmd cmd \<and> ref_acceptable ev0 \<and>
     (cmd_type cmd \<in> {MemberJoin, MemberLeave} \<longrightarrow>
        (\<exists>s addr. member_address cmd submit change = Some s \<and> parse_address s = Some addr))"
proof -
  have "is_ok (post_event hex_decode sha256 parse_address ser cmd submit change) \<longleftrightarrow>
      (\<exists>ev. patch_member_join_leave_pid sha256 parse_address ev0 cmd submit change = Inr ev \<and>
         validate_event ev = Inr ())"
    using assms(3) encode_komms_payload_ok [of ser]
    by (auto simp: post_event_def is_ok_iff result_simps)
  also have "\<dots> \<longleftrightarrow> (\<exists>ev. patch_member_join_leave_pid sha256 parse_address ev0 cmd submit change = Inr ev) \<and>
      \<not> role_cmd cmd \<and> ref_acceptable ev0"
  proof -
    have "validate_event ev = Inr () \<longleftrightarrow> \<not> role_cmd cmd \<and> ref_acceptable ev0"
      if "patch_member_join_leave_pid sha256 parse_address ev0 cmd submit change = Inr ev" for ev
      using patched [OF assms(1,3,2) that] built_valid [of cmd ev] by auto
    then show ?thesis by blast
  qed
  finally show ?thesis by (auto simp: patch_Inr)
qed

text \<open>The payload of a successful \<open>post\<close> command parses back, under the strict parser, to the event that
  was posted, with \<open>enc_scheme\<close> as the parser fills it in.\<close>

lemma post_parses:
  assumes "cbor_codec ser de" and "hex_codec hex_string hex_decode" and "\<forall>x. length (sha256 x) = 32"
    and post: "post_event hex_decode sha256 parse_address ser cmd submit change = Inr (ev, raw)"
    and "length raw < 2 ^ 64" and "\<And>r. ev_ref_bytes ev = Some r \<Longrightarrow> length r < 2 ^ 64"
  shows "parse_komms_payload de raw = Inr (ev\<lparr>ev_enc_scheme := Some (if ev_enc ev then 1 else 0)\<rparr>) \<and>
     ev_t ev = cmd_type cmd \<and> ev_v ev = 0 \<and> ev_ts ev = meta_ts (cmd_meta cmd) \<and>
     ev_n ev = meta_n (cmd_meta cmd) \<and> (ev_enc ev \<longleftrightarrow> cmd_type cmd = DmMessagePost)"
proof -
  from post obtain ev0 where "build_post_ev hex_decode cmd = Inr ev0"
    "patch_member_join_leave_pid sha256 parse_address ev0 cmd submit change = Inr ev"
    and enc: "encode_komms_payload ser ev = Inr raw" unfolding post_event_Inr by blast
  from patched(1) [OF assms(2) this(1) assms(3) this(2)] have b: "built cmd ev" .
  then have wf: "wf_event ev" "ev_v ev = 0" and v0: "v0_fields_only ev" by (simp_all add: built_def)
  have "encodable ev"
    using wf assms(6) v0_fields_only_None [OF v0]
    by (auto simp: encodable_def wire_layout_def uint_val_def om_empty_def wf_event_def Some_map_option)
  moreover have "validate_event ev = Inr ()"
    using enc encode_komms_payload_ok [of ser ev] by simp
  then have "validate_event (as_parsed ev) = Inr ()"
    by (rule valid_as_parsed) (simp add: v0_fields_only_None [OF v0])
  ultimately have "parse_komms_payload de raw = Inr (as_parsed ev)"
    using parse_of_encode [OF assms(1) wf(1) _ enc assms(5)] by simp
  with b wf(2) show ?thesis by (simp add: as_parsed_def built_def)
qed

text \<open>
  C34: \<open>post role-assign\<close> and \<open>post role-revoke\<close> never produce a payload, whatever their
  arguments: they have no option for the target and the role that the validation requires. With
  well-formed arguments the error is the missing \<open>target\<close>.
\<close>
theorem role_posts_refused:
  assumes "hex_codec hex_string hex_decode" and "\<forall>x. length (sha256 x) = 32" and "role_cmd cmd"
  shows "\<exists>e. post_event hex_decode sha256 parse_address ser cmd submit change = Inl e \<and>
     (\<forall>ev0. build_post_ev hex_decode cmd = Inr ev0 \<and> ref_acceptable ev0 \<longrightarrow>
        e = EncodeEvent (MissingForType (cmd_type cmd) ''target''))"
proof (cases "build_post_ev hex_decode cmd")
  case (Inl e)
  then show ?thesis by (simp add: post_event_def)
next
  case (Inr ev0)
  have patch: "patch_member_join_leave_pid sha256 parse_address ev0 cmd submit change = Inr ev0"
    using assms(3) by (auto simp: patch_Inr role_cmd_def)
  note b = patched [OF assms(1) Inr assms(2) patch]
  have "validate_event ev0 \<noteq> Inr ()"
    using built_valid [OF b(1,2)] b(3) assms(3) by blast
  then obtain e where e: "validate_event ev0 = Inl e" by (cases "validate_event ev0") auto
  moreover have "e = MissingForType (cmd_type cmd) ''target''" if "ref_acceptable ev0"
    using role_refused [OF b(1,2) assms(3) that] e b(1) by (simp add: built_def)
  ultimately show ?thesis
    using Inr patch by (auto simp: post_event_def encode_komms_payload_def encode_cbor_map_def)
qed

section \<open>Witnesses\<close>

definition sample_id :: bytes where
  "sample_id = base16_encode (replicate 32 7)"

definition no_meta :: OptMeta where
  "no_meta = \<lparr> meta_ts = Some 5, meta_n = None, meta_sig_hex = None \<rparr>"

definition sample_post :: PostCmd where
  "sample_post = Post_MessagePost sample_id sample_id None (Some [0x62]) None None no_meta"

definition sample_post_ev :: ParsedKommsEvent where
  "sample_post_ev = (post_base MessagePost no_meta None)\<lparr> ev_sid := Some (replicate 32 7),
     ev_cid := Some (replicate 32 7), ev_ref_bytes := Some [0x01, 0x62] \<rparr>"

lemma parse_sample_id: "parse_hex32 base16_decode sample_id = Inr (replicate 32 7)"
  unfolding sample_id_def by (rule base16.parse_hex32_encode(1)) simp

lemma build_sample_post: "build_post_ev base16_decode sample_post = Inr sample_post_ev"
  by (simp add: sample_post_def message_post_ev_def parse_sample_id opt_arg_def ref_from_opts_def
      ref_from_cid_str_def meta_sig_def no_meta_def sample_post_ev_def post_base_def default_event_def)

theorem post_accepts_iff_witness:
  "is_ok (post_event base16_decode (\<lambda>_. replicate 32 0) (\<lambda>_. None) rfc_ser sample_post False None)"
  using post_accepts_iff [OF base16.hex_codec_axioms _ build_sample_post, of "\<lambda>_. replicate 32 0"]
  by (simp add: sample_post_def role_cmd_def ref_acceptable_def sample_post_ev_def validate_ref_def)

lemma post_sample: "post_event base16_decode (\<lambda>_. replicate 32 0) (\<lambda>_. None) rfc_ser sample_post False None
    = Inr (sample_post_ev, KOMMS_PAYLOAD_PREFIX @ rfc_ser (Map (event_pairs sample_post_ev)))"
proof -
  have "patch_member_join_leave_pid (\<lambda>_. replicate 32 0) (\<lambda>_. None) sample_post_ev sample_post False None
      = Inr sample_post_ev"
    by (simp add: patch_member_join_leave_pid_def sample_post_def)
  moreover have "validate_event sample_post_ev = Inr ()"
    by (rule valid_I) (simp_all add: sample_post_ev_def post_base_def no_meta_def default_event_def row_defs)
  ultimately show ?thesis
    by (simp add: post_event_def build_sample_post encode_komms_payload_def encode_cbor_map_def
        sample_post_ev_def validate_ref_def)
qed

theorem role_posts_refused_witness:
  "post_event base16_decode (\<lambda>_. replicate 32 0) (\<lambda>_. None) rfc_ser
     (Post_RoleAssign sample_id None None no_meta) False None
   = Inl (EncodeEvent (MissingForType RoleAssign ''target''))"
proof -
  let ?cmd = "Post_RoleAssign sample_id None None no_meta"
  have b: "build_post_ev base16_decode ?cmd
      = Inr ((post_base RoleAssign no_meta None)\<lparr> ev_sid := Some (replicate 32 7), ev_cid := None, ev_ref_bytes := None \<rparr>)"
    by (simp add: role_ev_def parse_sample_id opt_arg_def meta_sig_def no_meta_def)
  have "role_cmd ?cmd" by (simp add: role_cmd_def)
  from role_posts_refused [OF base16.hex_codec_axioms _ this, of "\<lambda>_. replicate 32 0" "\<lambda>_. None" rfc_ser False None] b
  show ?thesis by (auto simp: ref_acceptable_def)
qed

end
