(* ===== verification/Verify.thy ===== *)
theory Verify
  imports Payload
begin

text \<open>
  \<open>protocol/src/verify.rs\<close>: where the verifying key comes from and the verification itself.
  Ed25519 is a parameter: \<open>key_ok\<close> says which 32-byte strings \<open>VerifyingKey::from_bytes\<close>
  accepts, \<open>verify_strict pk msg sig\<close> whether the strict check succeeds.
\<close>

datatype SignerPubkey = InBand bytes | OutOfBand

datatype VerifyError =
    SignatureMissing
  | InvalidPubkey
  | SignatureInvalid
  | EncodeErr ValidationError

definition signer_pubkey_from_event :: "ParsedKommsEvent \<Rightarrow> SignerPubkey" where
  "signer_pubkey_from_event ev =
     (case ev_device_pk ev of Some dpk \<Rightarrow> InBand dpk | None \<Rightarrow> OutOfBand)"

definition verify_event ::
  "(bytes \<Rightarrow> bool) \<Rightarrow> (bytes \<Rightarrow> bytes \<Rightarrow> bytes \<Rightarrow> bool) \<Rightarrow> (cval \<Rightarrow> bytes) \<Rightarrow>
     ParsedKommsEvent \<Rightarrow> bytes \<Rightarrow> VerifyError + unit" where
  "verify_event key_ok verify_strict ser ev pubkey =
     bindE (ok_or (ev_sig ev) SignatureMissing) (\<lambda>sig_bytes.
     bindE (map_err EncodeErr (signing_payload_cbor ser ev)) (\<lambda>signing_bytes.
     if \<not> key_ok pubkey then Inl InvalidPubkey
     else if \<not> verify_strict pubkey signing_bytes sig_bytes then Inl SignatureInvalid
     else Inr ()))"

lemma verify_event_iff:
  "verify_event key_ok verify_strict ser ev pk = Inr () \<longleftrightarrow>
     (\<exists>sig msg. ev_sig ev = Some sig \<and> signing_payload_cbor ser ev = Inr msg \<and> key_ok pk \<and>
        verify_strict pk msg sig)"
  by (auto simp: verify_event_def bindE_Inr_iff result_simps)

text \<open>
  C17: a signature that verifies for an event verifies for no other event. Take an event that
  verifies under a key, any event carrying the same signature, and suppose the signature scheme
  does not accept that signature for both of their signing payloads when these differ. Then the
  second event verifies under the key exactly when it agrees with the first in every field,
  except that at version 0 \<open>enc_scheme\<close>, which v0 bytes do not carry, may differ. Both events
  must have a signing payload and be \<open>encodable\<close>, as every event received from the wire is
  (\<open>Payload.parsed_encodable\<close>).
\<close>
theorem verify_event_binds:
  assumes "cbor_codec ser de" and "wf_event ev" and "encodable ev" and "wf_event ev'" and "encodable ev'"
    and sig: "ev_sig ev = Some sig" "ev_sig ev' = Some sig"
    and ok: "verify_event key_ok verify_strict ser ev pk = Inr ()"
    and msgs: "signing_payload_cbor ser ev = Inr msg" "signing_payload_cbor ser ev' = Inr msg'"
    and unforged: "verify_strict pk msg sig \<Longrightarrow> verify_strict pk msg' sig \<Longrightarrow> msg = msg'"
  shows "verify_event key_ok verify_strict ser ev' pk = Inr () \<longleftrightarrow>
    ev' = ev\<lparr>ev_enc_scheme := if ev_v ev = 0 then ev_enc_scheme ev' else ev_enc_scheme ev\<rparr>"
proof -
  from ok sig msgs have key: "key_ok pk" and acc: "verify_strict pk msg sig"
    by (auto simp: verify_event_iff)
  have "verify_event key_ok verify_strict ser ev' pk = Inr () \<longleftrightarrow> msg = msg'"
    using sig msgs key acc unforged by (auto simp: verify_event_iff)
  also have "\<dots> \<longleftrightarrow> ev' = ev\<lparr>ev_sig := ev_sig ev', ev_enc_scheme :=
      if ev_v ev = 0 then ev_enc_scheme ev' else ev_enc_scheme ev\<rparr>"
    by (rule signing_payload_eq_iff [OF assms(1-5) msgs])
  also have "ev\<lparr>ev_sig := ev_sig ev'\<rparr> = ev" using sig by (cases ev) simp
  finally show ?thesis .
qed

text \<open>A version-0 event, with the \<open>enc_scheme\<close> v0 does not carry and the time stamp to choose, and
  a scheme that accepts each signature for one message only.\<close>

definition sample_v0 :: "u64 option \<Rightarrow> u64 option \<Rightarrow> ParsedKommsEvent" where
  "sample_v0 scheme ts = default_event \<lparr> ev_sid := Some (replicate 32 7), ev_ts := ts,
     ev_enc_scheme := scheme, ev_sig := Some (replicate 64 9) \<rparr>"

definition sample_msg :: bytes where
  "sample_msg = rfc_ser (Map (event_pairs (sample_v0 None None\<lparr>ev_sig := None\<rparr>)))"

definition sample_scheme :: "bytes \<Rightarrow> bytes \<Rightarrow> bytes \<Rightarrow> bool" where
  "sample_scheme pk msg sig \<longleftrightarrow> pk = replicate 32 1 \<and> msg = sample_msg \<and> sig = replicate 64 9"

lemma sample_v0_parts:
  "wf_event (sample_v0 s t)" "encodable (sample_v0 s t)" "ev_sig (sample_v0 s t) = Some (replicate 64 9)"
  by (auto simp: sample_v0_def default_event_def wf_event_def encodable_def
      wire_layout_def om_empty_def om_ok_def uint_val_def)

lemma sample_v0_payload:
  assumes "s \<noteq> Some 4"
  shows "signing_payload_cbor rfc_ser (sample_v0 s t)
    = Inr (rfc_ser (Map (event_pairs (sample_v0 s t\<lparr>ev_sig := None\<rparr>))))"
proof -
  have "validate_event (sample_v0 s t\<lparr>ev_sig := None\<rparr>) = Inr ()"
    by (rule valid_I) (use assms in \<open>simp_all add: sample_v0_def default_event_def default_EventType_def row_defs\<close>)
  then show ?thesis by (simp add: signing_payload_Inr)
qed

lemma verify_sample_v0:
  "verify_event (\<lambda>_. True) sample_scheme rfc_ser (sample_v0 None None) (replicate 32 1) = Inr ()"
  by (simp add: verify_event_iff sample_v0_parts sample_v0_payload sample_scheme_def sample_msg_def)

theorem verify_event_binds_witness:
  "verify_event (\<lambda>_. True) sample_scheme rfc_ser (sample_v0 (Some 0) None) (replicate 32 1) = Inr () \<and>
   verify_event (\<lambda>_. True) sample_scheme rfc_ser (sample_v0 None (Some 5)) (replicate 32 1) \<noteq> Inr ()"
proof -
  have iff: "verify_event (\<lambda>_. True) sample_scheme rfc_ser (sample_v0 s t) (replicate 32 1) = Inr () \<longleftrightarrow>
      sample_v0 s t = sample_v0 None None\<lparr>ev_enc_scheme := if ev_v (sample_v0 None None) = 0
        then ev_enc_scheme (sample_v0 s t) else ev_enc_scheme (sample_v0 None None)\<rparr>"
    if "s \<noteq> Some 4" for s t
    by (rule verify_event_binds [OF rfc.cbor_codec_axioms sample_v0_parts(1,2) sample_v0_parts(1,2)
        sample_v0_parts(3) sample_v0_parts(3) verify_sample_v0 sample_v0_payload sample_v0_payload [OF that]])
      (simp_all add: sample_scheme_def)
  show ?thesis
    using iff [of "Some 0" None] iff [of None "Some 5"]
    by (simp add: sample_v0_def default_event_def)
qed

definition signed_types :: "EventType set" where
  "signed_types = {DeviceRegister, DeviceRevoke, SealedMemberLeave}"

lemma signing_payload_signed_types:
  assumes "ev_t ev \<in> signed_types"
  shows "\<exists>e. signing_payload_cbor ser ev = Inl e"
proof -
  have "\<not> row_ok (ev\<lparr>ev_sig := None\<rparr>)"
    using assms by (auto simp: signed_types_def row_ok_def)
  then have "validate_event (ev\<lparr>ev_sig := None\<rparr>) \<noteq> Inr ()"
    using valid_parts(3) by blast
  then show ?thesis
    by (cases "signing_payload_cbor ser ev") (auto simp: signing_payload_cbor_def encode_cbor_map_Inr)
qed

lemma valid_unsigned:
  assumes "validate_event ev = Inr ()" and "ev_t ev \<notin> signed_types"
  shows "validate_event (ev\<lparr>ev_sig := None\<rparr>) = Inr ()"
proof (rule valid_I)
  note parts = valid_parts [OF assms(1)]
  show "envelope_ok (ev\<lparr>ev_sig := None\<rparr>)" "scheme_ok (ev\<lparr>ev_sig := None\<rparr>)"
    using parts(1,2) by (simp_all add: row_defs)
  show "row_ok (ev\<lparr>ev_sig := None\<rparr>)"
    using parts(3) assms(2) by (cases "ev_t ev") (auto simp: row_ok_def signed_types_def)
qed

lemma bk_inject: "bk j = bk k \<longleftrightarrow> j = k"
  by (simp add: bk_eq)

lemma filter_opt_pair:
  "filter (\<lambda>(k, v). k \<noteq> bk i) (opt_pair j f x) = (if i = j then [] else opt_pair j f x)"
  by (auto simp: opt_pair_def bk_inject split: option.split)

text \<open>Clearing the signature drops the entry under key 11 and nothing else.\<close>

lemma event_pairs_unsigned:
  assumes "ext_keys_ok ev"
  shows "event_pairs (ev\<lparr>ev_sig := None\<rparr>) = filter (\<lambda>(k, v). k \<noteq> bk 11) (event_pairs ev)"
proof -
  have "k \<noteq> 11" if "(k, v) \<in> set (ev_extension_fields ev)" for k v
    using assms that by (auto simp: ext_keys_ok_def EXTENSION_KEY_MIN_def word_le_nat_alt)
  then have "filter (\<lambda>(k, v). k \<noteq> bk 11) (map (\<lambda>(key, val). (bk key, val)) (om_entries (ev_extension_fields ev)))
      = map (\<lambda>(key, val). (bk key, val)) (om_entries (ev_extension_fields ev))"
    by (auto simp: om_entries_def filter_id_conv bk_inject)
  moreover have "opt_pair 11 Bytes None = []" by (simp add: opt_pair_def)
  ultimately show ?thesis
    by (simp add: event_pairs_def filter_opt_pair bk_inject)
qed

lemma wf_item_filter:
  "wf_item d (Dict kvs) \<Longrightarrow> wf_item d (Dict (filter P kvs))"
  "plain_item (Dict kvs) \<Longrightarrow> plain_item (Dict (filter P kvs))"
  "texts_valid (Dict kvs) \<Longrightarrow> texts_valid (Dict (filter P kvs))"
  by (auto simp: le_less_trans [OF length_filter_le] sorted_wrt_map intro: sorted_wrt_filter)

text \<open>
  C33: the event types that must be signed can never be verified: for device registrations,
  device revocations and sealed leaves \<open>verify_event\<close> returns an error for every signature, key
  and signature scheme, because \<open>signing_payload_cbor\<close> clears the signature and then validates
  an event that is required to carry one.
\<close>
theorem verify_event_never_accepts_signed_types:
  assumes "ev_t ev \<in> {DeviceRegister, DeviceRevoke, SealedMemberLeave}"
  shows "\<exists>e. verify_event key_ok verify_strict ser ev pk = Inl e"
  using assms signing_payload_signed_types [of ev ser]
  by (cases "ev_sig ev") (auto simp: verify_event_def signed_types_def)

definition sample_device :: ParsedKommsEvent where
  "sample_device = default_event \<lparr> ev_v := 1, ev_t := DeviceRegister, ev_enc_scheme := Some 0,
     ev_ts := Some 1, ev_n := Some 1, ev_device_pk := Some (replicate 32 2), ev_sig_scheme := Some 0,
     ev_sig := Some (replicate 64 3) \<rparr>"

theorem verify_event_never_accepts_signed_types_witness:
  "validate_event sample_device = Inr () \<and>
   (\<exists>e. verify_event (\<lambda>_. True) (\<lambda>_ _ _. True) rfc_ser sample_device (replicate 32 2) = Inl e)"
proof
  show "validate_event sample_device = Inr ()"
    by (rule valid_I) (simp_all add: sample_device_def default_event_def row_defs)
  show "\<exists>e. verify_event (\<lambda>_. True) (\<lambda>_ _ _. True) rfc_ser sample_device (replicate 32 2) = Inl e"
    by (rule verify_event_never_accepts_signed_types) (simp add: sample_device_def)
qed

section \<open>Verifying received bytes\<close>

lemma filter_sig_entry:
  "filter (\<lambda>(k, v). k \<noteq> bk 11) (map (\<lambda>(k, v). (Integer (uint (k :: u64)), value_of v)) kvs)
     = map (\<lambda>(k, v). (Integer (uint k), value_of v)) (filter (\<lambda>(k, v). k \<noteq> 11) kvs)"
  by (induction kvs) (auto simp: bk_eq word_eq_iff_unsigned [where 'a = int])

lemma wire_map:
  "map fst kvs = map ucast ks \<Longrightarrow>
     map_of (zip ks (map snd (map (\<lambda>(k, v). (Integer (uint (k :: u64)), value_of v)) kvs))) (k :: u8)
       = map_option value_of (map_of kvs (ucast k))"
proof (induction kvs arbitrary: ks)
  case (Cons kv kvs)
  obtain j w where kv: "kv = (j, w)" by (cases kv)
  from Cons.prems obtain b ks' where ks: "ks = b # ks'" "j = ucast b" "map fst kvs = map ucast ks'"
    by (cases ks) (simp_all add: kv)
  have "b = k \<longleftrightarrow> j = ucast k"
    unfolding ks(2) using ucast_less [of b k] ucast_less [of k b] by (cases b k rule: linorder_cases) auto
  with Cons.IH [OF ks(3)] show ?case by (cases "k = b") (auto simp: kv ks(1))
qed simp

lemma value_of_Bytes: "value_of w = Bytes b \<longleftrightarrow> w = ByteStr b"
  by (cases w) (auto split: simple.splits)

text \<open>
  C38: verification of a received event is verification of the received bytes. For a payload
  the strict parser accepts, of a type that may be unsigned, \<open>verify_event\<close> looks up the
  signature of key 11 and gives the signature scheme the CBOR map of the payload with exactly
  the entry under key 11 left out, byte for byte as it was received. (The bytes hold no \<open>undefined\<close>, no
  key 13 at version 0 and no role above 255, where the parse is not faithful to them.)
\<close>
theorem verify_received:
  assumes "cbor_codec ser de" and parse: "parse_komms_payload de raw = Inr ev"
    and raw: "raw = KOMMS_PAYLOAD_PREFIX @ enc_item (Dict kvs)"
    and wf: "wf_item 0 (Dict kvs)" and plain: "plain_item (Dict kvs)"
    and v0: "ev_v ev = 0 \<Longrightarrow> 13 \<notin> fst ` set kvs"
    and role: "\<And>u. (31, UInt u) \<in> set kvs \<Longrightarrow> u \<le> 0xFF"
    and t: "ev_t ev \<notin> {DeviceRegister, DeviceRevoke, SealedMemberLeave}"
  shows "verify_event key_ok verify_strict ser ev pk =
     (case map_of kvs 11 of
        Some (ByteStr sig) \<Rightarrow>
          if \<not> key_ok pk then Inl InvalidPubkey
          else if \<not> verify_strict pk (enc_item (Dict (filter (\<lambda>(k, v). k \<noteq> 11) kvs))) sig
            then Inl SignatureInvalid
          else Inr ()
      | _ \<Rightarrow> Inl SignatureMissing)"
proof -
  let ?entries = "map (\<lambda>(k, v). (Integer (uint k), value_of v)) :: (u64 \<times> item) list \<Rightarrow> _"
  let ?rest = "filter (\<lambda>(k, v). k \<noteq> 11) kvs"
  note p = parse [unfolded raw]
  obtain ks where fst: "map fst kvs = map ucast ks" and texts: "texts_valid (Dict kvs)"
    and f: "fields_of ev (map_of (zip ks (map snd (?entries kvs))))"
    by (rule parsed_fields [OF assms(1) p wf plain])
  have pairs: "event_pairs ev = ?entries kvs" "ext_keys_ok ev"
    using parsed_pairs [OF assms(1) p wf plain v0 role] by blast+
  have "event_pairs (ev\<lparr>ev_sig := None\<rparr>) = ?entries ?rest"
    unfolding event_pairs_unsigned [OF pairs(2)] pairs(1) by (rule filter_sig_entry)
  then have "ser (Map (event_pairs (ev\<lparr>ev_sig := None\<rparr>))) = enc_item (Dict ?rest)"
    using cbor_codec.ser_item [OF assms(1) wf_item_filter(1) [OF wf] wf_item_filter(2) [OF plain]
        wf_item_filter(3) [OF texts]] by simp
  then have msg: "signing_payload_cbor ser ev = Inr (enc_item (Dict ?rest))"
    using valid_unsigned [OF parsed_valid [OF parse]] t by (simp add: signing_payload_Inr signed_types_def)
  have "map_option value_of (map_of kvs 11) = map_option Bytes (ev_sig ev)"
    using f wire_map [OF fst, of 11] by (simp add: fields_of_def field_layout_def)
  then have "ev_sig ev = (case map_of kvs 11 of Some (ByteStr sig) \<Rightarrow> Some sig | _ \<Rightarrow> None)"
    by (cases "ev_sig ev") (auto simp: value_of_Bytes split: option.splits)
  then show ?thesis
    by (simp add: verify_event_def msg split: option.split item.split)
qed

text \<open>The direct message of \<open>Payload\<close>, signed, as it arrives.\<close>

definition received_dm :: ParsedKommsEvent where
  "received_dm = sample_dm\<lparr>ev_sig := Some (replicate 64 9)\<rparr>"

definition received_dm_kvs :: "(u64 \<times> item) list" where
  "received_dm_kvs = [(0, UInt 1), (1, UInt 7), (4, ByteStr (replicate 32 7)),
     (7, ByteStr [0x01, 0x62]), (8, Simple STrue), (9, UInt 1700000000), (10, UInt 7),
     (11, ByteStr (replicate 64 9)), (13, UInt 1)]"

lemma received_dm_item: "rfc_ser (Map (event_pairs received_dm)) = enc_item (Dict received_dm_kvs)"
  by (simp add: rfc_ser_def event_pairs_def received_dm_def sample_dm_def default_event_def
      opt_pair_def bk_def uint_val_def om_empty_def om_entries_def received_dm_kvs_def)

lemma valid_received_dm: "validate_event received_dm = Inr ()"
  by (rule valid_I) (simp_all add: received_dm_def sample_dm_def default_event_def row_defs)

lemma parse_received_dm:
  "parse_komms_payload rfc_de (KOMMS_PAYLOAD_PREFIX @ enc_item (Dict received_dm_kvs)) = Inr received_dm"
proof -
  have enc: "encode_komms_payload rfc_ser received_dm = Inr (KOMMS_PAYLOAD_PREFIX @ enc_item (Dict received_dm_kvs))"
    using valid_received_dm
    by (simp add: encode_komms_payload_def bindE_Inr_iff encode_cbor_map_Inr received_dm_item)
  have len: "length (KOMMS_PAYLOAD_PREFIX @ enc_item (Dict received_dm_kvs)) < 2 ^ 64"
    by (simp add: received_dm_kvs_def KOMMS_PAYLOAD_PREFIX_def encode_cbor_uint_header_def)
  have "as_parsed received_dm = received_dm" by (simp add: as_parsed_def received_dm_def sample_dm_def)
  moreover have "wf_event received_dm" "encodable received_dm"
    using wf_sample_dm_variants by (simp_all add: received_dm_def)
  ultimately show ?thesis
    using parse_of_encode [OF rfc.cbor_codec_axioms _ _ enc len] valid_received_dm by simp
qed

theorem verify_received_witness:
  "verify_event (\<lambda>_. True) (\<lambda>pk msg sig. msg = enc_item (Dict sample_dm_kvs)) rfc_ser received_dm [] = Inr ()"
proof -
  have rest: "filter (\<lambda>(k, v). k \<noteq> 11) received_dm_kvs = sample_dm_kvs"
    and sig: "map_of received_dm_kvs 11 = Some (ByteStr (replicate 64 9))"
    by (simp_all add: received_dm_kvs_def sample_dm_kvs_def)
  have wf: "wf_item 0 (Dict received_dm_kvs)" "plain_item (Dict received_dm_kvs)"
    by (simp_all add: received_dm_kvs_def MAX_NESTING_DEPTH_def word_less_nat_alt)
  have v0: "ev_v received_dm = 0 \<Longrightarrow> 13 \<notin> fst ` set received_dm_kvs"
    and role: "(31, UInt u) \<in> set received_dm_kvs \<Longrightarrow> u \<le> 0xFF"
    and t: "ev_t received_dm \<notin> {DeviceRegister, DeviceRevoke, SealedMemberLeave}" for u
    by (simp_all add: received_dm_def sample_dm_def received_dm_kvs_def)
  have "verify_event (\<lambda>_. True) (\<lambda>pk msg sig. msg = enc_item (Dict sample_dm_kvs)) rfc_ser received_dm []
    = (case map_of received_dm_kvs 11 of
        Some (ByteStr sig) \<Rightarrow>
          if \<not> True then Inl InvalidPubkey
          else if \<not> enc_item (Dict (filter (\<lambda>(k, v). k \<noteq> 11) received_dm_kvs)) = enc_item (Dict sample_dm_kvs)
            then Inl SignatureInvalid
          else Inr ()
      | _ \<Rightarrow> Inl SignatureMissing)"
    by (rule verify_received [OF rfc.cbor_codec_axioms parse_received_dm refl wf v0 role t])
  then show ?thesis by (simp only: rest sig option.case item.case) simp
qed

end
