(* ===== verification/Cli_Decode.thy ===== *)
theory Cli_Decode
  imports Output Verify
begin

text \<open>
  \<open>decode_payload\<close> and \<open>load_input_bytes\<close> of \<open>src/lib.rs\<close>, and the messages of
  \<open>ValidationError\<close> (\<open>protocol/src/lib.rs\<close>), which the lenient mode prints as a warning.
  Parameters: the CBOR library (\<open>ser\<close>, \<open>de\<close>), the hex library, Ed25519 (\<open>key_ok\<close>,
  \<open>verify_strict\<close>), \<open>debug_cval\<close> (the debug text of a CBOR value), and the standard input
  and the file system as the bytes that reading them gives.
\<close>

section \<open>Messages\<close>

definition field_msg :: "string \<Rightarrow> EventType \<Rightarrow> string \<Rightarrow> bytes" where
  "field_msg verb t f = ascii ''event type '' @ debug_EventType t @ ascii verb @ ascii f"

fun display_ValidationError :: "ValidationError \<Rightarrow> bytes" where
  "display_ValidationError (BadVersion v) =
     ascii ''schema version v must be 0 or 1 (got '' @ decimal (unat v) @ ascii '')''"
| "display_ValidationError InvalidRef = ascii ''invalid content reference (ref) encoding''"
| "display_ValidationError (ForbiddenField t f) = field_msg '' forbids field '' t f"
| "display_ValidationError (MissingForType t f) = field_msg '' requires field '' t f"
| "display_ValidationError InvalidEnc = ascii ''encryption flag invalid for this event type''"
| "display_ValidationError (EncSchemeMismatch scheme enc) =
     ascii ''enc_scheme '' @ decimal (unat scheme) @ ascii '' disagrees with enc='' @
       (if enc then ascii ''true'' else ascii ''false'')"
| "display_ValidationError (V1MissingField f) = ascii ''v1 event missing required field '' @ ascii f"
| "display_ValidationError InvalidReactionKey = ascii ''reaction_key (key 19) must be 1..=32 bytes''"
| "display_ValidationError InvalidMime = ascii ''mime (key 15) must be 1..=64 ASCII bytes''"
| "display_ValidationError (EphemeralOnChain t) =
     ascii ''event type '' @ debug_EventType t @
       ascii '' is ephemeral (WS-only) and MUST NOT appear on chain''"
| "display_ValidationError (OpaqueEventType t) =
     ascii ''event type '' @ debug_EventType t @
       ascii '' is reserved/opaque; indexers persist but do not validate''"
| "display_ValidationError DeprecatedEncSchemeMls =
     ascii ''enc_scheme = 2 (MLS) was rejected in v1.1 per ADR-012''"
| "display_ValidationError (V1_1MissingField f) =
     ascii ''v1.1 enc_scheme=4 event missing required field '' @ ascii f"
| "display_ValidationError SealedSenderNotImplemented =
     ascii ''sig_scheme = 1 (bLSAG) is reserved for Phase 3 (ADR-013); not yet implemented''"
| "display_ValidationError (InvalidTagLength f) =
     ascii ''v1.1 tag field '' @ ascii f @ ascii '' must be exactly 16 bytes''"
| "display_ValidationError (UnknownEncScheme s) =
     ascii ''enc_scheme '' @ decimal (unat s) @ ascii '' is not defined in this protocol version''"
| "display_ValidationError (UnknownRole r) =
     ascii ''role enum value '' @ decimal (unat r) @ ascii '' is not defined (0..='' @
       decimal (unat ROLE_MAX) @ ascii '')''"
| "display_ValidationError (InvalidTargetLength n) =
     ascii ''target address bytes must be '' @ [0xE2, 0x89, 0xA5] @ ascii '' 2 bytes (got '' @
       decimal n @ ascii '')''"

section \<open>Input\<close>

definition read_stdin_hex ::
  "(bytes \<Rightarrow> nat \<Rightarrow> bytes option) \<Rightarrow> bytes option \<Rightarrow> CliError + bytes" where
  "read_stdin_hex hex_decode stdin =
     bindE (ok_or stdin InputIo) (\<lambda>buf.
       if \<not> utf8_valid buf then Inl StdinNotUtf8 else parse_hex_bytes hex_decode (trim buf))"

definition load_input_bytes ::
  "(bytes \<Rightarrow> nat \<Rightarrow> bytes option) \<Rightarrow> bytes option \<Rightarrow> (bytes \<Rightarrow> bytes option) \<Rightarrow> bytes option \<Rightarrow> CliError + bytes" where
  "load_input_bytes hex_decode stdin read_file s =
     (case s of
        None \<Rightarrow> read_stdin_hex hex_decode stdin
      | Some raw \<Rightarrow>
          (let raw = trim raw in
           if raw = [0x2D] then read_stdin_hex hex_decode stdin
           else if raw \<noteq> [] \<and> hd raw = 0x40 then ok_or (read_file (tl raw)) InputIo
           else parse_hex_bytes hex_decode raw))"

section \<open>Decoding\<close>

definition decode_event ::
  "(bytes \<Rightarrow> string + cval) \<Rightarrow> bytes \<Rightarrow> bool \<Rightarrow> CliError + ParsedKommsEvent \<times> bytes option" where
  "decode_event de raw strict =
     (if strict then mapE (\<lambda>ev. (ev, None)) (map_err StrictParse (parse_komms_payload de raw))
      else
        let cbor = (case strip_komms_envelope raw of None \<Rightarrow> raw | Some c \<Rightarrow> c) in
        bindE (map_err LenientParse (parse_cbor_map de cbor)) (\<lambda>ev.
          Inr (ev, (case validate_event ev of Inr _ \<Rightarrow> None
                    | Inl e \<Rightarrow> Some (display_ValidationError e)))))"

definition check_sig ::
  "(bytes \<Rightarrow> nat \<Rightarrow> bytes option) \<Rightarrow> (bytes \<Rightarrow> bool) \<Rightarrow> (bytes \<Rightarrow> bytes \<Rightarrow> bytes \<Rightarrow> bool) \<Rightarrow> (cval \<Rightarrow> bytes) \<Rightarrow>
     ParsedKommsEvent \<Rightarrow> bytes option \<Rightarrow> CliError + unit" where
  "check_sig hex_decode key_ok verify_strict ser ev pk_hex =
     bindE (ok_or pk_hex PubkeyRequired) (\<lambda>pk_s.
     bindE (parse_hex32_pk hex_decode pk_s) (\<lambda>pk.
     if \<not> key_ok pk then Inl PubkeyInvalid else
     bindE (ok_or (ev_sig ev) NoSig) (\<lambda>sig_b.
     if length sig_b \<noteq> 64 then Inl SigBytesInvalid else
     bindE (map_err SigningPayload (signing_payload_cbor ser ev)) (\<lambda>msg.
     if \<not> verify_strict pk msg sig_b then Inl SigInvalid else Inr ()))))"

definition decode_payload ::
  "(bytes \<Rightarrow> bytes) \<Rightarrow> (bytes \<Rightarrow> nat \<Rightarrow> bytes option) \<Rightarrow> (cval \<Rightarrow> bytes) \<Rightarrow> (bytes \<Rightarrow> string + cval) \<Rightarrow>
     (cval \<Rightarrow> bytes) \<Rightarrow> (bytes \<Rightarrow> bool) \<Rightarrow> (bytes \<Rightarrow> bytes \<Rightarrow> bytes \<Rightarrow> bool) \<Rightarrow>
     bytes \<Rightarrow> bool \<Rightarrow> bool \<Rightarrow> bool \<Rightarrow> bytes option \<Rightarrow> CliError + json" where
  "decode_payload hex_string hex_decode ser de debug_cval key_ok verify_strict
     raw strict pretty_cbor verify_sig pk_hex =
     bindE (decode_event de raw strict) (\<lambda>(ev, validation).
     let j = event_to_json hex_string ev;
         j = (case validation of None \<Rightarrow> j | Some msg \<Rightarrow> json_set j ''validation_warning'' (JStr msg)) in
     bindE (if pretty_cbor then
              let cbor = (case strip_komms_envelope raw of None \<Rightarrow> raw | Some c \<Rightarrow> c) in
              bindE (map_err CborDebugParse (de cbor)) (\<lambda>v.
                Inr (json_set j ''cbor_debug'' (JStr (debug_cval v))))
            else Inr j) (\<lambda>j.
     if verify_sig then
       bindE (check_sig hex_decode key_ok verify_strict ser ev pk_hex) (\<lambda>_.
         Inr (json_set j ''sig_verified'' (JBool True)))
     else Inr j))"

section \<open>Strict and lenient decoding\<close>

lemma json_get_set_same: "j = JObj ms \<Longrightarrow> json_get (json_set j k v) k = v"
  by (auto simp: map_add_def split: option.splits dest!: map_of_SomeD)

lemma json_get_set_other: "k' \<noteq> k \<Longrightarrow> json_get (json_set j k v) k' = json_get j k'"
proof (cases j)
  case (JObj ms)
  assume "k' \<noteq> k"
  then have "map_of (filter (\<lambda>(k', _). k' \<noteq> k) ms) k' = map_of ms k'"
    by (induction ms) auto
  with JObj \<open>k' \<noteq> k\<close> show ?thesis by (simp add: map_add_def split: option.split)
qed auto

lemma json_set_obj: "\<exists>ms'. json_set (JObj ms) k v = JObj ms'"
  by simp

definition is_obj :: "json \<Rightarrow> bool" where
  "is_obj j \<longleftrightarrow> (\<exists>ms. j = JObj ms)"

lemma is_obj_set [simp]: "is_obj j \<Longrightarrow> is_obj (json_set j k v)"
  by (auto simp: is_obj_def)

lemma json_get_set [simp]:
  "is_obj j \<Longrightarrow> json_get (json_set j k v) k' = (if k' = k then v else json_get j k')"
  using json_get_set_same json_get_set_other by (auto simp: is_obj_def)

lemma is_obj_event [simp]: "is_obj (event_to_json hex_string ev)"
  by (simp add: is_obj_def event_to_json_def Let_def)

lemma event_json_extra [simp]:
  "json_get (event_to_json hex_string ev) ''validation_warning'' = JNull"
  "json_get (event_to_json hex_string ev) ''cbor_debug'' = JNull"
  "json_get (event_to_json hex_string ev) ''sig_verified'' = JNull"
  by (simp_all add: event_to_json_def Let_def)

lemma strict_event:
  "decode_event de raw True = Inr (ev, w) \<longleftrightarrow>
     w = None \<and> decode_event de raw False = Inr (ev, None) \<and>
     (\<exists>cbor. strip_komms_envelope raw = Some cbor \<and> validate_canonical cbor = Inr ())"
proof (cases "strip_komms_envelope raw")
  case None
  then show ?thesis by (simp add: decode_event_def parse_komms_payload_def)
next
  case (Some cbor)
  have v: "(case validate_event ev of Inr _ \<Rightarrow> None | Inl e \<Rightarrow> Some (display_ValidationError e)) = None
      \<longleftrightarrow> validate_event ev = Inr ()" for ev
    by (cases "validate_event ev") auto
  have m: "validate_event ev = Inr () \<Longrightarrow> \<not> MAX_KNOWN_VERSION < ev_v ev" for ev
    using valid_version [of ev] by (simp add: not_less)
  show ?thesis
    using Some m by (auto simp: decode_event_def parse_komms_payload_def result_simps v)
qed

text \<open>The document as a function of what went into it.\<close>

definition set_opt :: "string \<Rightarrow> bytes option \<Rightarrow> json \<Rightarrow> json" where
  "set_opt k x j = (case x of None \<Rightarrow> j | Some s \<Rightarrow> json_set j k (JStr s))"

definition decode_doc :: "(bytes \<Rightarrow> bytes) \<Rightarrow> ParsedKommsEvent \<Rightarrow> bytes option \<Rightarrow> bytes option \<Rightarrow> bool \<Rightarrow> json" where
  "decode_doc hex_string ev w dbg with_sig =
     (let j = set_opt ''cbor_debug'' dbg (set_opt ''validation_warning'' w (event_to_json hex_string ev)) in
      if with_sig then json_set j ''sig_verified'' (JBool True) else j)"

lemma is_obj_set_opt [simp]: "is_obj j \<Longrightarrow> is_obj (set_opt k x j)"
  by (simp add: set_opt_def split: option.split)

lemma get_set_opt [simp]:
  "is_obj j \<Longrightarrow> json_get (set_opt k x j) k' =
     (if k' = k \<and> x \<noteq> None then JStr (the x) else json_get j k')"
  by (auto simp: set_opt_def split: option.split)

lemma get_decode_doc [simp]:
  "json_get (decode_doc h ev w dbg s) ''validation_warning'' = (case w of None \<Rightarrow> JNull | Some m \<Rightarrow> JStr m)"
  "json_get (decode_doc h ev w dbg s) ''sig_verified'' = (if s then JBool True else JNull)"
  by (auto simp: decode_doc_def Let_def split: option.split)

definition debug_part :: "(bytes \<Rightarrow> string + cval) \<Rightarrow> (cval \<Rightarrow> bytes) \<Rightarrow> bytes \<Rightarrow> bool \<Rightarrow> CliError + bytes option" where
  "debug_part de debug_cval raw pretty_cbor =
     (if pretty_cbor
      then mapE (\<lambda>v. Some (debug_cval v)) (map_err CborDebugParse
        (de (case strip_komms_envelope raw of None \<Rightarrow> raw | Some c \<Rightarrow> c)))
      else Inr None)"

lemma decode_payload_Inr:
  "decode_payload hs hx ser de dbg key_ok vs raw strict pretty verify pk_hex = Inr j \<longleftrightarrow>
     (\<exists>ev w d. decode_event de raw strict = Inr (ev, w) \<and> debug_part de dbg raw pretty = Inr d \<and>
        (verify \<longrightarrow> check_sig hx key_ok vs ser ev pk_hex = Inr ()) \<and> j = decode_doc hs ev w d verify)"
proof -
  have "decode_payload hs hx ser de dbg key_ok vs raw strict pretty verify pk_hex =
      bindE (decode_event de raw strict) (\<lambda>(ev, w). bindE (debug_part de dbg raw pretty) (\<lambda>d.
        bindE (if verify then check_sig hx key_ok vs ser ev pk_hex else Inr ()) (\<lambda>_.
          Inr (decode_doc hs ev w d verify))))"
    by (cases "decode_event de raw strict")
      (auto simp: decode_payload_def debug_part_def decode_doc_def set_opt_def Let_def bindE_assoc
        split: option.split)
  then show ?thesis by (cases verify) (auto simp: result_simps split: prod.splits)
qed

text \<open>
  C25: \<open>--strict\<close> refines the lenient mode: it prints a document exactly when the lenient mode
  prints the same document without a validation warning and the payload has the KOMM prefix and
  is canonical CBOR; the other options behave the same in both modes.
\<close>
theorem strict_refines_lenient:
  "decode_payload hs hx ser de dbg key_ok vs raw True pretty verify pk_hex = Inr j \<longleftrightarrow>
     decode_payload hs hx ser de dbg key_ok vs raw False pretty verify pk_hex = Inr j \<and>
     json_get j ''validation_warning'' = JNull \<and>
     (\<exists>cbor. strip_komms_envelope raw = Some cbor \<and> validate_canonical cbor = Inr ())"
  unfolding decode_payload_Inr strict_event by (auto split: option.splits)

section \<open>Verified signatures\<close>

lemma check_sig_verify_event:
  assumes "wf_event ev"
  shows "check_sig hx key_ok vs ser ev pk_hex = Inr () \<longleftrightarrow>
     (\<exists>s pk. pk_hex = Some s \<and> parse_hex32_pk hx s = Inr pk \<and> verify_event key_ok vs ser ev pk = Inr ())"
proof -
  have "length sig = 64" if "ev_sig ev = Some sig" for sig
    using assms that by (simp add: wf_event_def)
  then show ?thesis
    by (auto simp: check_sig_def verify_event_iff result_simps)
qed

lemma decode_event_wf: "decode_event de raw strict = Inr (ev, w) \<Longrightarrow> wf_event ev"
proof -
  have lenient: "decode_event de raw False = Inr (ev, w) \<Longrightarrow> wf_event ev" for w
    by (auto simp: decode_event_def result_simps parse_cbor_map_spec fields_of_def)
  then show "decode_event de raw strict = Inr (ev, w) \<Longrightarrow> wf_event ev"
    by (cases strict) (auto simp: strict_event)
qed

text \<open>
  C26: \<open>sig_verified\<close> appears in the printed document exactly when \<open>--verify-sig\<close> was given, and
  then the event that is shown satisfies the protocol's own \<open>verify_event\<close> under the key given on
  the command line. Without the option nothing is verified and nothing is claimed.
\<close>
theorem sig_verified_sound:
  assumes "decode_payload hs hx ser de dbg key_ok vs raw strict pretty verify pk_hex = Inr j"
  shows "(json_get j ''sig_verified'' = JBool True \<longleftrightarrow> verify) \<and>
     (verify \<longrightarrow> (\<exists>ev w s pk. decode_event de raw strict = Inr (ev, w) \<and> pk_hex = Some s \<and>
        parse_hex32_pk hx s = Inr pk \<and> verify_event key_ok vs ser ev pk = Inr ()))"
  using assms check_sig_verify_event decode_event_wf
  by (fastforce simp: decode_payload_Inr)

definition signed_dm :: ParsedKommsEvent where
  "signed_dm = sample_dm\<lparr>ev_sig := Some (replicate 64 9)\<rparr>"

definition signed_dm_raw :: bytes where
  "signed_dm_raw = KOMMS_PAYLOAD_PREFIX @ rfc_ser (Map (event_pairs signed_dm))"

lemma valid_signed_dm: "validate_event signed_dm = Inr ()"
  by (rule valid_I) (simp_all add: signed_dm_def sample_dm_def default_event_def row_defs)

lemma decode_signed_dm: "decode_event rfc_de signed_dm_raw True = Inr (signed_dm, None)"
proof -
  have wf: "wf_event signed_dm" "encodable signed_dm"
    using wf_sample_dm by (simp_all add: signed_dm_def wf_event_def encodable_def wire_layout_def)
  have enc: "encode_komms_payload rfc_ser signed_dm = Inr signed_dm_raw"
    by (simp add: encode_komms_payload_def bindE_Inr_iff encode_cbor_map_Inr valid_signed_dm signed_dm_raw_def)
  have len: "length signed_dm_raw < 2 ^ 64"
    by (simp add: signed_dm_raw_def signed_dm_def sample_dm_def wire_simps encode_cbor_uint_header_def)
  have "as_parsed signed_dm = signed_dm"
    by (simp add: as_parsed_def signed_dm_def sample_dm_def)
  then have "parse_komms_payload rfc_de signed_dm_raw = Inr signed_dm"
    using parse_of_encode [OF rfc.cbor_codec_axioms wf enc len] by (simp add: valid_signed_dm)
  then show ?thesis by (simp add: decode_event_def)
qed

theorem sig_verified_sound_witness:
  "\<exists>pk. verify_event (\<lambda>_. True) (\<lambda>_ _ _. True) rfc_ser signed_dm pk = Inr ()"
proof -
  let ?key = "base16_encode (replicate 32 7)"
  let ?vs = "\<lambda>(_ :: bytes) (_ :: bytes) (_ :: bytes). True"
  have k: "parse_hex32_pk base16_decode ?key = Inr (replicate 32 7)"
    unfolding parse_hex32_pk_def by (rule base16.parse_hex32_encode(1)) simp
  have "validate_event (signed_dm\<lparr>ev_sig := None\<rparr>) = Inr ()"
    using valid_sample_dm by (simp add: signed_dm_def sample_dm_def default_event_def)
  then have m: "signing_payload_cbor rfc_ser signed_dm = Inr (rfc_ser (Map (event_pairs (signed_dm\<lparr>ev_sig := None\<rparr>))))"
    by (simp add: signing_payload_cbor_def encode_cbor_map_Inr)
  have "ev_sig signed_dm = Some (replicate 64 9)" by (simp add: signed_dm_def)
  with m k have "check_sig base16_decode (\<lambda>_. True) ?vs rfc_ser signed_dm (Some ?key) = Inr ()"
    by (simp add: check_sig_def)
  then have "decode_payload base16_encode base16_decode rfc_ser rfc_de (\<lambda>_. []) (\<lambda>_. True) ?vs
      signed_dm_raw True False True (Some ?key) = Inr (decode_doc base16_encode signed_dm None None True)"
    unfolding decode_payload_Inr using decode_signed_dm by (auto simp: debug_part_def)
  from sig_verified_sound [OF this] show ?thesis
    by (auto simp: decode_signed_dm)
qed

end
