(* ===== verification/Index_Scan.thy ===== *)
theory Index_Scan
  imports Output
begin

text \<open>
  \<open>src/index_scan.rs\<close> and the command \<open>read index\<close> of \<open>src/lib.rs\<close>: the rows of the indexer's
  partition are read in key order, decoded in the current record layout or the previous one, and
  filtered. Parameters: \<open>from_bytes\<close> and \<open>from_bytes_v1\<close>, the postcard decoders for the two
  layouts; the partition is the list of results its iterator yields (\<open>None\<close> for an item that
  cannot be read), \<open>None\<close> when it cannot be opened.
\<close>

record KommsEventRecordV1 =
  rec_containing_block_hash :: bytes
  rec_containing_daa :: u64
  rec_event_type :: u8
  rec_enc :: bool
  rec_sid :: "bytes option"
  rec_cid :: "bytes option"
  rec_did :: "bytes option"
  rec_pid :: "bytes option"
  rec_mid :: "bytes option"
  rec_ref_bytes :: "bytes option"
  rec_ts :: "u64 option"
  rec_n :: "u64 option"
  rec_sig :: "bytes option"

record KommsEventRecord = KommsEventRecordV1 +
  rec_creator_address_body :: "bytes option"

definition upgrade_record :: "KommsEventRecordV1 \<Rightarrow> KommsEventRecord" where
  "upgrade_record v1 = KommsEventRecordV1.extend v1 (KommsEventRecord.fields None)"

definition decode_record ::
  "(bytes \<Rightarrow> KommsEventRecord option) \<Rightarrow> (bytes \<Rightarrow> KommsEventRecordV1 option) \<Rightarrow> bytes \<Rightarrow> KommsEventRecord option" where
  "decode_record from_bytes from_bytes_v1 b =
     (case from_bytes b of
        Some r \<Rightarrow> Some r
      | None \<Rightarrow> map_option upgrade_record (from_bytes_v1 b))"

fun scan_items ::
  "(bytes \<Rightarrow> KommsEventRecord option) \<Rightarrow> (bytes \<Rightarrow> KommsEventRecordV1 option) \<Rightarrow>
     (bytes \<times> bytes) option list \<Rightarrow> (bytes \<times> KommsEventRecord) list \<Rightarrow> CliError + (bytes \<times> KommsEventRecord) list" where
  "scan_items fb fb1 [] out = Inr out"
| "scan_items fb fb1 (None # items) out = Inl IndexIo"
| "scan_items fb fb1 (Some (key, val) # items) out =
     (if length key \<noteq> 32 then Inl (IndexKeyLength (length key))
      else case decode_record fb fb1 val of
        None \<Rightarrow> Inl (IndexDecode key)
      | Some r \<Rightarrow> scan_items fb fb1 items (out @ [(key, r)]))"

definition load_komms_events ::
  "(bytes \<Rightarrow> KommsEventRecord option) \<Rightarrow> (bytes \<Rightarrow> KommsEventRecordV1 option) \<Rightarrow>
     (bytes \<times> bytes) option list option \<Rightarrow> CliError + (bytes \<times> KommsEventRecord) list" where
  "load_komms_events fb fb1 part =
     bindE (ok_or part IndexIo) (\<lambda>items. scan_items fb fb1 items [])"

section \<open>The command\<close>

definition row_json :: "(bytes \<Rightarrow> bytes) \<Rightarrow> bytes \<Rightarrow> KommsEventRecord \<Rightarrow> json" where
  "row_json hex_string tx_id r =
     JObj [(''txid'', JStr (hex_string tx_id)),
       (''containing_block_hash'', JStr (hex_string (rec_containing_block_hash r))),
       (''containing_daa'', j_u64 (rec_containing_daa r)),
       (''event_type'', j_u8 (rec_event_type r)),
       (''enc'', JBool (rec_enc r)),
       (''sid'', hex_opt hex_string (rec_sid r)),
       (''cid'', hex_opt hex_string (rec_cid r)),
       (''did'', hex_opt hex_string (rec_did r)),
       (''pid'', hex_opt hex_string (rec_pid r)),
       (''mid'', hex_opt hex_string (rec_mid r)),
       (''ref'', hex_vec hex_string (rec_ref_bytes r)),
       (''ts'', j_opt j_u64 (rec_ts r)),
       (''n'', j_opt j_u64 (rec_n r)),
       (''sig'', j_opt (\<lambda>s. JStr (hex_string s)) (rec_sig r))]"

text \<open>\<open>if let Some(x) = filter && rec differs from x { continue; }\<close>\<close>

definition skips :: "'a option \<Rightarrow> ('a \<Rightarrow> bool) \<Rightarrow> bool" where
  "skips x differs = (case x of None \<Rightarrow> False | Some a \<Rightarrow> differs a)"

fun index_rows ::
  "(bytes \<Rightarrow> bytes) \<Rightarrow> u8 option \<Rightarrow> bytes option \<Rightarrow> bytes option \<Rightarrow> u64 option \<Rightarrow> u64 option \<Rightarrow>
     (bytes \<times> KommsEventRecord) list \<Rightarrow> json list \<Rightarrow> json list" where
  "index_rows hs event_type sid_f cid_f daa_min daa_max [] rows = rows"
| "index_rows hs event_type sid_f cid_f daa_min daa_max ((tx_id, r) # entries) rows =
     (if skips event_type (\<lambda>t. rec_event_type r \<noteq> t) then
        index_rows hs event_type sid_f cid_f daa_min daa_max entries rows
      else if skips sid_f (\<lambda>s. rec_sid r \<noteq> Some s) then
        index_rows hs event_type sid_f cid_f daa_min daa_max entries rows
      else if skips cid_f (\<lambda>c. rec_cid r \<noteq> Some c) then
        index_rows hs event_type sid_f cid_f daa_min daa_max entries rows
      else if skips daa_min (\<lambda>lo. rec_containing_daa r < lo) then
        index_rows hs event_type sid_f cid_f daa_min daa_max entries rows
      else if skips daa_max (\<lambda>hi. rec_containing_daa r > hi) then
        index_rows hs event_type sid_f cid_f daa_min daa_max entries rows
      else index_rows hs event_type sid_f cid_f daa_min daa_max entries (rows @ [row_json hs tx_id r]))"

definition arg_hex32 :: "(bytes \<Rightarrow> nat \<Rightarrow> bytes option) \<Rightarrow> bytes option \<Rightarrow> CliError + bytes option" where
  "arg_hex32 hex_decode x = (case x of None \<Rightarrow> Inr None | Some s \<Rightarrow> mapE Some (parse_hex32 hex_decode s))"

definition read_index ::
  "(bytes \<Rightarrow> bytes) \<Rightarrow> (bytes \<Rightarrow> nat \<Rightarrow> bytes option) \<Rightarrow> (bytes \<Rightarrow> KommsEventRecord option) \<Rightarrow>
     (bytes \<Rightarrow> KommsEventRecordV1 option) \<Rightarrow> (bytes \<times> bytes) option list option \<Rightarrow>
     u8 option \<Rightarrow> bytes option \<Rightarrow> bytes option \<Rightarrow> u64 option \<Rightarrow> u64 option \<Rightarrow> CliError + json" where
  "read_index hex_string hex_decode fb fb1 part event_type sid_hex cid_hex daa_min daa_max =
     bindE (load_komms_events fb fb1 part) (\<lambda>entries.
     bindE (arg_hex32 hex_decode sid_hex) (\<lambda>sid_f.
     bindE (arg_hex32 hex_decode cid_hex) (\<lambda>cid_f.
       Inr (JObj [(''events'', JArr (index_rows hex_string event_type sid_f cid_f daa_min daa_max entries []))]))))"

section \<open>What the command prints\<close>

definition matches ::
  "u8 option \<Rightarrow> bytes option \<Rightarrow> bytes option \<Rightarrow> u64 option \<Rightarrow> u64 option \<Rightarrow> KommsEventRecord \<Rightarrow> bool" where
  "matches event_type sid_f cid_f daa_min daa_max r \<longleftrightarrow>
     (event_type = None \<or> event_type = Some (rec_event_type r)) \<and>
     (sid_f = None \<or> sid_f = rec_sid r) \<and> (cid_f = None \<or> cid_f = rec_cid r) \<and>
     (case daa_min of None \<Rightarrow> True | Some lo \<Rightarrow> lo \<le> rec_containing_daa r) \<and>
     (case daa_max of None \<Rightarrow> True | Some hi \<Rightarrow> rec_containing_daa r \<le> hi)"

lemma skips_simps [simp]: "\<not> skips None d" "skips (Some a) d \<longleftrightarrow> d a"
  by (simp_all add: skips_def)

lemma index_rows_filter:
  "index_rows hs et s c lo hi entries rows =
     rows @ map (\<lambda>(tx_id, r). row_json hs tx_id r) (filter (\<lambda>(_, r). matches et s c lo hi r) entries)"
proof (induction entries arbitrary: rows)
  case (Cons e entries)
  obtain tx r where e: "e = (tx, r)" by (cases e)
  have "index_rows hs et s c lo hi (e # entries) rows =
      index_rows hs et s c lo hi entries (if matches et s c lo hi r then rows @ [row_json hs tx r] else rows)"
    unfolding e
    by (cases et; cases s; cases c; cases lo; cases hi) (auto simp: matches_def not_less not_le)
  then show ?case using Cons.IH by (simp add: e)
qed simp

text \<open>The whole partition is read: one unreadable row fails the command.\<close>

definition row_of ::
  "(bytes \<Rightarrow> KommsEventRecord option) \<Rightarrow> (bytes \<Rightarrow> KommsEventRecordV1 option) \<Rightarrow>
     (bytes \<times> bytes) option \<Rightarrow> bytes \<times> KommsEventRecord \<Rightarrow> bool" where
  "row_of fb fb1 item row \<longleftrightarrow> (\<exists>val. item = Some (fst row, val) \<and> length (fst row) = 32 \<and>
     decode_record fb fb1 val = Some (snd row))"

lemma scan_items_iff:
  "scan_items fb fb1 items out = Inr rows \<longleftrightarrow> (\<exists>new. rows = out @ new \<and> list_all2 (row_of fb fb1) items new)"
proof (induction fb fb1 items out rule: scan_items.induct)
  case (3 fb fb1 key val items out)
  then show ?case
    by (auto simp: row_of_def list_all2_Cons1 split: option.split)
qed (auto simp: row_of_def list_all2_Cons1)

text \<open>
  C36: \<open>read index\<close> prints exactly the rows of the partition that satisfy every filter given
  (type, server, channel, DAA score from and to, both bounds inclusive), in key order, and it
  prints them only if the filters parse and every row of the partition, matching or not, has a
  32-byte key and a value in one of the two record layouts.
\<close>
theorem read_index_iff:
  "read_index hs hx fb fb1 part et sid_hex cid_hex lo hi = Inr j \<longleftrightarrow>
     (\<exists>items rows sid_f cid_f. part = Some items \<and> list_all2 (row_of fb fb1) items rows \<and>
        arg_hex32 hx sid_hex = Inr sid_f \<and> arg_hex32 hx cid_hex = Inr cid_f \<and>
        j = JObj [(''events'', JArr (map (\<lambda>(tx_id, r). row_json hs tx_id r)
          (filter (\<lambda>(_, r). matches et sid_f cid_f lo hi r) rows)))])"
  by (auto simp: read_index_def load_komms_events_def result_simps scan_items_iff index_rows_filter)

end
