(* ===== verification/Submit.thy ===== *)
theory Submit
  imports Cli_Post "HOL-Library.Multiset"
begin

text \<open>
  \<open>src/submit.rs\<close>, the fee and the selection of the coins that pay it. All amounts are \<open>u64\<close> and
  the additions wrap, as in a build without overflow checks; \<open>usize\<close> counts are \<open>nat\<close> and cast
  with \<open>word_of_nat\<close>. \<open>mass_spec\<close> and \<open>fee_spec\<close> are the same formulas on natural numbers; the
  theorems say when the machine arithmetic agrees with them and that the selection is the best
  one.
\<close>

definition MIN_RELAY_FEE_PER_GRAM :: u64 where
  "MIN_RELAY_FEE_PER_GRAM = 100"

definition predicted_compute_mass :: "nat \<Rightarrow> u64 \<Rightarrow> nat \<Rightarrow> u64" where
  "predicted_compute_mass num_utxos num_outs payload_len =
     (let BASE_TX_BYTES = 94; SIGNED_P2PK_INPUT_BYTES = 118; P2PK_OUTPUT_BYTES = 53;
          P2PK_SCRIPT_PUB_KEY_LEN = 35; MASS_PER_TX_BYTE = 1; MASS_PER_SCRIPT_PUB_KEY_BYTE = 10;
          GRAMS_PER_SIGOP = 1000;
          serialized_size = BASE_TX_BYTES + SIGNED_P2PK_INPUT_BYTES * word_of_nat num_utxos
            + P2PK_OUTPUT_BYTES * num_outs + word_of_nat payload_len;
          compute_for_size = serialized_size * MASS_PER_TX_BYTE;
          output_spk_mass = (2 + P2PK_SCRIPT_PUB_KEY_LEN) * MASS_PER_SCRIPT_PUB_KEY_BYTE * num_outs;
          script_mass = GRAMS_PER_SIGOP * word_of_nat num_utxos
      in compute_for_size + output_spk_mass + script_mass)"

definition required_fee :: "nat \<Rightarrow> u64 \<Rightarrow> nat \<Rightarrow> u64 \<Rightarrow> u64" where
  "required_fee num_utxos num_outs payload_len priority_fee =
     MIN_RELAY_FEE_PER_GRAM * predicted_compute_mass num_utxos num_outs payload_len + priority_fee"

text \<open>An entry of \<open>get_utxos_by_addresses\<close>: outpoint (transaction id and index), amount, locking
  script.\<close>

record Utxo =
  utxo_outpoint :: "bytes \<times> u32"
  utxo_amount :: u64
  utxo_script :: bytes

text \<open>\<open>v.sort_by_key(|e| Reverse(amount))\<close>: a stable sort, largest amount first.\<close>

definition sort_utxos :: "Utxo list \<Rightarrow> Utxo list" where
  "sort_utxos entries = sort_key (\<lambda>e. - uint (utxo_amount e)) entries"

fun pick_loop ::
  "nat \<Rightarrow> u64 \<Rightarrow> Utxo list \<Rightarrow> Utxo list \<Rightarrow> u64 \<Rightarrow> CliError + Utxo list \<times> u64 \<times> u64 \<times> u64" where
  "pick_loop payload_len priority_fee [] picked total_in = Inl InsufficientUtxos"
| "pick_loop payload_len priority_fee (e # v) picked total_in =
     (let total_in = total_in + utxo_amount e;
          picked = picked @ [e];
          n = length picked;
          fee = required_fee n 1 payload_len priority_fee
      in if total_in > fee \<and> total_in - fee > 0 then Inr (picked, total_in, fee, total_in - fee)
         else pick_loop payload_len priority_fee v picked total_in)"

definition pick_utxos ::
  "Utxo list \<Rightarrow> nat \<Rightarrow> u64 \<Rightarrow> CliError + Utxo list \<times> u64 \<times> u64 \<times> u64" where
  "pick_utxos entries payload_len priority_fee =
     pick_loop payload_len priority_fee (sort_utxos entries) [] 0"

section \<open>The fee on natural numbers\<close>

definition mass_spec :: "nat \<Rightarrow> nat \<Rightarrow> nat" where
  "mass_spec n payload_len = 517 + 1118 * n + payload_len"

definition fee_spec :: "nat \<Rightarrow> nat \<Rightarrow> nat \<Rightarrow> nat" where
  "fee_spec n payload_len priority_fee = 100 * mass_spec n payload_len + priority_fee"

lemma fee_spec_mono: "n \<le> m \<Longrightarrow> fee_spec n l p \<le> fee_spec m l p"
  by (simp add: fee_spec_def mass_spec_def)

lemma predicted_mass_word: "predicted_compute_mass n 1 l = word_of_nat (mass_spec n l)"
  by (simp add: predicted_compute_mass_def mass_spec_def Let_def algebra_simps)

lemma required_fee_word: "required_fee n 1 l p = word_of_nat (fee_spec n l (unat p))"
  by (simp add: required_fee_def MIN_RELAY_FEE_PER_GRAM_def predicted_mass_word fee_spec_def
      ucast_id)

lemma unat_required_fee: "unat (required_fee n 1 l p) = fee_spec n l (unat p) mod 2 ^ 64"
  by (simp add: required_fee_word unat_of_nat)

text \<open>
  C35: the fee is what the formula says, 100 sompi for each gram of the predicted mass plus the
  priority fee, and in particular never below the relay minimum, exactly as long as the formula
  stays below \<open>2 ^ 64\<close>; with a priority fee near \<open>2 ^ 64\<close> the sum wraps and the fee comes out
  below the relay minimum.
\<close>
theorem required_fee_exact:
  "(unat (required_fee n 1 l p) = fee_spec n l (unat p) \<longleftrightarrow> fee_spec n l (unat p) < 2 ^ 64) \<and>
   unat (required_fee 1 1 72 (- 1)) < 100 * mass_spec 1 72"
proof
  have "fee_spec n l (unat p) mod 2 ^ 64 < (2 ^ 64 :: nat)" by (rule mod_less_divisor) simp
  then show "unat (required_fee n 1 l p) = fee_spec n l (unat p) \<longleftrightarrow> fee_spec n l (unat p) < 2 ^ 64"
    unfolding unat_required_fee by (metis mod_less)
  show "unat (required_fee 1 1 72 (- 1)) < 100 * mass_spec 1 72"
    by (simp add: required_fee_def predicted_mass_word mass_spec_def MIN_RELAY_FEE_PER_GRAM_def)
qed

section \<open>The selection on natural numbers\<close>

definition amounts :: "Utxo list \<Rightarrow> nat list" where
  "amounts es = map (\<lambda>e. unat (utxo_amount e)) es"

text \<open>A selection pays for itself when its amount exceeds the fee of a transaction with that many
  inputs.\<close>

definition covers :: "nat \<Rightarrow> nat \<Rightarrow> Utxo list \<Rightarrow> bool" where
  "covers l p es \<longleftrightarrow> fee_spec (length es) l p < sum_list (amounts es)"

lemma amounts_simps [simp]: "amounts [] = []" "amounts (e # es) = unat (utxo_amount e) # amounts es"
  "amounts (es @ fs) = amounts es @ amounts fs" "length (amounts es) = length es"
  "amounts (take k es) = take k (amounts es)"
  by (simp_all add: amounts_def take_map)

lemma unat_add_small: "unat (a :: u64) + unat b < 2 ^ 64 \<Longrightarrow> unat (a + b) = unat a + unat b"
  using unat_add_lem [where 'a = 64] by simp

text \<open>One round of the loop.\<close>

lemma pick_step:
  assumes "unat tot = sum_list (amounts picked)" and "sum_list (amounts (picked @ [e])) < 2 ^ 64"
    and "fee_spec (Suc (length picked)) l (unat p) < 2 ^ 64"
  shows "unat (tot + utxo_amount e) = sum_list (amounts (picked @ [e]))"
    and "tot + utxo_amount e > required_fee (Suc (length picked)) 1 l p \<longleftrightarrow> covers l (unat p) (picked @ [e])"
    and "unat (required_fee (Suc (length picked)) 1 l p) = fee_spec (Suc (length picked)) l (unat p)"
proof -
  show s: "unat (tot + utxo_amount e) = sum_list (amounts (picked @ [e]))"
    using assms(1,2) by (subst unat_add_small) simp_all
  show f: "unat (required_fee (Suc (length picked)) 1 l p) = fee_spec (Suc (length picked)) l (unat p)"
    using assms(3) by (simp only: unat_required_fee mod_less)
  show "tot + utxo_amount e > required_fee (Suc (length picked)) 1 l p \<longleftrightarrow> covers l (unat p) (picked @ [e])"
    unfolding word_less_nat_alt s f covers_def by simp
qed

definition picked_ok :: "nat \<Rightarrow> nat \<Rightarrow> Utxo list \<Rightarrow> nat \<Rightarrow> Utxo list \<times> u64 \<times> u64 \<times> u64 \<Rightarrow> bool" where
  "picked_ok l p v k = (\<lambda>(pk, s, f, out). k \<le> length v \<and> pk = take k v \<and> covers l p pk \<and>
     unat s = sum_list (amounts pk) \<and> unat f = fee_spec k l p \<and> unat s = unat f + unat out \<and> 0 < unat out)"

lemma pick_loop_spec:
  assumes "sum_list (amounts (picked @ v)) < 2 ^ 64" and "fee_spec (length (picked @ v)) l (unat p) < 2 ^ 64"
    and "unat tot = sum_list (amounts picked)"
  shows "(\<forall>r. pick_loop l p v picked tot = Inr r \<longrightarrow>
       (\<exists>k>length picked. picked_ok l (unat p) (picked @ v) k r \<and>
          (\<forall>j. length picked < j \<and> j < k \<longrightarrow> \<not> covers l (unat p) (take j (picked @ v))))) \<and>
     (\<forall>e. pick_loop l p v picked tot = Inl e \<longrightarrow> e = InsufficientUtxos \<and>
       (\<forall>j. length picked < j \<and> j \<le> length (picked @ v) \<longrightarrow> \<not> covers l (unat p) (take j (picked @ v))))"
  using assms
proof (induction v arbitrary: picked tot)
  case Nil
  then show ?case by auto
next
  case (Cons e v)
  let ?n = "Suc (length picked)"
  have sm: "sum_list (amounts (picked @ [e])) < 2 ^ 64" using Cons.prems(1) by simp
  have fe: "fee_spec ?n l (unat p) < 2 ^ 64"
    using Cons.prems(2) fee_spec_mono [of ?n "length (picked @ e # v)" l "unat p"] by simp
  note st = pick_step [OF Cons.prems(3) sm fe]
  have tk: "take ?n (picked @ e # v) = picked @ [e]" by simp
  show ?case
  proof (cases "covers l (unat p) (picked @ [e])")
    case True
    let ?s = "tot + utxo_amount e" and ?f = "required_fee ?n 1 l p"
    have "unat (?s - ?f) = unat ?s - unat ?f" and lt: "unat ?f < unat ?s"
      using st(2) True by (auto simp: word_less_nat_alt unat_sub word_le_nat_alt less_imp_le)
    then have out: "unat ?s = unat ?f + unat (?s - ?f)" "0 < unat (?s - ?f)" by simp_all
    then have "pick_loop l p (e # v) picked tot = Inr (picked @ [e], ?s, ?f, ?s - ?f)"
      using st(2) True by (simp add: Let_def word_less_nat_alt)
    moreover have "picked_ok l (unat p) (picked @ e # v) ?n (picked @ [e], ?s, ?f, ?s - ?f)"
      using True st(1,3) out by (simp add: picked_ok_def)
    ultimately show ?thesis
      by (intro conjI allI impI) (auto intro!: exI [of _ ?n])
  next
    case False
    then have step: "pick_loop l p (e # v) picked tot = pick_loop l p v (picked @ [e]) (tot + utxo_amount e)"
      using st(2) by (simp add: Let_def)
    have IH: "(\<forall>r. pick_loop l p v (picked @ [e]) (tot + utxo_amount e) = Inr r \<longrightarrow>
       (\<exists>k>?n. picked_ok l (unat p) (picked @ e # v) k r \<and>
          (\<forall>j. ?n < j \<and> j < k \<longrightarrow> \<not> covers l (unat p) (take j (picked @ e # v))))) \<and>
     (\<forall>x. pick_loop l p v (picked @ [e]) (tot + utxo_amount e) = Inl x \<longrightarrow> x = InsufficientUtxos \<and>
       (\<forall>j. ?n < j \<and> j \<le> length (picked @ e # v) \<longrightarrow> \<not> covers l (unat p) (take j (picked @ e # v))))"
      using Cons.IH [of "picked @ [e]" "tot + utxo_amount e"] Cons.prems st(1) by simp
    have one: "length picked < j \<Longrightarrow> j = ?n \<or> ?n < j" for j by auto
    show ?thesis
      unfolding step
    proof (intro conjI allI impI)
      fix r assume "pick_loop l p v (picked @ [e]) (tot + utxo_amount e) = Inr r"
      with IH obtain k where k: "?n < k" "picked_ok l (unat p) (picked @ e # v) k r"
        "\<forall>j. ?n < j \<and> j < k \<longrightarrow> \<not> covers l (unat p) (take j (picked @ e # v))" by blast
      with one tk False show "\<exists>k>length picked. picked_ok l (unat p) (picked @ e # v) k r \<and>
          (\<forall>j. length picked < j \<and> j < k \<longrightarrow> \<not> covers l (unat p) (take j (picked @ e # v)))"
        by (intro exI [of _ k]) (metis Suc_lessD)
    next
      fix x assume a: "pick_loop l p v (picked @ [e]) (tot + utxo_amount e) = Inl x"
      with IH show "x = InsufficientUtxos" by blast
      fix j assume "length picked < j \<and> j \<le> length (picked @ e # v)"
      with IH a one tk False show "\<not> covers l (unat p) (take j (picked @ e # v))" by metis
    qed
  qed
qed

section \<open>The best selection\<close>

text \<open>No \<open>m\<close> numbers of a list that descends have a larger sum than its first \<open>m\<close>.\<close>

lemma sum_take_le:
  fixes v :: "nat list"
  assumes "\<forall>y\<in>set v. y \<le> x"
  shows "sum_list (take (Suc m) v) \<le> x + sum_list (take m v)"
  using assms
proof (induction v arbitrary: m)
  case (Cons y v)
  then show ?case by (cases m) auto
qed simp

lemma subset_notin:
  assumes "M \<subseteq># add_mset x N" and "x \<notin># M"
  shows "M \<subseteq># N"
proof (rule mset_subset_eqI)
  fix y
  have "count M y \<le> count (add_mset x N) y" by (rule mset_subset_eq_count [OF assms(1)])
  moreover have "count M x = 0" using assms(2) by (simp add: not_in_iff)
  ultimately show "count M y \<le> count N y" by (cases "y = x") simp_all
qed

lemma top_sum:
  fixes v :: "nat list"
  assumes "sorted_wrt (\<ge>) v" and "M \<subseteq># mset v"
  shows "\<Sum>\<^sub># M \<le> sum_list (take (size M) v)"
  using assms
proof (induction v arbitrary: M)
  case Nil
  then show ?case by simp
next
  case (Cons x v)
  have le: "\<forall>y\<in>set v. y \<le> x" and srt: "sorted_wrt (\<ge>) v" using Cons.prems(1) by simp_all
  show ?case
  proof (cases "x \<in># M")
    case True
    then obtain N where M: "M = add_mset x N" by (rule mset_add)
    with Cons.prems(2) have "N \<subseteq># mset v" by simp
    from Cons.IH [OF srt this] show ?thesis by (simp add: M)
  next
    case False
    with Cons.prems(2) have sub: "M \<subseteq># mset v" by (auto intro: subset_notin [of M x "mset v"])
    show ?thesis
    proof (cases "size M")
      case 0
      then show ?thesis by simp
    next
      case (Suc m)
      have "\<Sum>\<^sub># M \<le> sum_list (take (Suc m) v)" using Cons.IH [OF srt sub] unfolding Suc .
      also have "\<dots> \<le> x + sum_list (take m v)" by (rule sum_take_le [OF le])
      finally show ?thesis by (simp add: Suc)
    qed
  qed
qed

lemma sorted_amounts: "sorted_wrt (\<ge>) (amounts (sort_utxos es))"
proof -
  have "sorted (map (\<lambda>e. - uint (utxo_amount e)) (sort_utxos es))"
    by (simp add: sort_utxos_def)
  then show ?thesis
    by (simp add: amounts_def sorted_map sorted_wrt_map word_le_nat_alt [symmetric] word_le_def
        flip: word_le_nat_alt)
qed

lemma mset_sort_utxos [simp]: "mset (sort_utxos es) = mset es" "length (sort_utxos es) = length es"
  by (simp_all add: sort_utxos_def)

lemma mset_amounts: "mset (amounts es) = image_mset (\<lambda>e. unat (utxo_amount e)) (mset es)"
  by (simp add: amounts_def)

lemma selection_le_top:
  assumes "mset sel \<subseteq># mset es"
  shows "sum_list (amounts sel) \<le> sum_list (amounts (take (length sel) (sort_utxos es)))"
proof -
  have "mset (amounts sel) \<subseteq># mset (amounts (sort_utxos es))"
    unfolding mset_amounts by (intro image_mset_subseteq_mono) (simp add: assms)
  from top_sum [OF sorted_amounts this] show ?thesis
    by (simp add: sum_mset_sum_list)
qed

definition no_overflow :: "Utxo list \<Rightarrow> nat \<Rightarrow> u64 \<Rightarrow> bool" where
  "no_overflow es l p \<longleftrightarrow> sum_list (amounts es) < 2 ^ 64 \<and> fee_spec (length es) l (unat p) < 2 ^ 64"

lemma sum_amounts_sort: "sum_list (amounts (sort_utxos es)) = sum_list (amounts es)"
proof -
  have "mset (amounts (sort_utxos es)) = mset (amounts es)" by (simp add: mset_amounts)
  then show ?thesis by (metis sum_mset_sum_list)
qed

lemma pick_spec:
  assumes "no_overflow es l p"
  shows "pick_utxos es l p = Inr r \<Longrightarrow> \<exists>k>0. picked_ok l (unat p) (sort_utxos es) k r \<and>
      (\<forall>j. 0 < j \<and> j < k \<longrightarrow> \<not> covers l (unat p) (take j (sort_utxos es)))"
    and "pick_utxos es l p = Inl e \<Longrightarrow> e = InsufficientUtxos \<and>
      (\<forall>j. 0 < j \<and> j \<le> length es \<longrightarrow> \<not> covers l (unat p) (take j (sort_utxos es)))"
  using pick_loop_spec [of "[]" "sort_utxos es" l p 0] assms
  by (simp_all add: no_overflow_def pick_utxos_def sum_amounts_sort)

text \<open>If some selection pays for itself, so do the largest coins of the same number.\<close>

lemma top_covers:
  assumes "mset sel \<subseteq># mset es" and "covers l p sel"
  shows "covers l p (take (length sel) (sort_utxos es))" and "0 < length sel" and "length sel \<le> length es"
proof -
  show len: "length sel \<le> length es" using size_mset_mono [OF assms(1)] by simp
  show "0 < length sel" using assms(2) by (auto simp: covers_def)
  show "covers l p (take (length sel) (sort_utxos es))"
    using assms(2) selection_le_top [OF assms(1)] len by (simp add: covers_def)
qed

lemma selection_ok:
  assumes "no_overflow es l p" and "pick_utxos es l p = Inr (pk, s, f, out)"
  shows "mset pk \<subseteq># mset es \<and> unat s = sum_list (amounts pk) \<and> unat f = fee_spec (length pk) l (unat p) \<and>
     unat s = unat f + unat out \<and> 0 < unat out \<and>
     (\<forall>sel. mset sel \<subseteq># mset es \<and> covers l (unat p) sel \<longrightarrow> length pk \<le> length sel) \<and>
     (\<forall>sel. mset sel \<subseteq># mset es \<and> length sel = length pk \<longrightarrow>
        sum_list (amounts sel) \<le> sum_list (amounts pk))"
proof -
  from pick_spec(1) [OF assms] obtain k where "picked_ok l (unat p) (sort_utxos es) k (pk, s, f, out)"
    and first: "\<forall>j. 0 < j \<and> j < k \<longrightarrow> \<not> covers l (unat p) (take j (sort_utxos es))" by blast
  then have ok: "k \<le> length es" "pk = take k (sort_utxos es)" "covers l (unat p) pk" "unat s = sum_list (amounts pk)"
      "unat f = fee_spec k l (unat p)" "unat s = unat f + unat out" "0 < unat out"
    unfolding picked_ok_def prod.case mset_sort_utxos by blast+
  then have len: "length pk = k" by simp
  have "mset pk \<subseteq># mset (sort_utxos es)"
    unfolding ok(2) by (metis append_take_drop_id mset_append mset_subset_eq_add_left)
  moreover have "k \<le> length sel" if "mset sel \<subseteq># mset es" "covers l (unat p) sel" for sel
    using top_covers [OF that] first not_le by blast
  moreover have "sum_list (amounts sel) \<le> sum_list (amounts pk)"
    if "mset sel \<subseteq># mset es" "length sel = k" for sel
    using selection_le_top [OF that(1)] that(2) ok(2) by simp
  ultimately show ?thesis using ok len by simp
qed

text \<open>
  C13: a successful coin selection spends coins of the wallet only, no coin twice; the amount
  spent is exactly the fee the formula demands plus the amount sent back, which is positive; no
  selection with fewer coins would pay for itself, and no other selection of as many coins is
  worth more. The bounds are those within which no sum reaches \<open>2 ^ 64\<close>.
\<close>
theorem pick_utxos_best:
  assumes "no_overflow es l p" and "pick_utxos es l p = Inr (pk, s, f, out)"
  shows "mset pk \<subseteq># mset es \<and> unat s = sum_list (amounts pk) \<and> unat f = fee_spec (length pk) l (unat p) \<and>
     unat s = unat f + unat out \<and> 0 < unat out \<and>
     (\<forall>sel. mset sel \<subseteq># mset es \<and> covers l (unat p) sel \<longrightarrow> length pk \<le> length sel) \<and>
     (\<forall>sel. mset sel \<subseteq># mset es \<and> length sel = length pk \<longrightarrow>
        sum_list (amounts sel) \<le> sum_list (amounts pk))"
  by (rule selection_ok [OF assms])

text \<open>
  C31: the coin selection fails only when it has to: with \<open>InsufficientUtxos\<close>, and exactly when no
  selection of the wallet's coins is worth more than the fee of a transaction that spends it.
\<close>
theorem pick_utxos_fails_iff:
  assumes "no_overflow es l p"
  shows "pick_utxos es l p = Inl InsufficientUtxos \<longleftrightarrow>
     (\<nexists>sel. mset sel \<subseteq># mset es \<and> covers l (unat p) sel)"
proof
  assume a: "pick_utxos es l p = Inl InsufficientUtxos"
  show "\<nexists>sel. mset sel \<subseteq># mset es \<and> covers l (unat p) sel"
  proof
    assume "\<exists>sel. mset sel \<subseteq># mset es \<and> covers l (unat p) sel"
    then obtain sel where sel: "mset sel \<subseteq># mset es" "covers l (unat p) sel" by (elim exE conjE)
    from pick_spec(2) [OF assms a] top_covers [OF sel] show False by simp
  qed
next
  assume none: "\<nexists>sel. mset sel \<subseteq># mset es \<and> covers l (unat p) sel"
  show "pick_utxos es l p = Inl InsufficientUtxos"
  proof (cases "pick_utxos es l p")
    case (Inl e)
    then show ?thesis using pick_spec(2) [OF assms Inl] by simp
  next
    case (Inr r)
    from pick_spec(1) [OF assms Inr] obtain k where k: "picked_ok l (unat p) (sort_utxos es) k r"
      by (elim exE conjE)
    have "mset (take k (sort_utxos es)) \<subseteq># mset (sort_utxos es)"
      by (metis append_take_drop_id mset_append mset_subset_eq_add_left)
    moreover have "covers l (unat p) (take k (sort_utxos es))"
      using k by (cases r) (simp add: picked_ok_def)
    ultimately show ?thesis using none by simp
  qed
qed

definition sample_coins :: "Utxo list" where
  "sample_coins = [\<lparr> utxo_outpoint = ([1], 0), utxo_amount = 100000, utxo_script = [] \<rparr>,
     \<lparr> utxo_outpoint = ([2], 0), utxo_amount = 200000, utxo_script = [] \<rparr>]"

lemma sample_coins_ok: "no_overflow sample_coins 72 0"
  by (simp add: no_overflow_def sample_coins_def fee_spec_def mass_spec_def)

theorem pick_utxos_best_witness:
  "\<exists>pk s f out. pick_utxos sample_coins 72 0 = Inr (pk, s, f, out) \<and> amounts pk = [200000] \<and>
     unat f = 170700 \<and> unat out = 29300"
proof -
  have "pick_utxos sample_coins 72 0 = Inr ([sample_coins ! 1], 200000, 170700, 29300)"
    by (simp add: pick_utxos_def sort_utxos_def sample_coins_def Let_def required_fee_def
        predicted_compute_mass_def MIN_RELAY_FEE_PER_GRAM_def)
  with pick_utxos_best [OF sample_coins_ok this] show ?thesis
    by (simp add: sample_coins_def)
qed

theorem pick_utxos_fails_iff_witness:
  "pick_utxos [] 72 0 = Inl InsufficientUtxos"
  using pick_utxos_fails_iff [of "[]" 72 0]
  by (simp add: no_overflow_def fee_spec_def mass_spec_def covers_def)

end
