(* ===== verification/Submit_Tx.thy ===== *)
theory Submit_Tx
  imports Submit
begin

text \<open>
  \<open>submit_komms_payload\<close> of \<open>src/submit.rs\<close>: encode the event, read the key, pick the coins,
  build the transaction, sign every input and submit it. What the Kaspa and secp256k1 crates do is
  a record of parameters, \<open>wallet_env\<close>: the answers of the node (\<open>get_utxos_by_addresses\<close>,
  \<open>submit_transaction\<close>), the locking script of an address, the class of a locking script, the
  signature hashes of an input and the two signature schemes, and the mass of a transaction. The
  constant fields of a transaction (version and native subnetwork) are left out of the record.
\<close>

datatype ScriptClass = PubKey | PubKeyECDSA | ScriptHash | NonStandard

record TransactionInput =
  in_outpoint :: "bytes \<times> u32"
  in_signature_script :: bytes
  in_sequence :: u64
  in_sig_op_count :: u8

record TransactionOutput =
  out_amount :: u64
  out_script :: bytes

record Transaction =
  tx_inputs :: "TransactionInput list"
  tx_outputs :: "TransactionOutput list"
  tx_lock_time :: u64
  tx_gas :: u64
  tx_payload :: bytes
  tx_mass :: u64

record wallet_env =
  secret_key_ok :: "bytes \<Rightarrow> bool"
  get_utxos_by_addresses :: "Address \<Rightarrow> Utxo list option"
  pay_to_address_script :: "Address \<Rightarrow> bytes"
  script_class :: "bytes \<Rightarrow> ScriptClass"
  schnorr_hash :: "Transaction \<Rightarrow> Utxo list \<Rightarrow> nat \<Rightarrow> bytes"
  ecdsa_hash :: "Transaction \<Rightarrow> Utxo list \<Rightarrow> nat \<Rightarrow> bytes"
  sighash_byte :: u8
  sign_schnorr :: "bytes \<Rightarrow> bytes \<Rightarrow> bytes"
  sign_ecdsa :: "bytes \<Rightarrow> bytes \<Rightarrow> bytes"
  normalized_mass :: "Transaction \<Rightarrow> Utxo list \<Rightarrow> u64 option"
  submit_transaction :: "Transaction \<Rightarrow> bytes option"

definition signature_script :: "u8 \<Rightarrow> bytes \<Rightarrow> bytes" where
  "signature_script hash_type sig = 65 # sig @ [hash_type]"

definition input_script :: "wallet_env \<Rightarrow> bytes \<Rightarrow> Utxo list \<Rightarrow> Transaction \<Rightarrow> nat \<Rightarrow> CliError + bytes" where
  "input_script env sk entries tx i =
     (case script_class env (utxo_script (entries ! i)) of
        PubKey \<Rightarrow> Inr (signature_script (sighash_byte env) (sign_schnorr env sk (schnorr_hash env tx entries i)))
      | PubKeyECDSA \<Rightarrow> Inr (signature_script (sighash_byte env) (sign_ecdsa env sk (ecdsa_hash env tx entries i)))
      | ScriptHash \<Rightarrow> Inl (UnsupportedUtxoScript i)
      | NonStandard \<Rightarrow> Inl (UnsupportedUtxoScript i))"

text \<open>\<open>signable.tx.inputs[i].signature_script = script\<close>\<close>

definition set_script :: "Transaction \<Rightarrow> nat \<Rightarrow> bytes \<Rightarrow> Transaction" where
  "set_script tx i script =
     tx\<lparr>tx_inputs := (tx_inputs tx)[i := (tx_inputs tx ! i)\<lparr>in_signature_script := script\<rparr>]\<rparr>"

text \<open>The loop over the inputs; input \<open>i\<close> spends entry \<open>i\<close>.\<close>

fun sign_inputs :: "wallet_env \<Rightarrow> bytes \<Rightarrow> Utxo list \<Rightarrow> nat list \<Rightarrow> Transaction \<Rightarrow> CliError + Transaction" where
  "sign_inputs env sk entries [] tx = Inr tx"
| "sign_inputs env sk entries (i # is) tx =
     bindE (input_script env sk entries tx i) (\<lambda>script.
       sign_inputs env sk entries is (set_script tx i script))"

definition unsigned_tx :: "wallet_env \<Rightarrow> Address \<Rightarrow> Utxo list \<Rightarrow> u64 \<Rightarrow> bytes \<Rightarrow> Transaction" where
  "unsigned_tx env change_address picked output_value payload =
     \<lparr> tx_inputs = map (\<lambda>e. \<lparr> in_outpoint = utxo_outpoint e, in_signature_script = [],
         in_sequence = 0, in_sig_op_count = 1 \<rparr>) picked,
       tx_outputs = [\<lparr> out_amount = output_value, out_script = pay_to_address_script env change_address \<rparr>],
       tx_lock_time = 0, tx_gas = 0, tx_payload = payload, tx_mass = 0 \<rparr>"

definition build_transaction ::
  "wallet_env \<Rightarrow> (bytes \<Rightarrow> nat \<Rightarrow> bytes option) \<Rightarrow> (cval \<Rightarrow> bytes) \<Rightarrow> ParsedKommsEvent \<Rightarrow> Address \<Rightarrow>
     bytes \<Rightarrow> u64 \<Rightarrow> CliError + Transaction" where
  "build_transaction env hex_decode ser ev change_address private_key_sechex priority_fee =
     bindE (map_err EncodeEvent (encode_komms_payload ser ev)) (\<lambda>payload.
     bindE (parse_hex_bytes hex_decode private_key_sechex) (\<lambda>sk.
     if length sk \<noteq> 32 then Inl PrivateKeyLength
     else if \<not> secret_key_ok env sk then Inl PrivateKeyInvalid
     else
     bindE (ok_or (get_utxos_by_addresses env change_address) (RpcFailed ''get_utxos_by_addresses'')) (\<lambda>entries.
     bindE (pick_utxos entries (length payload) priority_fee) (\<lambda>(picked, total_in, fee, output_value).
     bindE (sign_inputs env sk picked [0..<length picked]
              (unsigned_tx env change_address picked output_value payload)) (\<lambda>tx.
     bindE (ok_or (normalized_mass env tx picked) (RpcFailed ''contextual mass'')) (\<lambda>mass.
       Inr (tx\<lparr>tx_mass := mass\<rparr>)))))))"

definition submit_komms_payload ::
  "wallet_env \<Rightarrow> (bytes \<Rightarrow> nat \<Rightarrow> bytes option) \<Rightarrow> (cval \<Rightarrow> bytes) \<Rightarrow> ParsedKommsEvent \<Rightarrow> Address \<Rightarrow>
     bytes \<Rightarrow> u64 \<Rightarrow> CliError + bytes" where
  "submit_komms_payload env hex_decode ser ev change_address private_key_sechex priority_fee =
     bindE (build_transaction env hex_decode ser ev change_address private_key_sechex priority_fee) (\<lambda>tx.
       ok_or (submit_transaction env tx) (RpcFailed ''submit_transaction''))"

section \<open>Signing\<close>

text \<open>The transaction as it is when input \<open>i\<close> is signed: the inputs before it have their scripts, it
  and those after it have none yet, and the mass is not set.\<close>

definition clear_script :: "TransactionInput \<Rightarrow> TransactionInput" where
  "clear_script inp = inp\<lparr>in_signature_script := []\<rparr>"

definition before_signing :: "Transaction \<Rightarrow> nat \<Rightarrow> Transaction" where
  "before_signing tx i = tx\<lparr>tx_inputs := take i (tx_inputs tx) @ map clear_script (drop i (tx_inputs tx)), tx_mass := 0\<rparr>"

text \<open>Input \<open>i\<close> of \<open>tx\<close> spends coin \<open>i\<close> and is signed under the scheme of that coin over the
  signature hash of this very input.\<close>

definition signed_by :: "wallet_env \<Rightarrow> bytes \<Rightarrow> Utxo list \<Rightarrow> Transaction \<Rightarrow> nat \<Rightarrow> bool" where
  "signed_by env sk es tx i \<longleftrightarrow>
     in_outpoint (tx_inputs tx ! i) = utxo_outpoint (es ! i) \<and>
     (case script_class env (utxo_script (es ! i)) of
        PubKey \<Rightarrow> in_signature_script (tx_inputs tx ! i)
          = signature_script (sighash_byte env) (sign_schnorr env sk (schnorr_hash env (before_signing tx i) es i))
      | PubKeyECDSA \<Rightarrow> in_signature_script (tx_inputs tx ! i)
          = signature_script (sighash_byte env) (sign_ecdsa env sk (ecdsa_hash env (before_signing tx i) es i))
      | _ \<Rightarrow> False)"

definition same_but_scripts :: "Transaction \<Rightarrow> Transaction \<Rightarrow> bool" where
  "same_but_scripts tx tx' \<longleftrightarrow> tx' = tx\<lparr>tx_inputs := tx_inputs tx'\<rparr> \<and>
     map in_outpoint (tx_inputs tx') = map in_outpoint (tx_inputs tx)"

lemma same_but_scripts_refl: "same_but_scripts tx tx"
  by (simp add: same_but_scripts_def)

lemma same_but_scripts_trans:
  "same_but_scripts a b \<Longrightarrow> same_but_scripts b c \<Longrightarrow> same_but_scripts a c"
  by (cases a; cases b; cases c) (simp add: same_but_scripts_def)

lemma same_but_scripts_fields:
  assumes "same_but_scripts tx tx'"
  shows "tx_payload tx' = tx_payload tx" "tx_outputs tx' = tx_outputs tx"
    "map in_outpoint (tx_inputs tx') = map in_outpoint (tx_inputs tx)"
    "length (tx_inputs tx') = length (tx_inputs tx)"
proof -
  show "tx_payload tx' = tx_payload tx" "tx_outputs tx' = tx_outputs tx"
    using assms by (cases tx; cases tx'; simp add: same_but_scripts_def)+
  show m: "map in_outpoint (tx_inputs tx') = map in_outpoint (tx_inputs tx)"
    using assms by (simp add: same_but_scripts_def)
  then show "length (tx_inputs tx') = length (tx_inputs tx)" by (rule map_eq_imp_length_eq)
qed

lemma same_but_scripts_step: "same_but_scripts tx (set_script tx i s)"
proof (cases "i < length (tx_inputs tx)")
  case True
  then have "(map in_outpoint (tx_inputs tx))[i := in_outpoint (tx_inputs tx ! i)] = map in_outpoint (tx_inputs tx)"
    by (metis list_update_id nth_map)
  then show ?thesis by (simp add: same_but_scripts_def set_script_def map_update)
next
  case False
  then show ?thesis by (simp add: same_but_scripts_def set_script_def list_update_beyond)
qed

lemma sign_inputs_frame:
  "sign_inputs env sk es is tx = Inr tx' \<Longrightarrow> same_but_scripts tx tx' \<and>
     (\<forall>i. i \<notin> set is \<longrightarrow> tx_inputs tx' ! i = tx_inputs tx ! i)"
proof (induction "is" arbitrary: tx)
  case Nil
  then show ?case by (simp add: same_but_scripts_refl)
next
  case (Cons j "is")
  from Cons.prems obtain s where "sign_inputs env sk es is (set_script tx j s) = Inr tx'"
    by (auto simp: bindE_Inr_iff)
  from Cons.IH [OF this] have a: "same_but_scripts (set_script tx j s) tx'"
    and b: "i \<notin> set is \<Longrightarrow> tx_inputs tx' ! i = tx_inputs (set_script tx j s) ! i" for i by blast+
  have "same_but_scripts tx tx'" by (rule same_but_scripts_trans [OF same_but_scripts_step a])
  moreover have "tx_inputs (set_script tx j s) ! i = tx_inputs tx ! i" if "i \<noteq> j" for i
    using that by (simp add: set_script_def)
  ultimately show ?case using b by simp
qed

text \<open>Each step signs the transaction that has the final inputs before its own and the original ones
  from its own on, and changes nothing of its input but the script.\<close>

lemma set_script_input:
  "i < length (tx_inputs tx) \<Longrightarrow> tx_inputs (set_script tx i s) ! i = (tx_inputs tx ! i)\<lparr>in_signature_script := s\<rparr>"
  by (simp add: set_script_def)

lemma sign_inputs_step:
  "sign_inputs env sk es [k..<n] tx = Inr tx' \<Longrightarrow> length (tx_inputs tx) = n \<Longrightarrow> k \<le> i \<Longrightarrow> i < n \<Longrightarrow>
     \<exists>s. input_script env sk es (tx\<lparr>tx_inputs := take i (tx_inputs tx') @ drop i (tx_inputs tx)\<rparr>) i = Inr s \<and>
       tx_inputs tx' ! i = (tx_inputs tx ! i)\<lparr>in_signature_script := s\<rparr>"
proof (induction "n - k" arbitrary: k tx)
  case 0
  then show ?case by simp
next
  case (Suc m)
  then have k: "[k..<n] = k # [Suc k..<n]" "k < n" by (simp_all add: upt_conv_Cons)
  from Suc.prems(1) obtain s where s: "input_script env sk es tx k = Inr s"
    and step: "sign_inputs env sk es [Suc k..<n] (set_script tx k s) = Inr tx'"
    unfolding k(1) by (auto simp: bindE_Inr_iff)
  let ?tx = "set_script tx k s"
  have keep: "tx_inputs tx' ! j = tx_inputs ?tx ! j" if "j \<le> k" for j
    using sign_inputs_frame [OF step] that by simp
  have len: "length (tx_inputs tx') = n" "length (tx_inputs ?tx) = n"
    using same_but_scripts_fields(4) sign_inputs_frame [OF step] Suc.prems(2) by (auto simp: set_script_def)
  show ?case
  proof (cases "i = k")
    case True
    have "take k (tx_inputs tx') = take k (tx_inputs tx)"
      using keep len Suc.prems(2) by (intro nth_equalityI) (simp_all add: set_script_def)
    then have "tx\<lparr>tx_inputs := take i (tx_inputs tx') @ drop i (tx_inputs tx)\<rparr> = tx"
      using True by (cases tx) simp
    with s keep [of k] k(2) Suc.prems(2) True show ?thesis by (simp add: set_script_input)
  next
    case False
    have "?tx\<lparr>tx_inputs := take i (tx_inputs tx') @ drop i (tx_inputs ?tx)\<rparr>
        = tx\<lparr>tx_inputs := take i (tx_inputs tx') @ drop i (tx_inputs tx)\<rparr>"
      and "tx_inputs ?tx ! i = tx_inputs tx ! i"
      using False Suc.prems(3) by (simp_all add: set_script_def)
    with Suc.hyps(1) [OF _ step len(2)] Suc.hyps(2) Suc.prems(3,4) False show ?thesis by simp
  qed
qed

lemma sign_inputs_signed:
  assumes sign: "sign_inputs env sk es [0..<length es] (unsigned_tx env addr es out payload) = Inr tx'"
    and i: "i < length es"
  shows "signed_by env sk es (tx'\<lparr>tx_mass := mass\<rparr>) i"
proof -
  let ?u = "unsigned_tx env addr es out payload"
  have len_u: "length (tx_inputs ?u) = length es" by (simp add: unsigned_tx_def)
  have same: "same_but_scripts ?u tx'" using sign_inputs_frame [OF sign] by (rule conjunct1)
  have len: "length (tx_inputs tx') = length es" using same_but_scripts_fields(4) [OF same] len_u by simp
  have step: "\<exists>s. input_script env sk es (?u\<lparr>tx_inputs := take j (tx_inputs tx') @ drop j (tx_inputs ?u)\<rparr>) j = Inr s \<and>
      tx_inputs tx' ! j = (tx_inputs ?u ! j)\<lparr>in_signature_script := s\<rparr>" if "j < length es" for j
    by (rule sign_inputs_step [OF sign len_u _ that]) simp
  have "map clear_script (drop i (tx_inputs tx')) = drop i (tx_inputs ?u)"
  proof (rule nth_equalityI)
    fix j assume "j < length (map clear_script (drop i (tx_inputs tx')))"
    then have j: "i + j < length es" using len by simp
    from step [OF this] show "map clear_script (drop i (tx_inputs tx')) ! j = drop i (tx_inputs ?u) ! j"
      using j len by (auto simp: unsigned_tx_def clear_script_def)
  qed (simp add: len len_u)
  moreover have "tx' = ?u\<lparr>tx_inputs := tx_inputs tx'\<rparr>" using same by (simp add: same_but_scripts_def)
  ultimately have "before_signing (tx'\<lparr>tx_mass := mass\<rparr>) i
      = ?u\<lparr>tx_inputs := take i (tx_inputs tx') @ drop i (tx_inputs ?u)\<rparr>"
    by (cases tx') (simp add: before_signing_def unsigned_tx_def)
  with step [OF i] i show ?thesis
    by (auto simp: signed_by_def input_script_def unsigned_tx_def split: ScriptClass.splits)
qed

section \<open>The submitted transaction\<close>

lemma build_transaction_Inr:
  "build_transaction env hx ser ev addr key p = Inr tx \<longleftrightarrow>
     (\<exists>payload sk entries picked s f out tx' mass. encode_komms_payload ser ev = Inr payload \<and>
        parse_hex_bytes hx key = Inr sk \<and> length sk = 32 \<and> secret_key_ok env sk \<and>
        get_utxos_by_addresses env addr = Some entries \<and>
        pick_utxos entries (length payload) p = Inr (picked, s, f, out) \<and>
        sign_inputs env sk picked [0..<length picked] (unsigned_tx env addr picked out payload) = Inr tx' \<and>
        normalized_mass env tx' picked = Some mass \<and> tx = tx'\<lparr>tx_mass := mass\<rparr>)"
  by (auto simp: build_transaction_def result_simps if_Inl_Inr_iff split: prod.splits split del: if_split)

lemma built_payload:
  assumes "build_transaction w hx ser ev addr key fee = Inr tx"
  shows "encode_komms_payload ser ev = Inr (tx_payload tx)"
proof -
  from assms obtain payload sk picked out tx' where e: "encode_komms_payload ser ev = Inr payload"
    and t: "sign_inputs w sk picked [0..<length picked] (unsigned_tx w addr picked out payload) = Inr tx'"
    and p: "tx_payload tx = tx_payload tx'"
    unfolding build_transaction_Inr by (elim exE conjE) (erule that; simp)
  from sign_inputs_frame [OF t] have "same_but_scripts (unsigned_tx w addr picked out payload) tx'" by simp
  from same_but_scripts_fields(1) [OF this] e show ?thesis by (simp add: p unsigned_tx_def)
qed

text \<open>
  C14: the transaction that is submitted carries the encoded event as its payload, spends only
  coins of the wallet and no coin twice, pays everything but the fee back to the change address
  in a single output, the fee being exactly what the formula demands for this many inputs and
  this payload, and every input spends the coin chosen for it and is signed with the given key,
  under the scheme of that coin, over the signature hash of that very input of this transaction
  as it is when the input's turn comes (the inputs before it signed, the others still without a
  script), so no transaction with an unsupported coin is ever submitted.
\<close>
theorem submitted_transaction:
  assumes "build_transaction env hx ser ev addr key p = Inr tx"
    and "\<forall>entries payload. get_utxos_by_addresses env addr = Some entries \<and>
      encode_komms_payload ser ev = Inr payload \<longrightarrow> no_overflow entries (length payload) p"
  shows "\<exists>entries picked out sk. get_utxos_by_addresses env addr = Some entries \<and> mset picked \<subseteq># mset entries \<and>
     encode_komms_payload ser ev = Inr (tx_payload tx) \<and>
     tx_outputs tx = [\<lparr> out_amount = out, out_script = pay_to_address_script env addr \<rparr>] \<and>
     sum_list (amounts picked) = unat out + fee_spec (length (tx_inputs tx)) (length (tx_payload tx)) (unat p) \<and>
     0 < unat out \<and> parse_hex_bytes hx key = Inr sk \<and>
     length (tx_inputs tx) = length picked \<and> (\<forall>i<length picked. signed_by env sk picked tx i)"
proof -
  from assms(1) obtain payload sk entries picked s f out tx' mass where
    enc: "encode_komms_payload ser ev = Inr payload" and sk: "parse_hex_bytes hx key = Inr sk"
    and get: "get_utxos_by_addresses env addr = Some entries"
    and pick: "pick_utxos entries (length payload) p = Inr (picked, s, f, out)"
    and sign: "sign_inputs env sk picked [0..<length picked] (unsigned_tx env addr picked out payload) = Inr tx'"
    and tx: "tx = tx'\<lparr>tx_mass := mass\<rparr>"
    unfolding build_transaction_Inr by (elim exE conjE)
  let ?u = "unsigned_tx env addr picked out payload"
  have same: "same_but_scripts ?u tx'" using sign_inputs_frame [OF sign] by (rule conjunct1)
  note fields = same_but_scripts_fields [OF same]
  have len: "length (tx_inputs tx') = length picked"
    using fields(4) by (simp add: unsigned_tx_def)
  have "\<forall>i<length picked. signed_by env sk picked tx i"
    using sign_inputs_signed [OF sign] by (simp add: tx)
  moreover have "tx_payload tx = payload" "length (tx_inputs tx) = length picked"
    "tx_outputs tx = [\<lparr> out_amount = out, out_script = pay_to_address_script env addr \<rparr>]"
    using fields(1,2) len by (simp_all add: tx unsigned_tx_def)
  moreover have "no_overflow entries (length payload) p" using assms(2) get enc by blast
  from selection_ok [OF this pick] have "mset picked \<subseteq># mset entries"
    "sum_list (amounts picked) = unat out + fee_spec (length picked) (length payload) (unat p)" "0 < unat out"
    by simp_all
  ultimately show ?thesis using get enc sk by metis
qed

text \<open>A wallet with one coin of a million sompi, and the direct message \<open>sample_dm\<close>.\<close>

definition sample_coin :: Utxo where
  "sample_coin = \<lparr> utxo_outpoint = ([1], 0), utxo_amount = 1000000, utxo_script = [] \<rparr>"

definition sample_wallet :: "(Transaction \<Rightarrow> bytes option) \<Rightarrow> wallet_env" where
  "sample_wallet submit = \<lparr> secret_key_ok = (\<lambda>_. True), get_utxos_by_addresses = (\<lambda>_. Some [sample_coin]),
     pay_to_address_script = addr_payload, script_class = (\<lambda>_. PubKey),
     schnorr_hash = (\<lambda>tx es i. tx_payload tx), ecdsa_hash = (\<lambda>tx es i. []), sighash_byte = 1,
     sign_schnorr = (\<lambda>sk h. take 64 (sk @ h)), sign_ecdsa = (\<lambda>sk h. []),
     normalized_mass = (\<lambda>tx es. Some 1), submit_transaction = submit \<rparr>"

definition sample_env :: wallet_env where
  "sample_env = sample_wallet (\<lambda>_. Some (replicate 32 1))"

definition sample_key :: bytes where
  "sample_key = base16_encode (replicate 32 7)"

lemma sample_wallet_sel [simp]:
  "get_utxos_by_addresses (sample_wallet f) addr = Some [sample_coin]" "secret_key_ok (sample_wallet f) sk"
  "script_class (sample_wallet f) sc = PubKey" "normalized_mass (sample_wallet f) tx es = Some 1"
  "submit_transaction (sample_wallet f) = f"
  by (simp_all add: sample_wallet_def)

lemma pick_sample_coin: "l < 1000 \<Longrightarrow> \<exists>r. pick_utxos [sample_coin] l 0 = Inr r"
proof -
  assume l: "l < 1000"
  have "no_overflow [sample_coin] l 0"
    using l by (simp add: no_overflow_def sample_coin_def fee_spec_def mass_spec_def)
  then have "pick_utxos [sample_coin] l 0 \<noteq> Inl e" for e
    using pick_spec(2) [of "[sample_coin]" l 0 e] l
    by (auto simp: covers_def sort_utxos_def sample_coin_def fee_spec_def mass_spec_def dest!: spec [of _ 1])
  then show ?thesis by (cases "pick_utxos [sample_coin] l 0") auto
qed

lemma single_coin: "mset xs \<subseteq># {#c#} \<Longrightarrow> xs \<noteq> [] \<Longrightarrow> xs = [c]"
  by (cases xs) auto

lemma sample_no_overflow: "l < 1000 \<Longrightarrow> no_overflow [sample_coin] l 0"
  by (simp add: no_overflow_def sample_coin_def fee_spec_def mass_spec_def)

text \<open>Any small event can be sent from this wallet.\<close>

lemma sample_wallet_builds:
  assumes enc: "encode_komms_payload ser ev = Inr payload" and len: "length payload < 1000"
  shows "\<exists>tx. build_transaction (sample_wallet f) base16_decode ser ev addr sample_key 0 = Inr tx"
proof -
  obtain pk s fee out where pick: "pick_utxos [sample_coin] (length payload) 0 = Inr (pk, s, fee, out)"
    using pick_sample_coin [OF len] by auto
  have "mset pk \<subseteq># {#sample_coin#}" and "unat s = unat fee + unat out" "0 < unat out" "unat s = sum_list (amounts pk)"
    using selection_ok [OF sample_no_overflow [OF len] pick] by simp_all
  moreover from this have "pk \<noteq> []" by (cases pk) simp_all
  ultimately have "pk = [sample_coin]" by (intro single_coin)
  then have up: "[0..<length pk] = [0]" by simp
  have key: "parse_hex_bytes base16_decode sample_key = Inr (replicate 32 7)"
    unfolding sample_key_def by (rule base16.parse_hex_bytes_encode(1))
  have "\<exists>tx'. sign_inputs (sample_wallet f) (replicate 32 7) pk [0..<length pk]
      (unsigned_tx (sample_wallet f) addr pk out payload) = Inr tx'"
    unfolding up by (simp add: input_script_def)
  then obtain tx' where "sign_inputs (sample_wallet f) (replicate 32 7) pk [0..<length pk]
      (unsigned_tx (sample_wallet f) addr pk out payload) = Inr tx'" by blast
  then have "build_transaction (sample_wallet f) base16_decode ser ev addr sample_key 0 = Inr (tx'\<lparr>tx_mass := 1\<rparr>)"
    unfolding build_transaction_Inr
    by (intro exI [of _ payload] exI [of _ "replicate 32 7"] exI [of _ "[sample_coin]"] exI [of _ pk]
        exI [of _ s] exI [of _ fee] exI [of _ out] exI [of _ tx'] exI [of _ 1])
      (simp add: enc key pick)
  then show ?thesis by blast
qed

theorem submitted_transaction_witness:
  "\<exists>tx sk. build_transaction sample_env base16_decode rfc_ser sample_dm \<lparr>addr_version = 0, addr_payload = [7]\<rparr>
       sample_key 0 = Inr tx \<and> tx_payload tx = sample_dm_raw \<and>
       length (tx_inputs tx) = 1 \<and> signed_by sample_env sk [sample_coin] tx 0"
proof -
  let ?addr = "\<lparr>addr_version = 0, addr_payload = [7]\<rparr>"
  have len: "length sample_dm_raw < 1000"
    by (simp add: sample_dm_raw_def sample_dm_def wire_simps encode_cbor_uint_header_def)
  obtain tx where tx: "build_transaction sample_env base16_decode rfc_ser sample_dm ?addr sample_key 0 = Inr tx"
    using sample_wallet_builds [OF encode_sample_dm len] unfolding sample_env_def by blast
  have get: "get_utxos_by_addresses sample_env ?addr = Some [sample_coin]" by (simp add: sample_env_def)
  have ov: "\<forall>entries payload. get_utxos_by_addresses sample_env ?addr = Some entries \<and>
      encode_komms_payload rfc_ser sample_dm = Inr payload \<longrightarrow> no_overflow entries (length payload) 0"
    using sample_no_overflow [OF len] by (simp add: get encode_sample_dm)
  from submitted_transaction [OF tx ov] obtain picked sk and out' :: u64 where
    m: "mset picked \<subseteq># {#sample_coin#}" and e: "tx_payload tx = sample_dm_raw"
    and s: "sum_list (amounts picked) = unat out' + fee_spec (length (tx_inputs tx)) (length (tx_payload tx)) (unat (0 :: u64))"
    and o: "0 < unat out'" and l: "length (tx_inputs tx) = length picked" "\<forall>i<length picked. signed_by sample_env sk picked tx i"
    by (auto simp: get encode_sample_dm)
  have "picked \<noteq> []" using s o by (cases picked) simp_all
  with m have "picked = [sample_coin]" by (rule single_coin)
  with l e tx show ?thesis by auto
qed

end
