(* ===== verification/Read_Rpc.thy ===== *)
theory Read_Rpc
  imports Hexutil
begin

text \<open>
  \<open>src/read_rpc.rs\<close>: finding the payload of a transaction through a Kaspa node. The node is a record
  of its answers: to \<open>get_mempool_entry\<close>, to \<open>get_block\<close>, and to the \<open>n\<close>-th \<open>get_blocks\<close> request
  (the number lets the answers change while the scan runs); \<open>None\<close> is an RPC error.
  \<open>consensus_id\<close> converts an RPC transaction and hashes it, \<open>None\<close> when the conversion fails.
\<close>

record RpcTransaction =
  rpc_tx_payload :: bytes
  rpc_tx_body :: bytes

record rpc_node =
  mempool_entry :: "bytes \<Rightarrow> RpcTransaction option"
  block_by_hash :: "bytes \<Rightarrow> RpcTransaction list option"
  blocks_page :: "nat \<Rightarrow> bytes option \<Rightarrow> (RpcTransaction list list \<times> bytes list) option"
  consensus_id :: "RpcTransaction \<Rightarrow> bytes option"

fun find_payload_in_block ::
  "(RpcTransaction \<Rightarrow> bytes option) \<Rightarrow> RpcTransaction list \<Rightarrow> bytes \<Rightarrow> CliError + bytes option" where
  "find_payload_in_block cid [] want = Inr None"
| "find_payload_in_block cid (tx # txs) want =
     bindE (ok_or (cid tx) (RpcFailed ''transaction conversion'')) (\<lambda>i.
       if i = want then Inr (Some (rpc_tx_payload tx)) else find_payload_in_block cid txs want)"

fun scan_blocks ::
  "(RpcTransaction \<Rightarrow> bytes option) \<Rightarrow> RpcTransaction list list \<Rightarrow> bytes \<Rightarrow> CliError + bytes option" where
  "scan_blocks cid [] want = Inr None"
| "scan_blocks cid (b # bs) want =
     bindE (find_payload_in_block cid b want) (\<lambda>r.
       case r of Some p \<Rightarrow> Inr (Some p) | None \<Rightarrow> scan_blocks cid bs want)"

text \<open>\<open>for _ in 0..250u32\<close>: \<open>passes\<close> is the number of rounds left, \<open>n\<close> the number of the round.\<close>

fun scan_pages ::
  "rpc_node \<Rightarrow> bytes \<Rightarrow> nat \<Rightarrow> nat \<Rightarrow> bytes option \<Rightarrow> CliError + bytes" where
  "scan_pages node want 0 n low_hash = Inl TransactionNotFound"
| "scan_pages node want (Suc passes) n low_hash =
     bindE (ok_or (blocks_page node n low_hash) (RpcFailed ''get_blocks'')) (\<lambda>(blocks, block_hashes).
     if blocks = [] then Inl TransactionNotFound
     else bindE (scan_blocks (consensus_id node) blocks want) (\<lambda>r.
       case r of
         Some p \<Rightarrow> Inr p
       | None \<Rightarrow> scan_pages node want passes (Suc n)
           (if block_hashes = [] then None else Some (last block_hashes))))"

definition fetch_transaction_payload ::
  "rpc_node \<Rightarrow> bytes \<Rightarrow> bytes option \<Rightarrow> CliError + bytes" where
  "fetch_transaction_payload node tx_id block_hash_hint =
     (case mempool_entry node tx_id of
        Some entry \<Rightarrow> Inr (rpc_tx_payload entry)
      | None \<Rightarrow>
          bindE (case block_hash_hint of
                   None \<Rightarrow> Inr None
                 | Some h \<Rightarrow> bindE (ok_or (block_by_hash node h) (RpcFailed ''get_block'')) (\<lambda>txs.
                     find_payload_in_block (consensus_id node) txs tx_id)) (\<lambda>r.
            case r of Some p \<Rightarrow> Inr p | None \<Rightarrow> scan_pages node tx_id 250 0 None))"

datatype NetworkType = Mainnet | Testnet | Devnet | Simnet

definition network_id_for_cli :: "NetworkType \<Rightarrow> NetworkType \<times> u32 option" where
  "network_id_for_cli network = (if network = Mainnet then (Mainnet, None) else (network, Some 10))"

section \<open>What a scan finds\<close>

text \<open>\<open>first_match cid txs want p\<close>: the first transaction of \<open>txs\<close> with the id wanted has payload \<open>p\<close>,
  and every transaction before it converts. \<open>no_match\<close>: all convert and none has the id.\<close>

definition no_match :: "(RpcTransaction \<Rightarrow> bytes option) \<Rightarrow> RpcTransaction list \<Rightarrow> bytes \<Rightarrow> bool" where
  "no_match cid txs want \<longleftrightarrow> (\<forall>tx\<in>set txs. \<exists>i. cid tx = Some i \<and> i \<noteq> want)"

definition first_match :: "(RpcTransaction \<Rightarrow> bytes option) \<Rightarrow> RpcTransaction list \<Rightarrow> bytes \<Rightarrow> bytes \<Rightarrow> bool" where
  "first_match cid txs want p \<longleftrightarrow> (\<exists>pre tx post. txs = pre @ tx # post \<and> no_match cid pre want \<and>
     cid tx = Some want \<and> rpc_tx_payload tx = p)"

lemma no_match_simps [simp]: "no_match cid [] want"
  "no_match cid (tx # txs) want \<longleftrightarrow> (\<exists>i. cid tx = Some i \<and> i \<noteq> want) \<and> no_match cid txs want"
  "no_match cid (xs @ ys) want \<longleftrightarrow> no_match cid xs want \<and> no_match cid ys want"
  by (auto simp: no_match_def)

lemma first_match_Nil [simp]: "\<not> first_match cid [] want p"
  by (simp add: first_match_def)

lemma first_match_Cons [simp]:
  "first_match cid (tx # txs) want p \<longleftrightarrow>
     (cid tx = Some want \<and> rpc_tx_payload tx = p) \<or>
     (\<exists>i. cid tx = Some i \<and> i \<noteq> want) \<and> first_match cid txs want p"
proof
  assume "first_match cid (tx # txs) want p"
  then obtain pre t post where "tx # txs = pre @ t # post" "no_match cid pre want"
    "cid t = Some want" "rpc_tx_payload t = p" unfolding first_match_def by blast
  then show "(cid tx = Some want \<and> rpc_tx_payload tx = p) \<or>
     (\<exists>i. cid tx = Some i \<and> i \<noteq> want) \<and> first_match cid txs want p"
    by (cases pre) (auto simp: first_match_def)
next
  assume a: "(cid tx = Some want \<and> rpc_tx_payload tx = p) \<or>
     (\<exists>i. cid tx = Some i \<and> i \<noteq> want) \<and> first_match cid txs want p"
  then show "first_match cid (tx # txs) want p"
  proof
    assume "cid tx = Some want \<and> rpc_tx_payload tx = p"
    then show ?thesis
      unfolding first_match_def by (intro exI [of _ "[]"] exI [of _ tx] exI [of _ txs]) simp
  next
    assume b: "(\<exists>i. cid tx = Some i \<and> i \<noteq> want) \<and> first_match cid txs want p"
    then obtain pre t post where "txs = pre @ t # post" "no_match cid pre want"
      "cid t = Some want" "rpc_tx_payload t = p" unfolding first_match_def by blast
    with b show ?thesis
      unfolding first_match_def by (intro exI [of _ "tx # pre"] exI [of _ t] exI [of _ post]) simp
  qed
qed

lemma find_payload_iff:
  "find_payload_in_block cid txs want = Inr (Some p) \<longleftrightarrow> first_match cid txs want p"
  "find_payload_in_block cid txs want = Inr None \<longleftrightarrow> no_match cid txs want"
  by (induction txs) (auto simp: result_simps)

lemma first_match_append:
  "first_match cid (xs @ ys) want p \<longleftrightarrow> first_match cid xs want p \<or> no_match cid xs want \<and> first_match cid ys want p"
  by (induction xs) auto

lemma scan_blocks_iff:
  "scan_blocks cid bs want = Inr (Some p) \<longleftrightarrow> first_match cid (concat bs) want p"
  "scan_blocks cid bs want = Inr None \<longleftrightarrow> no_match cid (concat bs) want"
  by (induction bs) (auto simp: result_simps find_payload_iff first_match_append split: option.splits)

section \<open>The pages\<close>

text \<open>The answer to the \<open>n\<close>-th request, each request starting at the last hash of the answer
  before.\<close>

fun low_hash_at :: "rpc_node \<Rightarrow> nat \<Rightarrow> bytes option" where
  "low_hash_at node 0 = None"
| "low_hash_at node (Suc n) =
     (case blocks_page node n (low_hash_at node n) of
        Some (blocks, h # hs) \<Rightarrow> Some (last (h # hs))
      | _ \<Rightarrow> None)"

definition page_at :: "rpc_node \<Rightarrow> nat \<Rightarrow> (RpcTransaction list list \<times> bytes list) option" where
  "page_at node n = blocks_page node n (low_hash_at node n)"

definition page_passed :: "rpc_node \<Rightarrow> bytes \<Rightarrow> nat \<Rightarrow> bool" where
  "page_passed node want n \<longleftrightarrow> (\<exists>blocks hs. page_at node n = Some (blocks, hs) \<and> blocks \<noteq> [] \<and>
     no_match (consensus_id node) (concat blocks) want)"

definition page_found :: "rpc_node \<Rightarrow> bytes \<Rightarrow> nat \<Rightarrow> bytes \<Rightarrow> bool" where
  "page_found node want n p \<longleftrightarrow> (\<exists>blocks hs. page_at node n = Some (blocks, hs) \<and>
     first_match (consensus_id node) (concat blocks) want p)"

lemma scan_pages_step:
  "scan_pages node want (Suc passes) n (low_hash_at node n) = Inr p \<longleftrightarrow>
     page_found node want n p \<or>
     page_passed node want n \<and> scan_pages node want passes (Suc n) (low_hash_at node (Suc n)) = Inr p"
proof (cases "page_at node n")
  case None
  then show ?thesis by (simp add: page_found_def page_passed_def page_at_def)
next
  case (Some pg)
  obtain blocks hs where pg: "pg = (blocks, hs)" by (cases pg)
  have low: "low_hash_at node (Suc n) = (if hs = [] then None else Some (last hs))"
    using Some by (cases hs) (simp_all add: page_at_def pg)
  have "scan_pages node want (Suc passes) n (low_hash_at node n) = Inr p \<longleftrightarrow> blocks \<noteq> [] \<and>
      (scan_blocks (consensus_id node) blocks want = Inr (Some p) \<or>
       scan_blocks (consensus_id node) blocks want = Inr None \<and>
         scan_pages node want passes (Suc n) (low_hash_at node (Suc n)) = Inr p)"
    using Some unfolding low
    by (auto simp: page_at_def pg result_simps split: option.splits)
  also have "\<dots> \<longleftrightarrow> page_found node want n p \<or>
     page_passed node want n \<and> scan_pages node want passes (Suc n) (low_hash_at node (Suc n)) = Inr p"
    using Some by (auto simp: scan_blocks_iff page_found_def page_passed_def pg)
  finally show ?thesis .
qed

lemma scan_pages_iff:
  "scan_pages node want passes n (low_hash_at node n) = Inr p \<longleftrightarrow>
     (\<exists>k<passes. page_found node want (n + k) p \<and> (\<forall>j<k. page_passed node want (n + j)))"
proof (induction passes arbitrary: n)
  case 0
  then show ?case by simp
next
  case (Suc passes)
  show ?case
    unfolding scan_pages_step Suc.IH Ex_less_Suc2 All_less_Suc2
    by simp blast
qed

text \<open>
  C23: \<open>read tx\<close> returns a payload exactly when the node has the transaction: in the mempool; or, if
  not, in the hinted block; or in one of the first 250 pages of blocks, each of the pages before
  it being non-empty, and in every block or page searched before the match each transaction
  converting to one with another id. It is the payload of the first match in this order, and
  there are never more than 250 page requests.
\<close>
theorem fetch_transaction_payload_iff:
  "fetch_transaction_payload node want hint = Inr p \<longleftrightarrow>
     (case mempool_entry node want of
        Some e \<Rightarrow> p = rpc_tx_payload e
      | None \<Rightarrow>
          (\<exists>h txs. hint = Some h \<and> block_by_hash node h = Some txs \<and> first_match (consensus_id node) txs want p) \<or>
          (hint = None \<or> (\<exists>h txs. hint = Some h \<and> block_by_hash node h = Some txs \<and>
             no_match (consensus_id node) txs want)) \<and>
          (\<exists>k<250. page_found node want k p \<and> (\<forall>j<k. page_passed node want j)))"
proof -
  have pages: "scan_pages node want 250 0 None = Inr p \<longleftrightarrow>
      (\<exists>k<250. page_found node want k p \<and> (\<forall>j<k. page_passed node want j))"
    using scan_pages_iff [of node want 250 0 p] by simp
  show ?thesis
    unfolding fetch_transaction_payload_def
    by (cases "mempool_entry node want"; cases hint)
      (auto simp: result_simps pages find_payload_iff simp del: scan_pages.simps split: option.splits)
qed

text \<open>A node whose mempool is empty, with the transaction wanted on the second page.\<close>

definition sample_node :: rpc_node where
  "sample_node = \<lparr> mempool_entry = (\<lambda>_. None), block_by_hash = (\<lambda>_. None),
     blocks_page = (\<lambda>n low. if n = 0 then Some ([[\<lparr>rpc_tx_payload = [5], rpc_tx_body = [1]\<rparr>]], [[10]])
       else Some ([[\<lparr>rpc_tx_payload = [6], rpc_tx_body = [2]\<rparr>]], [[11]])),
     consensus_id = (\<lambda>tx. Some (rpc_tx_body tx)) \<rparr>"

theorem fetch_transaction_payload_iff_witness:
  "fetch_transaction_payload sample_node [2] None = Inr [6]"
proof -
  have "page_found sample_node [2] 1 [6]"
    by (simp add: page_found_def page_at_def sample_node_def)
  moreover have "page_passed sample_node [2] 0"
    by (simp add: page_passed_def page_at_def sample_node_def)
  ultimately have "\<exists>k<250. page_found sample_node [2] k [6] \<and> (\<forall>j<k. page_passed sample_node [2] j)"
    by (intro exI [of _ 1]) simp
  then show ?thesis
    unfolding fetch_transaction_payload_iff by (simp add: sample_node_def)
qed

end
