(* ===== verification/Cli_Run.thy ===== *)
theory Cli_Run
  imports Cli_Post_Valid Cli_Decode Index_Scan Submit_Tx Read_Rpc
begin

text \<open>
  The commands of the \<open>komms\<close> program: the match of \<open>run\<close> in \<open>src/lib.rs\<close>, from the parsed command
  line to the JSON document that is printed or the error. What the program reads and calls is
  one record of parameters, \<open>cli_env\<close>; the fields \<open>env_node\<close> and \<open>env_wallet\<close> stand for
  \<open>make_client\<close> followed by \<open>connect_rpc\<close> (\<open>None\<close> when either fails).
\<close>

datatype IdCmd =
    Id_Message bytes u64
  | Id_Server bytes
  | Id_Channel bytes bytes bytes
  | Id_Dm bytes bytes
  | Id_CreatorBytes bytes
  | Id_NewWallet NetworkType

datatype ReadCmd =
    Read_Tx bytes "bytes option" NetworkType "bytes option" bool bool bool "bytes option"
  | Read_Index bytes "u8 option" "bytes option" "bytes option" "u64 option" "u64 option"

text \<open>\<open>Cmd_Decode input strict pretty_cbor verify_sig ed25519_pubkey_hex\<close>, \<open>Cmd_Post cmd submit rpc_url
  network change_address private_key_hex priority_fee\<close>; the flag \<open>pretty\<close> only chooses the layout
  of the printed text.\<close>

datatype Commands =
    Cmd_Decode "bytes option" bool bool bool "bytes option"
  | Cmd_RefInspect bytes
  | Cmd_Id IdCmd
  | Cmd_Read ReadCmd
  | Cmd_Post PostCmd bool "bytes option" "NetworkType option" "bytes option" "bytes option" u64
  | Cmd_VerifyContent bytes bytes

record cli_env =
  env_hex_string :: "bytes \<Rightarrow> bytes"
  env_hex_decode :: "bytes \<Rightarrow> nat \<Rightarrow> bytes option"
  env_ser :: "cval \<Rightarrow> bytes"
  env_de :: "bytes \<Rightarrow> string + cval"
  env_debug_cval :: "cval \<Rightarrow> bytes"
  env_key_ok :: "bytes \<Rightarrow> bool"
  env_verify_strict :: "bytes \<Rightarrow> bytes \<Rightarrow> bytes \<Rightarrow> bool"
  env_sha256 :: "bytes \<Rightarrow> bytes"
  env_parse_address :: "bytes \<Rightarrow> Address option"
  env_address_text :: "NetworkType \<Rightarrow> Address \<Rightarrow> bytes"
  env_version_pubkey :: u8
  env_new_key :: "bytes \<times> bytes"
  env_txid_text :: "bytes \<Rightarrow> bytes"
  env_stdin :: "bytes option"
  env_read_file :: "bytes \<Rightarrow> bytes option"
  env_node :: "bytes option \<Rightarrow> NetworkType \<Rightarrow> rpc_node option"
  env_wallet :: "bytes option \<Rightarrow> NetworkType \<Rightarrow> wallet_env option"
  env_index :: "bytes \<Rightarrow> (bytes \<times> bytes) option list option"
  env_from_bytes :: "bytes \<Rightarrow> KommsEventRecord option"
  env_from_bytes_v1 :: "bytes \<Rightarrow> KommsEventRecordV1 option"
  env_feature_submit :: bool

section \<open>Decoding and inspecting\<close>

definition env_decode :: "cli_env \<Rightarrow> bytes \<Rightarrow> bool \<Rightarrow> bool \<Rightarrow> bool \<Rightarrow> bytes option \<Rightarrow> CliError + json" where
  "env_decode env = decode_payload (env_hex_string env) (env_hex_decode env) (env_ser env) (env_de env)
     (env_debug_cval env) (env_key_ok env) (env_verify_strict env)"

definition run_decode :: "cli_env \<Rightarrow> bytes option \<Rightarrow> bool \<Rightarrow> bool \<Rightarrow> bool \<Rightarrow> bytes option \<Rightarrow> CliError + json" where
  "run_decode env input strict pretty_cbor verify_sig pk_hex =
     bindE (load_input_bytes (env_hex_decode env) (env_stdin env) (env_read_file env) input) (\<lambda>raw.
       env_decode env raw strict pretty_cbor verify_sig pk_hex)"

definition run_ref_inspect :: "cli_env \<Rightarrow> bytes \<Rightarrow> CliError + json" where
  "run_ref_inspect env hex =
     bindE (parse_hex_bytes (env_hex_decode env) hex) (\<lambda>b. Inr (ref_json (env_hex_string env) b))"

definition run_verify_content :: "cli_env \<Rightarrow> bytes \<Rightarrow> bytes \<Rightarrow> CliError + json" where
  "run_verify_content env file ref_hex =
     bindE (ok_or (env_read_file env file) InputIo) (\<lambda>content.
     let digest = env_sha256 env content in
     bindE (parse_hex_bytes (env_hex_decode env) ref_hex) (\<lambda>r.
     let ok = (r \<noteq> [] \<and> hd r = 0x02 \<and> length r = 33 \<and> tl r = digest) in
       Inr (JObj [(''file_sha256'', JStr (env_hex_string env digest)), (''ref_hex'', JStr ref_hex),
         (''matches_ref_content_hash'', JBool ok)])))"

section \<open>Identifiers\<close>

fun run_id :: "cli_env \<Rightarrow> IdCmd \<Rightarrow> CliError + json" where
  "run_id env (Id_Message txid event_index) =
     bindE (parse_hex32 (env_hex_decode env) txid) (\<lambda>t.
       Inr (JObj [(''message_id'', JStr (env_hex_string env (message_id t)))]))"
| "run_id env (Id_Server creation_txid) =
     bindE (parse_hex32 (env_hex_decode env) creation_txid) (\<lambda>t.
       Inr (JObj [(''server_id'', JStr (env_hex_string env (server_id t)))]))"
| "run_id env (Id_Channel sid_hex creator_address_hex creation_txid) =
     bindE (parse_hex32 (env_hex_decode env) creation_txid) (\<lambda>t.
       Inr (JObj [(''channel_id'', JStr (env_hex_string env (channel_id t)))]))"
| "run_id env (Id_Dm addr_a_hex addr_b_hex) =
     bindE (parse_hex_bytes (env_hex_decode env) addr_a_hex) (\<lambda>a.
     bindE (parse_hex_bytes (env_hex_decode env) addr_b_hex) (\<lambda>b.
       Inr (JObj [(''dm_thread_id'', JStr (env_hex_string env (dm_thread_id (env_sha256 env) a b)))])))"
| "run_id env (Id_CreatorBytes address) =
     bindE (ok_or (env_parse_address env address) AddressInvalid) (\<lambda>addr.
     let body = creator_address_body_from_addr addr in
       Inr (JObj [(''kaspa_address'', JStr address), (''address_version'', j_u8 (addr_version addr)),
         (''creator_address_hex'', JStr (env_hex_string env body)),
         (''participant_id_hex'', JStr (env_hex_string env (participant_id (env_sha256 env) body)))]))"
| "run_id env (Id_NewWallet network) =
     (case env_new_key env of (secret, xonly) \<Rightarrow>
      let addr = \<lparr> addr_version = env_version_pubkey env, addr_payload = xonly \<rparr>;
          body = creator_address_body_from_addr addr in
       Inr (JObj [(''private_key_hex'', JStr (env_hex_string env secret)),
         (''xonly_pubkey_hex'', JStr (env_hex_string env xonly)),
         (''kaspa_address'', JStr (env_address_text env network addr)),
         (''address_version'', j_u8 (addr_version addr)),
         (''creator_address_hex'', JStr (env_hex_string env body)),
         (''participant_id_hex'', JStr (env_hex_string env (participant_id (env_sha256 env) body)))]))"

section \<open>Reading\<close>

fun run_read :: "cli_env \<Rightarrow> ReadCmd \<Rightarrow> CliError + json" where
  "run_read env (Read_Tx txid rpc_url network block_hash strict pretty_cbor verify_sig pk_hex) =
     bindE (ok_or (env_node env rpc_url network) (RpcFailed ''connect'')) (\<lambda>node.
     bindE (parse_hex32 (env_hex_decode env) txid) (\<lambda>tid.
     bindE (arg_hex32 (env_hex_decode env) block_hash) (\<lambda>bh.
     bindE (fetch_transaction_payload node tid bh) (\<lambda>payload.
     bindE (env_decode env payload strict pretty_cbor verify_sig pk_hex) (\<lambda>j.
       Inr (json_set j ''txid'' (JStr txid)))))))"
| "run_read env (Read_Index data_dir event_type sid_hex cid_hex daa_min daa_max) =
     read_index (env_hex_string env) (env_hex_decode env) (env_from_bytes env) (env_from_bytes_v1 env)
       (env_index env data_dir) event_type sid_hex cid_hex daa_min daa_max"

section \<open>Posting\<close>

definition run_submit ::
  "cli_env \<Rightarrow> ParsedKommsEvent \<Rightarrow> bytes option \<Rightarrow> NetworkType option \<Rightarrow> bytes option \<Rightarrow> bytes option \<Rightarrow>
     u64 \<Rightarrow> CliError + json" where
  "run_submit env ev rpc_url network change_address private_key_hex priority_fee =
     (if \<not> env_feature_submit env then Inl SubmitNotBuilt
      else
        let nt = (case network of None \<Rightarrow> Mainnet | Some n \<Rightarrow> n) in
        bindE (ok_or change_address ChangeAddressRequired) (\<lambda>s.
        bindE (ok_or (env_parse_address env s) AddressInvalid) (\<lambda>addr.
        bindE (ok_or private_key_hex PrivateKeyRequired) (\<lambda>pk.
        bindE (ok_or (env_wallet env rpc_url nt) (RpcFailed ''connect'')) (\<lambda>wallet.
        bindE (submit_komms_payload wallet (env_hex_decode env) (env_ser env) ev addr pk priority_fee) (\<lambda>tid.
        bindE (map_err EncodeEvent (encode_komms_payload (env_ser env) ev)) (\<lambda>raw.
          Inr (JObj [(''submitted_transaction_id'', JStr (env_txid_text env tid)),
            (''payload_hex'', JStr (env_hex_string env raw))]))))))))"

definition run_post ::
  "cli_env \<Rightarrow> PostCmd \<Rightarrow> bool \<Rightarrow> bytes option \<Rightarrow> NetworkType option \<Rightarrow> bytes option \<Rightarrow> bytes option \<Rightarrow>
     u64 \<Rightarrow> CliError + json" where
  "run_post env cmd submit rpc_url network change_address private_key_hex priority_fee =
     bindE (post_event (env_hex_decode env) (env_sha256 env) (env_parse_address env) (env_ser env)
              cmd submit change_address) (\<lambda>(ev, raw).
     if submit then run_submit env ev rpc_url network change_address private_key_hex priority_fee
     else Inr (JObj [(''payload_hex'', JStr (env_hex_string env raw)),
            (''event'', event_to_json (env_hex_string env) ev)]))"

fun run :: "cli_env \<Rightarrow> Commands \<Rightarrow> CliError + json" where
  "run env (Cmd_Decode input strict pretty_cbor verify_sig pk_hex) =
     run_decode env input strict pretty_cbor verify_sig pk_hex"
| "run env (Cmd_RefInspect hex) = run_ref_inspect env hex"
| "run env (Cmd_Id cmd) = run_id env cmd"
| "run env (Cmd_Read cmd) = run_read env cmd"
| "run env (Cmd_Post cmd submit rpc_url network change_address private_key_hex priority_fee) =
     run_post env cmd submit rpc_url network change_address private_key_hex priority_fee"
| "run env (Cmd_VerifyContent file ref_hex) = run_verify_content env file ref_hex"

end
