(* ===== verification/Cli_Env.thy ===== *)
theory Cli_Env
  imports Cli_Run
begin

text \<open>
  What the properties of whole commands need of the environment (\<open>env_laws\<close>: the codecs are codecs
  and SHA-256 has 32 bytes; \<open>relays\<close>: the node hands out what the wallet submitted), the lemmas that
  compose the commands, and an environment in which the laws hold.
\<close>

section \<open>Reading back what was posted\<close>

lemma hex_visible: "hex_codec hex_string hex_decode \<Longrightarrow> c \<in> set (hex_string b) \<Longrightarrow> 0x20 < c \<and> c < 0x80"
  using hex_codec.encode_digits hex_digit_visible by blast

text \<open>Hex text given as the argument of \<open>decode\<close> is read as hex, not as a path or as \<open>-\<close>.\<close>

lemma load_hex_argument:
  assumes "hex_codec hex_string hex_decode" and "raw \<noteq> []"
  shows "load_input_bytes hex_decode stdin read_file (Some (hex_string raw)) = Inr raw"
proof -
  have t: "trim (hex_string raw) = hex_string raw"
    using hex_visible [OF assms(1)] by (intro trim_visible) blast
  have d: "c \<in> set (hex_string raw) \<Longrightarrow> c \<noteq> 0x2D \<and> c \<noteq> 0x40" for c
    using hex_codec.encode_digits [OF assms(1)] by (fastforce simp: hex_digit_def word_le_nat_alt)
  have "hex_string raw \<noteq> [0x2D]" using d by force
  moreover have "hex_string raw \<noteq> []"
    using hex_codec.encode_length [OF assms(1), of raw] assms(2) by force
  then have "hd (hex_string raw) \<noteq> 0x40" using d hd_in_set by blast
  ultimately show ?thesis
    using hex_codec.parse_hex_bytes_encode(1) [OF assms(1)] by (simp add: load_input_bytes_def t Let_def)
qed

definition env_laws :: "cli_env \<Rightarrow> bool" where
  "env_laws env \<longleftrightarrow> cbor_codec (env_ser env) (env_de env) \<and>
     hex_codec (env_hex_string env) (env_hex_decode env) \<and> (\<forall>x. length (env_sha256 env x) = 32)"

definition refs_sized :: "cli_env \<Rightarrow> PostCmd \<Rightarrow> bool" where
  "refs_sized env cmd \<longleftrightarrow>
     (\<forall>ev r. build_post_ev (env_hex_decode env) cmd = Inr ev \<and> ev_ref_bytes ev = Some r \<longrightarrow> length r < 2 ^ 64)"

lemma post_event_ref:
  assumes "post_event hx sha pa ser cmd submit change = Inr (ev, raw)"
  shows "\<exists>ev0. build_post_ev hx cmd = Inr ev0 \<and> ev_ref_bytes ev0 = ev_ref_bytes ev"
  using assms by (auto simp: post_event_Inr patch_Inr split: if_splits)

lemma post_event_prefix:
  "post_event hx sha pa ser cmd submit change = Inr (ev, raw) \<Longrightarrow> raw \<noteq> []"
  by (auto simp: post_event_Inr encode_komms_payload_def bindE_Inr_iff KOMMS_PAYLOAD_PREFIX_def)

lemma posted_decodes:
  assumes "env_laws env" and "refs_sized env cmd"
    and post: "post_event (env_hex_decode env) (env_sha256 env) (env_parse_address env) (env_ser env) cmd submit change = Inr (ev, raw)"
    and len: "length (env_hex_string env raw) < 2 ^ 64"
  shows "env_decode env raw True False False None = Inr (event_to_json (env_hex_string env) ev)"
proof -
  have laws: "cbor_codec (env_ser env) (env_de env)" "hex_codec (env_hex_string env) (env_hex_decode env)"
    "\<forall>x. length (env_sha256 env x) = 32" using assms(1) by (simp_all add: env_laws_def)
  have "2 * length raw < 2 ^ 64" using len by (simp add: hex_codec.encode_length [OF laws(2)])
  then have len': "length raw < 2 ^ 64" by linarith
  have ref: "length r < 2 ^ 64" if "ev_ref_bytes ev = Some r" for r
    using post_event_ref [OF post] that assms(2) by (auto simp: refs_sized_def)
  let ?ev = "ev\<lparr>ev_enc_scheme := Some (if ev_enc ev then 1 else 0)\<rparr>"
  have "parse_komms_payload (env_de env) raw = Inr ?ev"
    using post_parses [OF laws post len' ref] by blast
  then have "decode_event (env_de env) raw True = Inr (?ev, None)"
    by (simp add: decode_event_def)
  then have "env_decode env raw True False False None = Inr (event_to_json (env_hex_string env) ?ev)"
    by (simp add: env_decode_def decode_payload_def)
  moreover have "event_to_json (env_hex_string env) ?ev = event_to_json (env_hex_string env) ev"
    by (simp add: hex_codec.event_json_eq [OF laws(2)])
  ultimately show ?thesis by simp
qed

text \<open>
  The node hands out, under the identifier it returned on submission, a mempool entry with the
  payload of the transaction that was submitted.
\<close>

definition relays :: "wallet_env \<Rightarrow> rpc_node \<Rightarrow> bool" where
  "relays wallet node \<longleftrightarrow> (\<forall>tx tid. submit_transaction wallet tx = Some tid \<longrightarrow>
     length tid = 32 \<and> (\<exists>e. mempool_entry node tid = Some e \<and> rpc_tx_payload e = tx_payload tx))"

lemma submitted_payload:
  "submit_komms_payload w hx ser ev addr key fee = Inr tid \<Longrightarrow>
     \<exists>tx. submit_transaction w tx = Some tid \<and> encode_komms_payload ser ev = Inr (tx_payload tx)"
  using built_payload by (fastforce simp: submit_komms_payload_def result_simps)

section \<open>An environment\<close>

definition sample_env_cli :: cli_env where
  "sample_env_cli = \<lparr> env_hex_string = base16_encode, env_hex_decode = base16_decode, env_ser = rfc_ser,
     env_de = rfc_de, env_debug_cval = (\<lambda>_. []), env_key_ok = (\<lambda>_. True),
     env_verify_strict = (\<lambda>_ _ _. True), env_sha256 = (\<lambda>_. replicate 32 7),
     env_parse_address = (\<lambda>_. None), env_address_text = (\<lambda>_ _. []), env_version_pubkey = 0,
     env_new_key = (replicate 32 1, replicate 32 2), env_txid_text = (\<lambda>t. t), env_stdin = None,
     env_read_file = (\<lambda>_. Some []), env_node = (\<lambda>_ _. None), env_wallet = (\<lambda>_ _. None),
     env_index = (\<lambda>_. None), env_from_bytes = (\<lambda>_. None), env_from_bytes_v1 = (\<lambda>_. None),
     env_feature_submit = False \<rparr>"

lemma sample_env_laws: "env_laws sample_env_cli"
  by (simp add: env_laws_def sample_env_cli_def rfc.cbor_codec_axioms base16.hex_codec_axioms)

lemma sample_env_sel [simp]:
  "env_hex_string sample_env_cli = base16_encode" "env_hex_decode sample_env_cli = base16_decode"
  "env_ser sample_env_cli = rfc_ser" "env_sha256 sample_env_cli = (\<lambda>_. replicate 32 7)"
  "env_parse_address sample_env_cli = (\<lambda>_. None)" "env_read_file sample_env_cli = (\<lambda>_. Some [])"
  by (simp_all add: sample_env_cli_def)

definition sample_post_raw :: bytes where
  "sample_post_raw = KOMMS_PAYLOAD_PREFIX @ rfc_ser (Map (event_pairs sample_post_ev))"

lemma sample_post_built:
  "post_event base16_decode (\<lambda>_. replicate 32 7) pa rfc_ser sample_post submit change = Inr (sample_post_ev, sample_post_raw)"
  using post_sample
  by (simp add: sample_post_raw_def post_event_def patch_member_join_leave_pid_def sample_post_def
      build_sample_post [unfolded sample_post_def])

lemma sample_post_sized: "refs_sized sample_env_cli sample_post"
  by (auto simp: refs_sized_def build_sample_post) (simp add: sample_post_ev_def)

lemma sample_post_raw_length: "length sample_post_raw < 1000"
  by (simp add: sample_post_raw_def sample_post_ev_def post_base_def no_meta_def wire_simps encode_cbor_uint_header_def)

lemma sample_post_hex_length: "length (base16_encode sample_post_raw) < 2 ^ 64"
  unfolding base16.encode_length using sample_post_raw_length by simp

text \<open>The same environment with a wallet and a node that has received the message.\<close>

definition sample_online :: cli_env where
  "sample_online = sample_env_cli\<lparr>env_parse_address := (\<lambda>_. Some \<lparr>addr_version = 0, addr_payload = [7]\<rparr>),
     env_txid_text := base16_encode, env_feature_submit := True,
     env_wallet := (\<lambda>_ _. Some (sample_wallet (\<lambda>tx. if tx_payload tx = sample_post_raw then Some (replicate 32 1) else None))),
     env_node := (\<lambda>_ _. Some (sample_node\<lparr>mempool_entry := (\<lambda>_. Some \<lparr>rpc_tx_payload = sample_post_raw, rpc_tx_body = []\<rparr>)\<rparr>))\<rparr>"

lemma sample_online_laws: "env_laws sample_online" "refs_sized sample_online sample_post"
  using sample_env_laws sample_post_sized by (simp_all add: sample_online_def env_laws_def refs_sized_def)

end
