(* ===== verification/Cli_Io.thy ===== *)
theory Cli_Io
  imports Cli_Env
begin

text \<open>
  The commands of the \<open>komms\<close> program with the calls they make to the outside, in the order of
  the source: reading the input, opening the database, opening a client, each RPC request, and the
  line that is printed. A computation is a writer of \<open>call\<close>s over the result type of \<open>Cli_Run\<close>;
  \<open>bindI\<close> is the operator \<open>?\<close> (a failure keeps the calls made so far and makes no further one).
  The environment \<open>io_env\<close> adds to \<open>cli_env\<close> what opening a client and connecting give
  (\<open>make_client\<close>, \<open>connect_rpc\<close>), and the texts \<open>serde_json\<close> gives for a document.
\<close>

section \<open>Calls\<close>

text \<open>\<open>NewClient url resolver network_id\<close>: the encoding is always Borsh and the last argument of
  \<open>KaspaRpcClient::new\<close> always \<open>None\<close>.\<close>

datatype call =
    ReadStdin
  | ReadFile bytes
  | OpenIndex bytes
  | GenerateKey
  | NewClient "bytes option" bool "NetworkType \<times> u32 option"
  | Connect
  | GetMempoolEntry bytes
  | GetBlock bytes
  | GetBlocks "bytes option"
  | GetUtxos Address
  | SubmitTx Transaction
  | Println bytes

type_synonym 'a io = "call list \<times> (CliError + 'a)"

definition liftI :: "CliError + 'a \<Rightarrow> 'a io" where
  "liftI r = ([], r)"

definition callI :: "call \<Rightarrow> CliError + 'a \<Rightarrow> 'a io" where
  "callI c r = ([c], r)"

fun bindI :: "'a io \<Rightarrow> ('a \<Rightarrow> 'b io) \<Rightarrow> 'b io" where
  "bindI (cs, Inl e) f = (cs, Inl e)"
| "bindI (cs, Inr x) f = (cs @ fst (f x), snd (f x))"

lemma bindI_cong [fundef_cong]:
  "m = m' \<Longrightarrow> (\<And>x. snd m' = Inr x \<Longrightarrow> f x = g x) \<Longrightarrow> bindI m f = bindI m' g"
  by (cases m'; cases "snd m'") auto

lemma liftI_simps [simp]: "fst (liftI r) = []" "snd (liftI r) = r"
  by (simp_all add: liftI_def)

lemma callI_simps [simp]: "fst (callI c r) = [c]" "snd (callI c r) = r"
  by (simp_all add: callI_def)

lemma snd_bindI: "snd (bindI m f) = bindE (snd m) (\<lambda>x. snd (f x))"
  by (cases "(m, f)" rule: bindI.cases) simp_all

lemma fst_bindI:
  "fst (bindI m f) = fst m @ (case snd m of Inl e \<Rightarrow> [] | Inr x \<Rightarrow> fst (f x))"
  by (cases "(m, f)" rule: bindI.cases) simp_all

lemma bindI_liftI: "bindI (liftI (Inr x)) f = f x" "bindI m (\<lambda>x. liftI (Inr x)) = m"
  by (simp add: liftI_def) (rule prod_eqI; cases "snd m"; simp add: fst_bindI snd_bindI)

lemma bindI_assoc: "bindI (bindI m f) g = bindI m (\<lambda>x. bindI (f x) g)"
  by (rule prod_eqI) (simp_all add: fst_bindI snd_bindI bindE_assoc split: sum.splits)

section \<open>The environment\<close>

record rpc_client =
  client_connects :: bool
  client_node :: rpc_node
  client_wallet :: "NetworkType \<Rightarrow> wallet_env"

record io_env =
  io_cli :: cli_env
  io_new_client :: "bytes option \<Rightarrow> bool \<Rightarrow> NetworkType \<times> u32 option \<Rightarrow> rpc_client option"
  io_json_text :: "json \<Rightarrow> bytes option"
  io_json_text_pretty :: "json \<Rightarrow> bytes option"

definition make_client :: "io_env \<Rightarrow> bytes option \<Rightarrow> NetworkType \<Rightarrow> rpc_client io" where
  "make_client e url network =
     (let resolver = (url = None);
          nid = network_id_for_cli network
      in callI (NewClient url resolver nid)
           (ok_or (io_new_client e url resolver nid) (RpcFailed ''connect'')))"

definition connect_rpc :: "rpc_client \<Rightarrow> unit io" where
  "connect_rpc client =
     callI Connect (if client_connects client then Inr () else Inl (RpcFailed ''connect''))"

text \<open>The environment \<open>run\<close> of \<open>Cli_Run\<close> sees: a node is what a client that connects gives.\<close>

definition connected :: "io_env \<Rightarrow> bytes option \<Rightarrow> NetworkType \<Rightarrow> rpc_client option" where
  "connected e url network =
     (case io_new_client e url (url = None) (network_id_for_cli network) of
        None \<Rightarrow> None
      | Some c \<Rightarrow> if client_connects c then Some c else None)"

definition cli_env_of :: "io_env \<Rightarrow> cli_env" where
  "cli_env_of e = (io_cli e)\<lparr>
     env_node := (\<lambda>url network. map_option client_node (connected e url network)),
     env_wallet := (\<lambda>url network. map_option (\<lambda>c. client_wallet c network) (connected e url network))\<rparr>"

text \<open>\<open>println!\<close> of the text, compact or indented.\<close>

definition print_json :: "io_env \<Rightarrow> json \<Rightarrow> bool \<Rightarrow> unit io" where
  "print_json e v pretty =
     (if pretty then bindI (liftI (ok_or (io_json_text_pretty e v) JsonText)) (\<lambda>t. callI (Println (t @ [0x0A])) (Inr ()))
      else bindI (liftI (ok_or (io_json_text e v) JsonText)) (\<lambda>t. callI (Println (t @ [0x0A])) (Inr ())))"

section \<open>Input\<close>

definition read_stdin_hex_io :: "cli_env \<Rightarrow> bytes io" where
  "read_stdin_hex_io env =
     bindI (callI ReadStdin (ok_or (env_stdin env) InputIo)) (\<lambda>buf.
       liftI (if \<not> utf8_valid buf then Inl StdinNotUtf8 else parse_hex_bytes (env_hex_decode env) (trim buf)))"

definition load_input_bytes_io :: "cli_env \<Rightarrow> bytes option \<Rightarrow> bytes io" where
  "load_input_bytes_io env s =
     (case s of
        None \<Rightarrow> read_stdin_hex_io env
      | Some raw \<Rightarrow>
          (let raw = trim raw in
           if raw = [0x2D] then read_stdin_hex_io env
           else if raw \<noteq> [] \<and> hd raw = 0x40 then
             callI (ReadFile (tl raw)) (ok_or (env_read_file env (tl raw)) InputIo)
           else liftI (parse_hex_bytes (env_hex_decode env) raw)))"

section \<open>Reading a transaction\<close>

fun scan_pages_io :: "rpc_node \<Rightarrow> bytes \<Rightarrow> nat \<Rightarrow> nat \<Rightarrow> bytes option \<Rightarrow> bytes io" where
  "scan_pages_io node want 0 n low_hash = liftI (Inl TransactionNotFound)"
| "scan_pages_io node want (Suc passes) n low_hash =
     bindI (callI (GetBlocks low_hash) (ok_or (blocks_page node n low_hash) (RpcFailed ''get_blocks''))) (\<lambda>(blocks, block_hashes).
     if blocks = [] then liftI (Inl TransactionNotFound)
     else bindI (liftI (scan_blocks (consensus_id node) blocks want)) (\<lambda>r.
       case r of
         Some p \<Rightarrow> liftI (Inr p)
       | None \<Rightarrow> scan_pages_io node want passes (Suc n)
           (if block_hashes = [] then None else Some (last block_hashes))))"

definition fetch_transaction_payload_io :: "rpc_node \<Rightarrow> bytes \<Rightarrow> bytes option \<Rightarrow> bytes io" where
  "fetch_transaction_payload_io node tx_id block_hash_hint =
     bindI (callI (GetMempoolEntry tx_id) (Inr (mempool_entry node tx_id))) (\<lambda>found.
     case found of
       Some entry \<Rightarrow> liftI (Inr (rpc_tx_payload entry))
     | None \<Rightarrow>
         bindI (case block_hash_hint of
                  None \<Rightarrow> liftI (Inr None)
                | Some h \<Rightarrow>
                    bindI (callI (GetBlock h) (ok_or (block_by_hash node h) (RpcFailed ''get_block''))) (\<lambda>txs.
                      liftI (find_payload_in_block (consensus_id node) txs tx_id))) (\<lambda>r.
           case r of Some p \<Rightarrow> liftI (Inr p) | None \<Rightarrow> scan_pages_io node tx_id 250 0 None))"

fun run_read_io :: "io_env \<Rightarrow> ReadCmd \<Rightarrow> json io" where
  "run_read_io e (Read_Tx txid rpc_url network block_hash strict pretty_cbor verify_sig pk_hex) =
     (let env = io_cli e in
      bindI (make_client e rpc_url network) (\<lambda>client.
      bindI (connect_rpc client) (\<lambda>_.
      bindI (liftI (parse_hex32 (env_hex_decode env) txid)) (\<lambda>tid.
      bindI (liftI (arg_hex32 (env_hex_decode env) block_hash)) (\<lambda>bh.
      bindI (fetch_transaction_payload_io (client_node client) tid bh) (\<lambda>payload.
      bindI (liftI (env_decode env payload strict pretty_cbor verify_sig pk_hex)) (\<lambda>j.
        liftI (Inr (json_set j ''txid'' (JStr txid))))))))))"
| "run_read_io e (Read_Index data_dir event_type sid_hex cid_hex daa_min daa_max) =
     (let env = io_cli e in
      callI (OpenIndex data_dir)
        (read_index (env_hex_string env) (env_hex_decode env) (env_from_bytes env) (env_from_bytes_v1 env)
          (env_index env data_dir) event_type sid_hex cid_hex daa_min daa_max))"

section \<open>Posting\<close>

definition build_transaction_io ::
  "wallet_env \<Rightarrow> (bytes \<Rightarrow> nat \<Rightarrow> bytes option) \<Rightarrow> (cval \<Rightarrow> bytes) \<Rightarrow> ParsedKommsEvent \<Rightarrow> Address \<Rightarrow>
     bytes \<Rightarrow> u64 \<Rightarrow> Transaction io" where
  "build_transaction_io env hex_decode ser ev change_address private_key_sechex priority_fee =
     bindI (liftI (map_err EncodeEvent (encode_komms_payload ser ev))) (\<lambda>payload.
     bindI (liftI (parse_hex_bytes hex_decode private_key_sechex)) (\<lambda>sk.
     if length sk \<noteq> 32 then liftI (Inl PrivateKeyLength)
     else if \<not> secret_key_ok env sk then liftI (Inl PrivateKeyInvalid)
     else
     bindI (callI (GetUtxos change_address)
              (ok_or (get_utxos_by_addresses env change_address) (RpcFailed ''get_utxos_by_addresses''))) (\<lambda>entries.
     bindI (liftI (pick_utxos entries (length payload) priority_fee)) (\<lambda>(picked, total_in, fee, output_value).
     bindI (liftI (sign_inputs env sk picked [0..<length picked]
              (unsigned_tx env change_address picked output_value payload))) (\<lambda>tx.
     bindI (liftI (ok_or (normalized_mass env tx picked) (RpcFailed ''contextual mass''))) (\<lambda>mass.
       liftI (Inr (tx\<lparr>tx_mass := mass\<rparr>))))))))"

definition submit_komms_payload_io ::
  "wallet_env \<Rightarrow> (bytes \<Rightarrow> nat \<Rightarrow> bytes option) \<Rightarrow> (cval \<Rightarrow> bytes) \<Rightarrow> ParsedKommsEvent \<Rightarrow> Address \<Rightarrow>
     bytes \<Rightarrow> u64 \<Rightarrow> bytes io" where
  "submit_komms_payload_io env hex_decode ser ev change_address private_key_sechex priority_fee =
     bindI (build_transaction_io env hex_decode ser ev change_address private_key_sechex priority_fee) (\<lambda>tx.
       callI (SubmitTx tx) (ok_or (submit_transaction env tx) (RpcFailed ''submit_transaction'')))"

definition run_submit_io ::
  "io_env \<Rightarrow> ParsedKommsEvent \<Rightarrow> bytes option \<Rightarrow> NetworkType option \<Rightarrow> bytes option \<Rightarrow> bytes option \<Rightarrow>
     u64 \<Rightarrow> json io" where
  "run_submit_io e ev rpc_url network change_address private_key_hex priority_fee =
     (let env = io_cli e in
      if \<not> env_feature_submit env then liftI (Inl SubmitNotBuilt)
      else
        let nt = (case network of None \<Rightarrow> Mainnet | Some n \<Rightarrow> n) in
        bindI (liftI (ok_or change_address ChangeAddressRequired)) (\<lambda>s.
        bindI (liftI (ok_or (env_parse_address env s) AddressInvalid)) (\<lambda>addr.
        bindI (liftI (ok_or private_key_hex PrivateKeyRequired)) (\<lambda>pk.
        bindI (make_client e rpc_url nt) (\<lambda>client.
        bindI (connect_rpc client) (\<lambda>_.
        bindI (submit_komms_payload_io (client_wallet client nt) (env_hex_decode env) (env_ser env) ev addr pk priority_fee) (\<lambda>tid.
        bindI (liftI (map_err EncodeEvent (encode_komms_payload (env_ser env) ev))) (\<lambda>raw.
          liftI (Inr (JObj [(''submitted_transaction_id'', JStr (env_txid_text env tid)),
            (''payload_hex'', JStr (env_hex_string env raw))]))))))))))"

definition run_post_io ::
  "io_env \<Rightarrow> PostCmd \<Rightarrow> bool \<Rightarrow> bytes option \<Rightarrow> NetworkType option \<Rightarrow> bytes option \<Rightarrow> bytes option \<Rightarrow>
     u64 \<Rightarrow> json io" where
  "run_post_io e cmd submit rpc_url network change_address private_key_hex priority_fee =
     (let env = io_cli e in
      bindI (liftI (post_event (env_hex_decode env) (env_sha256 env) (env_parse_address env) (env_ser env)
              cmd submit change_address)) (\<lambda>(ev, raw).
      if submit then run_submit_io e ev rpc_url network change_address private_key_hex priority_fee
      else liftI (Inr (JObj [(''payload_hex'', JStr (env_hex_string env raw)),
             (''event'', event_to_json (env_hex_string env) ev)]))))"

section \<open>The program\<close>

definition run_decode_io :: "cli_env \<Rightarrow> bytes option \<Rightarrow> bool \<Rightarrow> bool \<Rightarrow> bool \<Rightarrow> bytes option \<Rightarrow> json io" where
  "run_decode_io env input strict pretty_cbor verify_sig pk_hex =
     bindI (load_input_bytes_io env input) (\<lambda>raw.
       liftI (env_decode env raw strict pretty_cbor verify_sig pk_hex))"

definition run_id_io :: "cli_env \<Rightarrow> IdCmd \<Rightarrow> json io" where
  "run_id_io env cmd =
     (case cmd of Id_NewWallet _ \<Rightarrow> callI GenerateKey (run_id env cmd) | _ \<Rightarrow> liftI (run_id env cmd))"

definition run_verify_content_io :: "cli_env \<Rightarrow> bytes \<Rightarrow> bytes \<Rightarrow> json io" where
  "run_verify_content_io env file ref_hex = callI (ReadFile file) (run_verify_content env file ref_hex)"

fun document_io :: "io_env \<Rightarrow> Commands \<Rightarrow> json io" where
  "document_io e (Cmd_Decode input strict pretty_cbor verify_sig pk_hex) =
     run_decode_io (io_cli e) input strict pretty_cbor verify_sig pk_hex"
| "document_io e (Cmd_RefInspect hex) = liftI (run_ref_inspect (io_cli e) hex)"
| "document_io e (Cmd_Id cmd) = run_id_io (io_cli e) cmd"
| "document_io e (Cmd_Read cmd) = run_read_io e cmd"
| "document_io e (Cmd_Post cmd submit rpc_url network change_address private_key_hex priority_fee) =
     run_post_io e cmd submit rpc_url network change_address private_key_hex priority_fee"
| "document_io e (Cmd_VerifyContent file ref_hex) = run_verify_content_io (io_cli e) file ref_hex"

text \<open>Every arm of \<open>run\<close> ends with \<open>print_json(&j, pretty)?\<close>. The exit of the process is the result of
  \<open>main\<close>.\<close>

definition run_io :: "io_env \<Rightarrow> Commands \<Rightarrow> bool \<Rightarrow> unit io" where
  "run_io e command pretty = bindI (document_io e command) (\<lambda>j. print_json e j pretty)"

definition main :: "io_env \<Rightarrow> Commands \<Rightarrow> bool \<Rightarrow> unit io" where
  "main e command pretty = run_io e command pretty"

section \<open>The result without the calls\<close>

lemma cli_env_of_sel [simp]:
  "env_hex_string (cli_env_of e) = env_hex_string (io_cli e)" "env_hex_decode (cli_env_of e) = env_hex_decode (io_cli e)"
  "env_ser (cli_env_of e) = env_ser (io_cli e)" "env_de (cli_env_of e) = env_de (io_cli e)"
  "env_sha256 (cli_env_of e) = env_sha256 (io_cli e)" "env_parse_address (cli_env_of e) = env_parse_address (io_cli e)"
  "env_address_text (cli_env_of e) = env_address_text (io_cli e)" "env_version_pubkey (cli_env_of e) = env_version_pubkey (io_cli e)"
  "env_new_key (cli_env_of e) = env_new_key (io_cli e)" "env_txid_text (cli_env_of e) = env_txid_text (io_cli e)"
  "env_stdin (cli_env_of e) = env_stdin (io_cli e)" "env_read_file (cli_env_of e) = env_read_file (io_cli e)"
  "env_index (cli_env_of e) = env_index (io_cli e)" "env_from_bytes (cli_env_of e) = env_from_bytes (io_cli e)"
  "env_from_bytes_v1 (cli_env_of e) = env_from_bytes_v1 (io_cli e)" "env_feature_submit (cli_env_of e) = env_feature_submit (io_cli e)"
  "env_node (cli_env_of e) url network = map_option client_node (connected e url network)"
  "env_wallet (cli_env_of e) url network = map_option (\<lambda>c. client_wallet c network) (connected e url network)"
  by (simp_all add: cli_env_of_def)

lemma env_decode_of [simp]: "env_decode (cli_env_of e) = env_decode (io_cli e)"
  by (simp add: env_decode_def cli_env_of_def)

lemma run_id_of [simp]: "run_id (cli_env_of e) cmd = run_id (io_cli e) cmd"
  by (cases cmd) (simp_all add: split_beta)

named_theorems snd_io \<open>the result of a computation, its calls forgotten\<close>

declare snd_bindI [snd_io]

lemma snd_if [snd_io]: "snd (if c then x else y) = (if c then snd x else snd y)"
  by simp

lemma snd_load_input_bytes [snd_io]:
  "snd (load_input_bytes_io env s) = load_input_bytes (env_hex_decode env) (env_stdin env) (env_read_file env) s"
  by (cases s) (simp_all add: load_input_bytes_io_def load_input_bytes_def read_stdin_hex_io_def read_stdin_hex_def
      snd_io Let_def cong: if_cong)

lemma snd_scan_pages [snd_io]: "snd (scan_pages_io node want passes n low) = scan_pages node want passes n low"
  by (induction passes arbitrary: n low)
    (auto simp: snd_io split_beta' fun_eq_iff split: option.splits intro!: arg_cong2 [where f = bindE])

lemma snd_fetch [snd_io]: "snd (fetch_transaction_payload_io node t h) = fetch_transaction_payload node t h"
  by (cases "mempool_entry node t"; cases h)
    (simp_all add: fetch_transaction_payload_io_def fetch_transaction_payload_def snd_io option.case_distrib
      del: scan_pages.simps scan_pages_io.simps cong: option.case_cong)

lemma snd_connect: "bindE (snd (make_client e url network)) (\<lambda>c. bindE (snd (connect_rpc c)) (\<lambda>_. f c)) =
    bindE (ok_or (connected e url network) (RpcFailed ''connect'')) f"
  by (cases "io_new_client e url (url = None) (network_id_for_cli network)")
    (simp_all add: make_client_def connect_rpc_def connected_def snd_io)

lemma ok_or_map_option: "ok_or (map_option g x) err = mapE g (ok_or x err)"
  by (cases x) simp_all

lemma snd_run_read [snd_io]: "snd (run_read_io e cmd) = run_read (cli_env_of e) cmd"
  by (cases cmd) (simp_all add: Let_def snd_connect snd_io ok_or_map_option del: bindE_assoc)

lemma snd_build [snd_io]: "snd (build_transaction_io w hx ser ev addr key fee) = build_transaction w hx ser ev addr key fee"
  by (simp add: build_transaction_io_def build_transaction_def snd_io split_beta' cong: if_cong)

lemma snd_submit [snd_io]: "snd (submit_komms_payload_io w hx ser ev addr key fee) = submit_komms_payload w hx ser ev addr key fee"
  by (simp add: submit_komms_payload_io_def submit_komms_payload_def snd_io)

lemma snd_run_submit [snd_io]:
  "snd (run_submit_io e ev url network change key fee) = run_submit (cli_env_of e) ev url network change key fee"
  by (simp add: run_submit_io_def run_submit_def Let_def snd_io snd_connect ok_or_map_option cong: if_cong)

lemma snd_run_post [snd_io]:
  "snd (run_post_io e cmd submit url network change key fee) = run_post (cli_env_of e) cmd submit url network change key fee"
  by (simp add: run_post_io_def run_post_def Let_def snd_io split_beta' cong: if_cong)

lemma snd_document_io [snd_io]: "snd (document_io e cmd) = run (cli_env_of e) cmd"
proof (cases cmd)
  case (Cmd_Id c)
  then show ?thesis by (cases c) (simp_all add: run_id_io_def split_beta)
qed (simp_all add: snd_io run_decode_io_def run_decode_def run_ref_inspect_def
       run_verify_content_io_def run_verify_content_def)

end
