(* ===== verification/Cli_Protocol.thy ===== *)
theory Cli_Protocol
  imports Cli_Io
begin

text \<open>
  The order of the calls of \<open>Cli_Io\<close> as a transition system: the phases of a run of the program,
  with one step for every call that may be made in a phase. \<open>obeys\<close> is a Hoare triple for
  computations that make calls; its rules carry the proof that every command follows the protocol.
\<close>

section \<open>The protocol\<close>

datatype phase =
    Start
  | Loaded
  | Opened
  | Online
  | Looking
  | Hinted
  | Paging nat
  | Funded
  | Sent
  | Closed

text \<open>A result may be printed in these phases.\<close>

fun may_print :: "phase \<Rightarrow> bool" where
  "may_print Start = True"
| "may_print Loaded = True"
| "may_print Looking = True"
| "may_print Hinted = True"
| "may_print (Paging n) = True"
| "may_print Sent = True"
| "may_print _ = False"

inductive protocol :: "phase \<Rightarrow> call \<Rightarrow> phase \<Rightarrow> bool" where
  stdin: "protocol Start ReadStdin Loaded"
| readfile: "protocol Start (ReadFile path) Loaded"
| index: "protocol Start (OpenIndex dir) Loaded"
| key: "protocol Start GenerateKey Loaded"
| client: "protocol Start (NewClient url (url = None) (network_id_for_cli network)) Opened"
| connect: "protocol Opened Connect Online"
| mempool: "protocol Online (GetMempoolEntry tid) Looking"
| hint: "protocol Looking (GetBlock h) Hinted"
| page1: "s \<in> {Looking, Hinted} \<Longrightarrow> protocol s (GetBlocks None) (Paging 1)"
| page: "n < 250 \<Longrightarrow> protocol (Paging n) (GetBlocks low) (Paging (Suc n))"
| utxos: "protocol Online (GetUtxos addr) Funded"
| submit: "protocol Funded (SubmitTx tx) Sent"
| print: "may_print s \<Longrightarrow> protocol s (Println t) Closed"

inductive_cases protocol_ClosedE: "protocol Closed c s"
inductive_simps protocol_Println: "protocol s (Println t) s'"

code_pred protocol .

inductive path :: "('s \<Rightarrow> 'c \<Rightarrow> 's \<Rightarrow> bool) \<Rightarrow> 's \<Rightarrow> 'c list \<Rightarrow> 's \<Rightarrow> bool" for step where
  path_Nil: "path step s [] s"
| path_Cons: "step s c s' \<Longrightarrow> path step s' cs s'' \<Longrightarrow> path step s (c # cs) s''"

inductive_simps path_Nil_simp [simp]: "path step s [] s'"
inductive_simps path_Cons_simp [simp]: "path step s (c # cs) s'"

lemma path_append: "path step s (cs @ cs') s'' \<longleftrightarrow> (\<exists>s'. path step s cs s' \<and> path step s' cs' s'')"
  by (induction cs arbitrary: s) auto

lemma path_Closed: "path protocol Closed cs s \<longleftrightarrow> cs = [] \<and> s = Closed"
  by (cases cs) (auto elim: protocol_ClosedE)

text \<open>A path that does not end in \<open>Closed\<close> prints nothing.\<close>

lemma path_no_print: "path protocol s cs s' \<Longrightarrow> s' \<noteq> Closed \<Longrightarrow> Println t \<notin> set cs"
proof (induction rule: path.induct)
  case (path_Cons s c s' cs s'')
  have "c \<noteq> Println t"
    using path_Cons.hyps(1,2) path_Cons.prems by (auto simp: protocol_Println path_Closed)
  then show ?case using path_Cons by simp
qed simp

section \<open>The number of requests\<close>

fun is_request :: "call \<Rightarrow> bool" where
  "is_request (NewClient url resolver nid) = True"
| "is_request Connect = True"
| "is_request (GetMempoolEntry t) = True"
| "is_request (GetBlock h) = True"
| "is_request (GetBlocks low) = True"
| "is_request (GetUtxos addr) = True"
| "is_request (SubmitTx tx) = True"
| "is_request _ = False"

fun requests_until :: "phase \<Rightarrow> nat" where
  "requests_until Start = 0"
| "requests_until Loaded = 0"
| "requests_until Opened = 1"
| "requests_until Online = 2"
| "requests_until Looking = 3"
| "requests_until Hinted = 4"
| "requests_until (Paging n) = 4 + min n 250"
| "requests_until Funded = 3"
| "requests_until Sent = 4"
| "requests_until Closed = 254"

lemma protocol_requests:
  "protocol s c s' \<Longrightarrow> requests_until s + (if is_request c then 1 else 0) \<le> requests_until s'"
  by (induction rule: protocol.induct) (auto elim: may_print.elims)

lemma path_requests:
  "path protocol s cs s' \<Longrightarrow> requests_until s + length (filter is_request cs) \<le> requests_until s'"
proof (induction rule: path.induct)
  case (path_Cons s c s' cs s'')
  then show ?case using protocol_requests [OF path_Cons.hyps(1)] by (simp split: if_splits)
qed simp

section \<open>A logic for computations with calls\<close>

text \<open>From phase \<open>s\<close>, \<open>m\<close> makes calls along a path that ends in \<open>S\<close>; if it succeeds, \<open>Q\<close> holds
  of its value and the phase reached.\<close>

definition obeys :: "phase set \<Rightarrow> phase \<Rightarrow> 'a io \<Rightarrow> ('a \<Rightarrow> phase \<Rightarrow> bool) \<Rightarrow> bool" where
  "obeys S s m Q \<longleftrightarrow> (\<exists>s'\<in>S. path protocol s (fst m) s' \<and> (\<forall>x. snd m = Inr x \<longrightarrow> Q x s'))"

named_theorems obeys_rules \<open>the rules of \<open>obeys\<close>, one per construct\<close>

lemma obeys_lift [obeys_rules]: "s \<in> S \<Longrightarrow> (\<And>x. r = Inr x \<Longrightarrow> Q x s) \<Longrightarrow> obeys S s (liftI r) Q"
  by (auto simp: obeys_def)

lemma obeys_call: "protocol s c s' \<Longrightarrow> s' \<in> S \<Longrightarrow> (\<And>x. r = Inr x \<Longrightarrow> Q x s') \<Longrightarrow> obeys S s (callI c r) Q"
  by (auto simp: obeys_def)

lemma obeys_bind:
  assumes "obeys S s m R" and "\<And>x s'. R x s' \<Longrightarrow> snd m = Inr x \<Longrightarrow> obeys S s' (f x) Q"
  shows "obeys S s (bindI m f) Q"
proof -
  from assms(1) obtain s' where s': "s' \<in> S" "path protocol s (fst m) s'" "\<forall>x. snd m = Inr x \<longrightarrow> R x s'"
    unfolding obeys_def by blast
  show ?thesis
  proof (cases "snd m")
    case (Inl e)
    with s' show ?thesis by (auto simp: obeys_def fst_bindI snd_bindI)
  next
    case (Inr x)
    with s' assms(2) have "obeys S s' (f x) Q" by blast
    with s' Inr show ?thesis by (auto simp: obeys_def fst_bindI snd_bindI path_append)
  qed
qed

lemma obeys_bind_lift [obeys_rules]:
  "s \<in> S \<Longrightarrow> (\<And>x. r = Inr x \<Longrightarrow> obeys S s (f x) Q) \<Longrightarrow> obeys S s (bindI (liftI r) f) Q"
  by (rule obeys_bind [where R = "\<lambda>x s'. s' = s"]) (auto intro: obeys_lift)

lemma obeys_bind_call:
  "protocol s c s' \<Longrightarrow> s' \<in> S \<Longrightarrow> (\<And>x. r = Inr x \<Longrightarrow> obeys S s' (f x) Q) \<Longrightarrow> obeys S s (bindI (callI c r) f) Q"
  by (rule obeys_bind [where R = "\<lambda>x s''. s'' = s'"]) (auto intro: obeys_call)

lemma obeys_if [obeys_rules]:
  "(c \<Longrightarrow> obeys S s m Q) \<Longrightarrow> (\<not> c \<Longrightarrow> obeys S s m' Q) \<Longrightarrow> obeys S s (if c then m else m') Q"
  by simp

lemma obeys_prod [obeys_rules]: "(\<And>a b. x = (a, b) \<Longrightarrow> obeys S s (f a b) Q) \<Longrightarrow> obeys S s (case x of (a, b) \<Rightarrow> f a b) Q"
  by (cases x) simp

lemma obeys_option [obeys_rules]:
  "(x = None \<Longrightarrow> obeys S s m Q) \<Longrightarrow> (\<And>y. x = Some y \<Longrightarrow> obeys S s (f y) Q) \<Longrightarrow>
     obeys S s (case x of None \<Rightarrow> m | Some y \<Rightarrow> f y) Q"
  by (cases x) simp_all

lemma obeys_in: "obeys S s m R \<Longrightarrow> obeys S s m (\<lambda>x s'. s' \<in> S \<and> R x s')"
  by (auto simp: obeys_def)

section \<open>The commands\<close>

text \<open>The requests a command may make.\<close>

fun request_limit :: "Commands \<Rightarrow> nat" where
  "request_limit (Cmd_Read (Read_Tx txid url network h strict pretty_cbor verify_sig pk)) = 254"
| "request_limit (Cmd_Post cmd submit url network change key fee) = (if submit then 4 else 0)"
| "request_limit _ = 0"

definition within :: "nat \<Rightarrow> phase set" where
  "within n = {s. s \<noteq> Closed \<and> requests_until s \<le> n}"

lemma within_simps [simp]: "s \<in> within n \<longleftrightarrow> s \<noteq> Closed \<and> requests_until s \<le> n"
  by (simp add: within_def)

abbreviation printable :: "'a \<Rightarrow> phase \<Rightarrow> bool" where
  "printable \<equiv> \<lambda>x s. may_print s"

lemma obeys_connect:
  assumes "2 \<le> n" and "\<And>c. connected e url network = Some c \<Longrightarrow> obeys (within n) Online (f c) Q"
  shows "obeys (within n) Start (bindI (make_client e url network) (\<lambda>c. bindI (connect_rpc c) (\<lambda>_. f c))) Q"
  unfolding make_client_def connect_rpc_def Let_def
proof (rule obeys_bind_call [OF protocol.client])
  show "Opened \<in> within n" using assms(1) by simp
  fix c assume "ok_or (io_new_client e url (url = None) (network_id_for_cli network)) (RpcFailed ''connect'') = Inr c"
  then have c: "io_new_client e url (url = None) (network_id_for_cli network) = Some c" by (simp add: ok_or_Inr_iff)
  show "obeys (within n) Opened (bindI (callI Connect (if client_connects c then Inr () else Inl (RpcFailed ''connect''))) (\<lambda>_. f c)) Q"
    by (rule obeys_bind_call [OF protocol.connect])
      (use assms c in \<open>auto simp: connected_def split: if_splits\<close>)
qed

lemma obeys_load_input: "obeys (within n) Start (load_input_bytes_io env s) printable"
proof -
  have stdin: "obeys (within n) Start (read_stdin_hex_io env) printable"
    unfolding read_stdin_hex_io_def
    by (rule obeys_bind_call [OF protocol.stdin]) (auto intro: obeys_lift)
  show ?thesis
    unfolding load_input_bytes_io_def Let_def
    by (intro obeys_rules stdin obeys_call [OF protocol.readfile]) simp_all
qed

lemma obeys_pages:
  "k + passes \<le> 250 \<Longrightarrow> obeys (within 254) (Paging k) (scan_pages_io node want passes n low) printable"
proof (induction passes arbitrary: k n low)
  case 0
  then show ?case by (auto intro!: obeys_lift)
next
  case (Suc passes)
  then show ?case
    unfolding scan_pages_io.simps
    by (intro obeys_bind_call [OF protocol.page] obeys_rules Suc.IH) simp_all
qed

lemma obeys_first_page:
  assumes "s \<in> {Looking, Hinted}"
  shows "obeys (within 254) s (scan_pages_io node want (Suc 249) n None) printable"
  unfolding scan_pages_io.simps
  by (intro obeys_bind_call [OF protocol.page1 [OF assms]] obeys_rules obeys_pages) simp_all

lemma obeys_fetch: "obeys (within 254) Online (fetch_transaction_payload_io node t h) printable"
proof -
  have pages: "scan_pages_io node t 250 0 None = scan_pages_io node t (Suc 249) 0 None" by simp
  show ?thesis
    unfolding fetch_transaction_payload_io_def pages
  proof (rule obeys_bind_call [OF protocol.mempool], simp, rule obeys_option)
    fix x :: "RpcTransaction option" assume "x = None"
    show "obeys (within 254) Looking
        (bindI (case h of None \<Rightarrow> liftI (Inr None) | Some h \<Rightarrow>
             bindI (callI (GetBlock h) (ok_or (block_by_hash node h) (RpcFailed ''get_block''))) (\<lambda>txs.
               liftI (find_payload_in_block (consensus_id node) txs t)))
          (\<lambda>r. case r of None \<Rightarrow> scan_pages_io node t (Suc 249) 0 None | Some p \<Rightarrow> liftI (Inr p))) printable"
      by (rule obeys_bind [where R = "\<lambda>x s. s \<in> {Looking, Hinted}"])
        (auto intro!: obeys_rules obeys_bind_call [OF protocol.hint] obeys_first_page simp del: scan_pages_io.simps)
  next
    fix x :: "RpcTransaction option" and y assume "x = Some y"
    show "obeys (within 254) Looking (liftI (Inr (rpc_tx_payload y))) printable"
      by (intro obeys_rules) simp_all
  qed
qed

lemma obeys_read: "obeys (within 254) Start (run_read_io e cmd) printable"
proof (cases cmd)
  case (Read_Tx txid url network bh strict pc vs pk)
  have "obeys (within 254) Online
      (bindI (liftI (parse_hex32 (env_hex_decode (io_cli e)) txid)) (\<lambda>tid.
       bindI (liftI (arg_hex32 (env_hex_decode (io_cli e)) bh)) (\<lambda>bh.
       bindI (fetch_transaction_payload_io (client_node c) tid bh) (\<lambda>payload.
       bindI (liftI (env_decode (io_cli e) payload strict pc vs pk)) (\<lambda>j.
         liftI (Inr (json_set j ''txid'' (JStr txid)))))))) printable" for c
    by (intro obeys_bind_lift obeys_bind [OF obeys_in [OF obeys_fetch]]
          obeys_lift) simp_all
  then show ?thesis
    unfolding Read_Tx run_read_io.simps Let_def by (intro obeys_connect) simp_all
next
  case (Read_Index dir ty sid cid lo hi)
  show ?thesis
    unfolding Read_Index run_read_io.simps Let_def
    by (rule obeys_call [OF protocol.index]) simp_all
qed

lemma obeys_index: "obeys (within 0) Start (run_read_io e (Read_Index dir ty sid cid lo hi)) printable"
  unfolding run_read_io.simps Let_def by (rule obeys_call [OF protocol.index]) simp_all

lemma obeys_build:
  "obeys (within 4) Online (build_transaction_io w hx ser ev addr key fee) (\<lambda>x s. s = Funded)"
  unfolding build_transaction_io_def
  by (intro obeys_rules obeys_bind_call [OF protocol.utxos]) simp_all

lemma obeys_submit: "obeys (within 4) Online (submit_komms_payload_io w hx ser ev addr key fee) (\<lambda>x s. s = Sent)"
  unfolding submit_komms_payload_io_def
  by (rule obeys_bind [OF obeys_build]) (auto intro: obeys_call [OF protocol.submit])

lemma obeys_run_submit: "obeys (within 4) Start (run_submit_io e ev url network change key fee) printable"
  unfolding run_submit_io_def Let_def
  by (intro obeys_rules obeys_connect obeys_bind [OF obeys_submit]) simp_all

lemma obeys_run:
  "obeys (within (request_limit cmd)) Start (document_io e cmd) printable"
proof (cases cmd)
  case (Cmd_Decode input strict pc vs pk)
  show ?thesis
    unfolding Cmd_Decode document_io.simps run_decode_io_def
    by (rule obeys_bind [OF obeys_in [OF obeys_load_input]])
      (auto intro: obeys_lift)
next
  case (Cmd_Id c)
  show ?thesis
    unfolding Cmd_Id document_io.simps run_id_io_def
    by (cases c) (auto intro!: obeys_lift obeys_call [OF protocol.key])
next
  case (Cmd_Read c)
  show ?thesis
    by (cases c) (simp_all only: Cmd_Read document_io.simps request_limit.simps obeys_read obeys_index)
next
  case (Cmd_Post c submit url network change key fee)
  show ?thesis
  proof (cases submit)
    case True
    show ?thesis
      unfolding Cmd_Post document_io.simps run_post_io_def Let_def
      by (simp only: True request_limit.simps if_True) (intro obeys_rules obeys_run_submit, simp)
  qed (auto simp: Cmd_Post run_post_io_def Let_def intro!: obeys_rules)
qed (auto simp: run_verify_content_io_def intro!: obeys_lift obeys_call [OF protocol.readfile])

section \<open>What is submitted\<close>

lemma in_bindI: "c \<in> set (fst (bindI m f)) \<longleftrightarrow>
    c \<in> set (fst m) \<or> (\<exists>x. snd m = Inr x \<and> c \<in> set (fst (f x)))"
  by (auto simp: fst_bindI split: sum.splits)

text \<open>The requests for a transaction on the second page.\<close>

lemma sample_requests:
  "fst (fetch_transaction_payload_io sample_node [2] None) = [GetMempoolEntry [2], GetBlocks None, GetBlocks (Some [10])]"
proof -
  have "scan_pages_io sample_node [2] 250 0 None = scan_pages_io sample_node [2] (Suc (Suc 248)) 0 None" by simp
  also have "fst \<dots> = [GetBlocks None, GetBlocks (Some [10])]"
    by (subst scan_pages_io.simps, subst scan_pages_io.simps) (simp add: sample_node_def fst_bindI)
  finally show ?thesis
    by (simp add: fetch_transaction_payload_io_def fst_bindI sample_node_def del: scan_pages_io.simps)
qed

lemma no_submit_pages: "SubmitTx tx \<notin> set (fst (scan_pages_io node want passes n low))"
  by (induction passes arbitrary: n low) (auto simp: in_bindI split: if_splits option.splits)

lemma no_submit_fetch: "SubmitTx tx \<notin> set (fst (fetch_transaction_payload_io node t h))"
  using no_submit_pages
  by (auto simp: fetch_transaction_payload_io_def in_bindI simp del: scan_pages_io.simps split: option.splits)

lemma no_submit_read: "SubmitTx tx \<notin> set (fst (run_read_io e cmd))"
  using no_submit_fetch by (cases cmd) (auto simp: Let_def in_bindI make_client_def connect_rpc_def)

lemma no_submit_load: "SubmitTx tx \<notin> set (fst (load_input_bytes_io env s))"
  by (auto simp: load_input_bytes_io_def read_stdin_hex_io_def Let_def in_bindI split: option.splits)

lemma no_submit_build: "SubmitTx tx \<notin> set (fst (build_transaction_io w hx ser ev addr key fee))"
  by (auto simp: build_transaction_io_def in_bindI split: if_splits)

lemma submit_iff: "SubmitTx tx \<in> set (fst (submit_komms_payload_io w hx ser ev addr key fee)) \<longleftrightarrow>
    build_transaction w hx ser ev addr key fee = Inr tx"
  using no_submit_build by (auto simp: submit_komms_payload_io_def in_bindI snd_build)

lemma run_submit_iff: "SubmitTx tx \<in> set (fst (run_submit_io e ev url network change key fee)) \<longleftrightarrow>
    env_feature_submit (io_cli e) \<and>
    (\<exists>s addr k client. change = Some s \<and> env_parse_address (io_cli e) s = Some addr \<and> key = Some k \<and>
       connected e url (case network of None \<Rightarrow> Mainnet | Some n \<Rightarrow> n) = Some client \<and>
       build_transaction (client_wallet client (case network of None \<Rightarrow> Mainnet | Some n \<Rightarrow> n))
         (env_hex_decode (io_cli e)) (env_ser (io_cli e)) ev addr k fee = Inr tx)"
  unfolding run_submit_io_def Let_def
  by (auto simp: in_bindI submit_iff make_client_def connect_rpc_def connected_def Let_def result_simps
      split: option.splits if_splits)

lemma document_io_submit_only_post:
  "SubmitTx tx \<in> set (fst (document_io e cmd)) \<Longrightarrow>
     \<exists>pc url network change key fee. cmd = Cmd_Post pc True url network change key fee"
proof (cases cmd)
  case (Cmd_Id c)
  moreover assume "SubmitTx tx \<in> set (fst (document_io e cmd))"
  ultimately show ?thesis by (cases c) (simp_all add: run_id_io_def)
qed (auto simp: no_submit_read no_submit_load run_decode_io_def in_bindI run_verify_content_io_def run_post_io_def Let_def
       split: if_splits prod.splits)

section \<open>Properties of the program\<close>

definition printed_text :: "io_env \<Rightarrow> Commands \<Rightarrow> bool \<Rightarrow> CliError + bytes" where
  "printed_text e cmd pretty = bindE (run (cli_env_of e) cmd) (\<lambda>j.
     ok_or (if pretty then io_json_text_pretty e j else io_json_text e j) JsonText)"

lemma print_json_eq: "print_json e j pretty =
    (case ok_or (if pretty then io_json_text_pretty e j else io_json_text e j) JsonText of
       Inl err \<Rightarrow> ([], Inl err) | Inr t \<Rightarrow> ([Println (t @ [0x0A])], Inr ()))"
  by (auto simp: print_json_def liftI_def callI_def ok_or_def split: option.splits)

lemma main_eq: "main e cmd pretty = (case printed_text e cmd pretty of
     Inl err \<Rightarrow> (fst (document_io e cmd), Inl err)
   | Inr t \<Rightarrow> (fst (document_io e cmd) @ [Println (t @ [0x0A])], Inr ()))"
proof (cases "snd (document_io e cmd)")
  case (Inl err)
  obtain cs where io: "document_io e cmd = (cs, Inl err)" using Inl by (cases "document_io e cmd") simp
  have run: "run (cli_env_of e) cmd = Inl err" using Inl snd_document_io [of e cmd] by simp
  show ?thesis unfolding main_def run_io_def printed_text_def io run by simp
next
  case (Inr j)
  obtain cs where io: "document_io e cmd = (cs, Inr j)" using Inr by (cases "document_io e cmd") simp
  have run: "run (cli_env_of e) cmd = Inr j" using Inr snd_document_io [of e cmd] by simp
  show ?thesis
    unfolding main_def run_io_def printed_text_def io run bindI.simps bindE.simps print_json_eq
    by (simp add: ok_or_def split: option.split)
qed

text \<open>
  C15: the program with its calls refines \<open>run\<close>: it succeeds exactly when \<open>run\<close> gives a document that
  has a text, with the same error otherwise; and the text of that document is the only line it
  prints, after every other call, while a failed command prints nothing.
\<close>
theorem main_refines_run:
  "\<exists>calls. (\<forall>t. Println t \<notin> set calls) \<and>
     main e cmd pretty = (case printed_text e cmd pretty of
         Inl err \<Rightarrow> (calls, Inl err)
       | Inr t \<Rightarrow> (calls @ [Println (t @ [0x0A])], Inr ()))"
proof -
  obtain s where s: "s \<in> within (request_limit cmd)" "path protocol Start (fst (document_io e cmd)) s"
    using obeys_run unfolding obeys_def by blast
  then have "Println t \<notin> set (fst (document_io e cmd))" for t using path_no_print by fastforce
  then show ?thesis using main_eq [of e cmd pretty] by blast
qed

text \<open>
  C10: every run of the program, with whatever answers from the node, the file system and the
  database, is a path of the protocol: one client, connected before any request; one mempool
  request, then at most one block and at most 250 pages; coins before the one submission; nothing
  after the line printed. The path reaches \<open>Closed\<close> exactly when the command succeeds, and the command
  makes at most \<open>request_limit\<close> network requests, none unless it is \<open>read tx\<close> or \<open>post --submit\<close>.
\<close>
theorem main_follows_protocol:
  "\<exists>s. path protocol Start (fst (main e cmd pretty)) s \<and> (s = Closed \<longleftrightarrow> snd (main e cmd pretty) = Inr ()) \<and>
     length (filter is_request (fst (main e cmd pretty))) \<le> request_limit cmd"
proof -
  obtain s where s: "s \<in> within (request_limit cmd)" "path protocol Start (fst (document_io e cmd)) s"
    and ok: "\<And>j. snd (document_io e cmd) = Inr j \<Longrightarrow> may_print s"
    using obeys_run unfolding obeys_def by blast
  have n: "length (filter is_request (fst (document_io e cmd))) \<le> request_limit cmd"
    using path_requests [OF s(2)] s(1) by simp
  show ?thesis
  proof (cases "printed_text e cmd pretty")
    case (Inr t)
    then obtain j where "snd (document_io e cmd) = Inr j" by (auto simp: printed_text_def bindE_Inr_iff snd_document_io)
    then have "protocol s (Println (t @ [0x0A])) Closed" using ok by (intro protocol.print)
    with s(2) have "path protocol Start (fst (main e cmd pretty)) Closed"
      by (auto simp: main_eq Inr path_append)
    with n Inr show ?thesis by (intro exI [of _ Closed]) (simp add: main_eq)
  next
    case (Inl err)
    with s n show ?thesis by (intro exI [of _ s]) (simp add: main_eq)
  qed
qed

text \<open>
  C8: a transaction reaches the node only through \<open>post --submit\<close> of a build with that feature, and
  exactly when the event the command builds is valid and encodes, the change address and the key
  are given and read, the client connects, and the transaction is built, funded and signed; its
  payload is then the encoding of the validated event.
\<close>
theorem submits_only_valid:
  "SubmitTx tx \<in> set (fst (main e cmd pretty)) \<longleftrightarrow>
     (\<exists>pc url network change key fee ev raw addr wallet.
        cmd = Cmd_Post pc True url network (Some change) (Some key) fee \<and> env_feature_submit (io_cli e) \<and>
        post_event (env_hex_decode (io_cli e)) (env_sha256 (io_cli e)) (env_parse_address (io_cli e))
          (env_ser (io_cli e)) pc True (Some change) = Inr (ev, raw) \<and>
        validate_event ev = Inr () \<and> env_parse_address (io_cli e) change = Some addr \<and>
        env_wallet (cli_env_of e) url (case network of None \<Rightarrow> Mainnet | Some n \<Rightarrow> n) = Some wallet \<and>
        build_transaction wallet (env_hex_decode (io_cli e)) (env_ser (io_cli e)) ev addr key fee = Inr tx \<and>
        tx_payload tx = raw)" (is "?L \<longleftrightarrow> ?R")
proof
  have run: "?L \<longleftrightarrow> SubmitTx tx \<in> set (fst (document_io e cmd))" by (simp add: main_eq split: sum.split)
  {
    assume ?L
    then obtain pc url network change key fee where cmd: "cmd = Cmd_Post pc True url network change key fee"
      and sub: "SubmitTx tx \<in> set (fst (document_io e cmd))"
      using run document_io_submit_only_post by blast
    then obtain ev raw where post: "post_event (env_hex_decode (io_cli e)) (env_sha256 (io_cli e))
        (env_parse_address (io_cli e)) (env_ser (io_cli e)) pc True change = Inr (ev, raw)"
      and s: "SubmitTx tx \<in> set (fst (run_submit_io e ev url network change key fee))"
      by (auto simp: run_post_io_def Let_def in_bindI)
    have enc: "encode_komms_payload (env_ser (io_cli e)) ev = Inr raw" using post by (auto simp: post_event_Inr)
    then have "validate_event ev = Inr ()" using encode_komms_payload_ok [of "env_ser (io_cli e)" ev] by simp
    with post s cmd enc show ?R unfolding run_submit_iff using built_payload by fastforce
  next
    assume ?R
    then show ?L
      unfolding run by (auto simp: run_post_io_def Let_def in_bindI run_submit_iff)
  }
qed

end
