(* ===== verification/Cli_Live.thy ===== *)
theory Cli_Live
  imports Cli_Protocol
begin

text \<open>
  When \<open>post --submit\<close> comes through: what the arguments, the wallet and the node must provide, and
  the complete sequence of calls that follows.
\<close>

text \<open>The wallet has readable coins under key scripts, and some selection of them pays for itself.\<close>

definition funded :: "wallet_env \<Rightarrow> Address \<Rightarrow> nat \<Rightarrow> u64 \<Rightarrow> bool" where
  "funded w addr l fee \<longleftrightarrow> (\<exists>entries. get_utxos_by_addresses w addr = Some entries \<and> no_overflow entries l fee \<and>
     (\<forall>c\<in>set entries. script_class w (utxo_script c) = PubKey \<or> script_class w (utxo_script c) = PubKeyECDSA) \<and>
     (\<exists>sel. mset sel \<subseteq># mset entries \<and> covers l (unat fee) sel))"

definition key_readable :: "wallet_env \<Rightarrow> (bytes \<Rightarrow> nat \<Rightarrow> bytes option) \<Rightarrow> bytes \<Rightarrow> bool" where
  "key_readable w hx key \<longleftrightarrow> (\<exists>sk. parse_hex_bytes hx key = Inr sk \<and> length sk = 32 \<and> secret_key_ok w sk)"

text \<open>The mass of every transaction is defined and the node takes those with this payload.\<close>

definition accepts :: "wallet_env \<Rightarrow> bytes \<Rightarrow> bool" where
  "accepts w raw \<longleftrightarrow> (\<forall>tx es. normalized_mass w tx es \<noteq> None) \<and>
     (\<forall>tx. tx_payload tx = raw \<longrightarrow> submit_transaction w tx \<noteq> None)"

definition texts_defined :: "io_env \<Rightarrow> bool" where
  "texts_defined e \<longleftrightarrow> (\<forall>j. io_json_text e j \<noteq> None \<and> io_json_text_pretty e j \<noteq> None)"

lemma sign_inputs_total:
  assumes "\<forall>c\<in>set es. script_class w (utxo_script c) = PubKey \<or> script_class w (utxo_script c) = PubKeyECDSA"
  shows "\<forall>i\<in>set is. i < length es \<Longrightarrow> \<exists>tx'. sign_inputs w sk es is tx = Inr tx'"
proof (induction "is" arbitrary: tx)
  case (Cons i "is")
  then have "es ! i \<in> set es" by simp
  then have "\<exists>s. input_script w sk es tx i = Inr s"
    using assms by (auto simp: input_script_def)
  with Cons show ?case by auto
qed simp

lemma funded_builds:
  assumes enc: "encode_komms_payload ser ev = Inr raw" and fund: "funded w addr (length raw) fee"
    and key: "key_readable w hx key" and acc: "accepts w raw"
  shows "\<exists>tx. build_transaction w hx ser ev addr key fee = Inr tx"
proof -
  from fund obtain entries sel where get: "get_utxos_by_addresses w addr = Some entries"
    and ov: "no_overflow entries (length raw) fee"
    and scripts: "\<forall>c\<in>set entries. script_class w (utxo_script c) = PubKey \<or> script_class w (utxo_script c) = PubKeyECDSA"
    and sel: "mset sel \<subseteq># mset entries" "covers (length raw) (unat fee) sel" unfolding funded_def by blast
  obtain pk s f out where pick: "pick_utxos entries (length raw) fee = Inr (pk, s, f, out)"
    using pick_spec(2) [OF ov] top_covers [OF sel]
    by (cases "pick_utxos entries (length raw) fee") auto
  have "set pk \<subseteq> set entries"
    using selection_ok [OF ov pick] set_mset_mono [of "mset pk" "mset entries"] by simp
  with scripts have pks: "\<forall>c\<in>set pk. script_class w (utxo_script c) = PubKey \<or> script_class w (utxo_script c) = PubKeyECDSA"
    by blast
  obtain sk where sk: "parse_hex_bytes hx key = Inr sk" "length sk = 32" "secret_key_ok w sk"
    using key unfolding key_readable_def by blast
  obtain tx' where sign: "sign_inputs w sk pk [0..<length pk] (unsigned_tx w addr pk out raw) = Inr tx'"
    using sign_inputs_total [OF pks, of "[0..<length pk]"] by auto
  obtain mass where mass: "normalized_mass w tx' pk = Some mass"
    using acc unfolding accepts_def by blast
  show ?thesis
    unfolding build_transaction_Inr using enc sk get pick sign mass by blast
qed

lemma fst_build: "build_transaction w hx ser ev addr key fee = Inr tx \<Longrightarrow>
    fst (build_transaction_io w hx ser ev addr key fee) = [GetUtxos addr]"
  unfolding build_transaction_Inr
  by (auto simp: build_transaction_io_def fst_bindI)

lemma connect_eq:
  assumes "connected e url network = Some c"
  shows "bindI (make_client e url network) (\<lambda>c. bindI (connect_rpc c) (\<lambda>_. f c)) =
    ([NewClient url (url = None) (network_id_for_cli network), Connect] @ fst (f c), snd (f c))"
  using assms
  by (auto simp: connected_def make_client_def connect_rpc_def callI_def Let_def split: option.splits if_splits)

text \<open>
  C9: \<open>post --submit\<close> goes through whenever everything it needs is there: the command builds a
  valid event, the address and the key can be read, the client connects, the wallet can pay for a
  transaction with the payload, and the node takes it. Then it makes exactly these calls, one client,
  one connection, one request for the coins, one submission of a transaction with the payload,
  and prints the identifier the node returned with the payload.
\<close>
theorem post_submit_succeeds:
  fixes e :: io_env and network :: "NetworkType option"
  defines "env \<equiv> io_cli e" and "nt \<equiv> (case network of None \<Rightarrow> Mainnet | Some n \<Rightarrow> n)"
  assumes "env_feature_submit env" and "texts_defined e"
    and post: "post_event (env_hex_decode env) (env_sha256 env) (env_parse_address env) (env_ser env) pc True (Some change) = Inr (ev, raw)"
    and addr: "env_parse_address env change = Some addr" and conn: "connected e url nt = Some client"
    and key: "key_readable (client_wallet client nt) (env_hex_decode env) key"
    and fund: "funded (client_wallet client nt) addr (length raw) fee" and acc: "accepts (client_wallet client nt) raw"
  shows "\<exists>tx tid t. main e (Cmd_Post pc True url network (Some change) (Some key) fee) pretty =
       ([NewClient url (url = None) (network_id_for_cli nt), Connect, GetUtxos addr, SubmitTx tx, Println (t @ [0x0A])], Inr ()) \<and>
     tx_payload tx = raw \<and> submit_transaction (client_wallet client nt) tx = Some tid \<and>
     (if pretty then io_json_text_pretty e else io_json_text e)
       (JObj [(''submitted_transaction_id'', JStr (env_txid_text env tid)), (''payload_hex'', JStr (env_hex_string env raw))]) = Some t"
proof -
  let ?w = "client_wallet client nt"
  have enc: "encode_komms_payload (env_ser env) ev = Inr raw" using post by (auto simp: post_event_Inr)
  obtain tx where tx: "build_transaction ?w (env_hex_decode env) (env_ser env) ev addr key fee = Inr tx"
    using funded_builds [OF enc fund key acc] by blast
  have pay: "tx_payload tx = raw" using built_payload [OF tx] enc by simp
  then obtain tid where tid: "submit_transaction ?w tx = Some tid" using acc unfolding accepts_def by blast
  let ?j = "JObj [(''submitted_transaction_id'', JStr (env_txid_text env tid)), (''payload_hex'', JStr (env_hex_string env raw))]"
  have sub: "submit_komms_payload_io ?w (env_hex_decode env) (env_ser env) ev addr key fee =
      ([GetUtxos addr, SubmitTx tx], Inr tid)"
    using tx tid fst_build [OF tx]
    by (intro prod_eqI) (simp_all add: submit_komms_payload_io_def fst_bindI snd_bindI snd_build)
  have "run_post_io e pc True url network (Some change) (Some key) fee =
      ([NewClient url (url = None) (network_id_for_cli nt), Connect, GetUtxos addr, SubmitTx tx], Inr ?j)"
    using assms(3) post addr enc sub
    by (simp add: run_post_io_def run_submit_io_def Let_def liftI_def connect_eq [OF conn] flip: env_def nt_def)
  moreover obtain t where t: "(if pretty then io_json_text_pretty e else io_json_text e) ?j = Some t"
    using assms(4) unfolding texts_defined_def by (cases pretty) auto
  ultimately have "main e (Cmd_Post pc True url network (Some change) (Some key) fee) pretty =
      ([NewClient url (url = None) (network_id_for_cli nt), Connect, GetUtxos addr, SubmitTx tx, Println (t @ [0x0A])], Inr ())"
    by (cases pretty) (simp_all add: main_def run_io_def print_json_def liftI_def callI_def)
  with pay tid t show ?thesis by blast
qed

text \<open>The environment of \<open>Cli_Env\<close> with a client that connects.\<close>

definition sample_client :: rpc_client where
  "sample_client = \<lparr> client_connects = True, client_node = sample_node,
     client_wallet = (\<lambda>_. sample_wallet (\<lambda>tx. if tx_payload tx = sample_post_raw then Some (replicate 32 1) else None)) \<rparr>"

definition sample_io :: io_env where
  "sample_io = \<lparr> io_cli = sample_online, io_new_client = (\<lambda>_ _ _. Some sample_client),
     io_json_text = (\<lambda>_. Some []), io_json_text_pretty = (\<lambda>_. Some []) \<rparr>"

lemma sample_funded: "l < 1000 \<Longrightarrow> funded (sample_wallet f) addr l 0"
  unfolding funded_def
  by (intro exI [of _ "[sample_coin]"])
    (auto simp: sample_no_overflow covers_def fee_spec_def mass_spec_def intro!: exI [of _ "[sample_coin]"],
     simp add: sample_coin_def)

theorem post_submit_succeeds_witness:
  "snd (main sample_io (Cmd_Post sample_post True None None (Some []) (Some sample_key) 0) False) = Inr ()"
proof -
  let ?nt = "case (None :: NetworkType option) of None \<Rightarrow> Mainnet | Some n \<Rightarrow> n"
  let ?addr = "\<lparr>addr_version = 0, addr_payload = [7]\<rparr>"
  have "env_feature_submit (io_cli sample_io)" "texts_defined sample_io"
    by (simp_all add: sample_io_def sample_online_def texts_defined_def)
  moreover have "post_event (env_hex_decode (io_cli sample_io)) (env_sha256 (io_cli sample_io))
      (env_parse_address (io_cli sample_io)) (env_ser (io_cli sample_io)) sample_post True (Some []) = Inr (sample_post_ev, sample_post_raw)"
    by (simp add: sample_io_def sample_online_def sample_post_built)
  moreover have "env_parse_address (io_cli sample_io) [] = Some ?addr" "connected sample_io None ?nt = Some sample_client"
    by (simp_all add: sample_io_def sample_online_def connected_def sample_client_def)
  moreover have "key_readable (client_wallet sample_client ?nt) (env_hex_decode (io_cli sample_io)) sample_key"
    unfolding key_readable_def sample_key_def
    by (intro exI [of _ "replicate 32 7"])
      (simp add: sample_io_def sample_online_def sample_client_def base16.parse_hex_bytes_encode(1) del: replicate.simps)
  moreover have "funded (client_wallet sample_client ?nt) ?addr (length sample_post_raw) 0"
    by (simp add: sample_client_def sample_funded sample_post_raw_length)
  moreover have "accepts (client_wallet sample_client ?nt) sample_post_raw"
    by (simp add: accepts_def sample_client_def)
  ultimately show ?thesis
    using post_submit_succeeds [of sample_io sample_post "[]" sample_post_ev sample_post_raw ?addr None None sample_client sample_key 0 False]
    by auto
qed

end
