(* ===== verification/Cli_Schema.thy ===== *)
theory Cli_Schema
  imports Cli_Env
begin

text \<open>
  The types of the printed documents. A \<open>schema\<close> says which members an object has, which of them may
  be missing, and what their values are: numbers with their width, hex text with the number of
  bytes it stands for. \<open>doc_schema\<close> gives the schema of each command's document as the options
  determine it; every document \<open>run\<close> returns has it. The fixed-size arrays inside the index
  records and the generated keys come from libraries, \<open>env_typed\<close> states their sizes.
\<close>

datatype schema =
    S_Bool
  | S_Num nat
  | S_Text
  | S_Hex "nat option"
  | S_Opt schema
  | S_List schema
  | S_OneOf "schema list"
  | S_Object "(string \<times> bool \<times> schema) list"

fun json_members :: "json \<Rightarrow> (string \<times> json) list option" where
  "json_members (JObj ms) = Some ms"
| "json_members _ = None"

definition hex_text :: "nat option \<Rightarrow> bytes \<Rightarrow> bool" where
  "hex_text n s \<longleftrightarrow> list_all hex_digit s \<and>
     (case n of None \<Rightarrow> even (length s) | Some k \<Rightarrow> length s = 2 * k)"

text \<open>In \<open>S_Num w\<close> the number has \<open>w\<close> bits; in \<open>S_Object\<close> the flag says that the member is required.\<close>

fun has_schema :: "json \<Rightarrow> schema \<Rightarrow> bool" where
  "has_schema j S_Bool = (case j of JBool _ \<Rightarrow> True | _ \<Rightarrow> False)"
| "has_schema j (S_Num w) = (case j of JNum i \<Rightarrow> 0 \<le> i \<and> i < 2 ^ w | _ \<Rightarrow> False)"
| "has_schema j S_Text = (case j of JStr _ \<Rightarrow> True | _ \<Rightarrow> False)"
| "has_schema j (S_Hex n) = (case j of JStr s \<Rightarrow> hex_text n s | _ \<Rightarrow> False)"
| "has_schema j (S_Opt s) = (j = JNull \<or> has_schema j s)"
| "has_schema j (S_List s) = (case j of JArr js \<Rightarrow> list_all (\<lambda>j. has_schema j s) js | _ \<Rightarrow> False)"
| "has_schema j (S_OneOf ss) = list_ex (\<lambda>s. has_schema j s) ss"
| "has_schema j (S_Object fs) =
     (case json_members j of
        None \<Rightarrow> False
      | Some ms \<Rightarrow> distinct (map fst ms) \<and> set (map fst ms) \<subseteq> set (map fst fs) \<and>
          list_all (\<lambda>(k, required, s). case map_of ms k of None \<Rightarrow> \<not> required | Some v \<Rightarrow> has_schema v s) fs)"

section \<open>The documents\<close>

definition ref_schema :: schema where
  "ref_schema = S_OneOf
     [S_Object [(''error'', True, S_Text)],
      S_Object [(''ref_type'', True, S_Text), (''ref_type_byte'', True, S_Num 8), (''cid'', True, S_Text)],
      S_Object [(''ref_type'', True, S_Text), (''ref_type_byte'', True, S_Num 8), (''sha256'', True, S_Hex (Some 32))],
      S_Object [(''ref_type'', True, S_Text), (''error'', True, S_Text)],
      S_Object [(''ref_type'', True, S_Text), (''ref_type_byte'', True, S_Num 8)]]"

definition id_schema :: schema where
  "id_schema = S_Opt (S_Hex (Some 32))"

definition event_fields :: "(string \<times> bool \<times> schema) list" where
  "event_fields =
     [(''v'', True, S_Num 64), (''t'', True, S_Num 8), (''event_type'', True, S_Text),
      (''sid'', True, id_schema), (''cid'', True, id_schema), (''did'', True, id_schema),
      (''pid'', True, id_schema), (''mid'', True, id_schema), (''ref'', True, S_Opt (S_Hex None)),
      (''ref_decoded'', True, S_Opt ref_schema), (''ref_valid'', True, S_Opt S_Bool),
      (''enc'', True, S_Bool), (''ts'', True, S_Opt (S_Num 64)), (''n'', True, S_Opt (S_Num 64)),
      (''sig'', True, S_Opt (S_Hex (Some 64)))]"

definition row_schema :: schema where
  "row_schema = S_Object
     [(''txid'', True, S_Hex (Some 32)), (''containing_block_hash'', True, S_Hex (Some 32)),
      (''containing_daa'', True, S_Num 64), (''event_type'', True, S_Num 8), (''enc'', True, S_Bool),
      (''sid'', True, id_schema), (''cid'', True, id_schema), (''did'', True, id_schema),
      (''pid'', True, id_schema), (''mid'', True, id_schema), (''ref'', True, S_Opt (S_Hex None)),
      (''ts'', True, S_Opt (S_Num 64)), (''n'', True, S_Opt (S_Num 64)), (''sig'', True, S_Opt (S_Hex None))]"

definition decode_fields :: "bool \<Rightarrow> bool \<Rightarrow> bool \<Rightarrow> (string \<times> bool \<times> schema) list" where
  "decode_fields strict pretty_cbor verify_sig = event_fields @
     (if strict then [] else [(''validation_warning'', False, S_Text)]) @
     (if pretty_cbor then [(''cbor_debug'', True, S_Text)] else []) @
     (if verify_sig then [(''sig_verified'', True, S_Bool)] else [])"

definition address_fields :: "(string \<times> bool \<times> schema) list" where
  "address_fields = [(''kaspa_address'', True, S_Text), (''address_version'', True, S_Num 8),
     (''creator_address_hex'', True, S_Hex None), (''participant_id_hex'', True, S_Hex (Some 32))]"

fun id_doc_schema :: "IdCmd \<Rightarrow> schema" where
  "id_doc_schema (Id_Message _ _) = S_Object [(''message_id'', True, S_Hex (Some 32))]"
| "id_doc_schema (Id_Server _) = S_Object [(''server_id'', True, S_Hex (Some 32))]"
| "id_doc_schema (Id_Channel _ _ _) = S_Object [(''channel_id'', True, S_Hex (Some 32))]"
| "id_doc_schema (Id_Dm _ _) = S_Object [(''dm_thread_id'', True, S_Hex (Some 32))]"
| "id_doc_schema (Id_CreatorBytes _) = S_Object address_fields"
| "id_doc_schema (Id_NewWallet _) = S_Object
     ([(''private_key_hex'', True, S_Hex (Some 32)), (''xonly_pubkey_hex'', True, S_Hex (Some 32))] @ address_fields)"

fun doc_schema :: "Commands \<Rightarrow> schema" where
  "doc_schema (Cmd_Decode input strict pretty_cbor verify_sig pk) =
     S_Object (decode_fields strict pretty_cbor verify_sig)"
| "doc_schema (Cmd_RefInspect _) = ref_schema"
| "doc_schema (Cmd_Id cmd) = id_doc_schema cmd"
| "doc_schema (Cmd_Read (Read_Tx txid url network hint strict pretty_cbor verify_sig pk)) =
     S_Object (decode_fields strict pretty_cbor verify_sig @ [(''txid'', True, S_Text)])"
| "doc_schema (Cmd_Read (Read_Index _ _ _ _ _ _)) = S_Object [(''events'', True, S_List row_schema)]"
| "doc_schema (Cmd_Post _ submit _ _ _ _ _) =
     (if submit then S_Object [(''submitted_transaction_id'', True, S_Text), (''payload_hex'', True, S_Hex None)]
      else S_Object [(''payload_hex'', True, S_Hex None), (''event'', True, S_Object event_fields)])"
| "doc_schema (Cmd_VerifyContent _ _) = S_Object [(''file_sha256'', True, S_Hex (Some 32)),
     (''ref_hex'', True, S_Text), (''matches_ref_content_hash'', True, S_Bool)]"

text \<open>The sizes of the arrays that other crates hand out.\<close>

definition sized_record :: "'a KommsEventRecordV1_scheme \<Rightarrow> bool" where
  "sized_record r \<longleftrightarrow> length (rec_containing_block_hash r) = 32 \<and> len_ok 32 (rec_sid r) \<and> len_ok 32 (rec_cid r) \<and>
     len_ok 32 (rec_did r) \<and> len_ok 32 (rec_pid r) \<and> len_ok 32 (rec_mid r)"

definition env_typed :: "cli_env \<Rightarrow> bool" where
  "env_typed env \<longleftrightarrow> (\<forall>b r. env_from_bytes env b = Some r \<longrightarrow> sized_record r) \<and>
     (\<forall>b r. env_from_bytes_v1 env b = Some r \<longrightarrow> sized_record r) \<and>
     length (fst (env_new_key env)) = 32 \<and> length (snd (env_new_key env)) = 32"

section \<open>The documents have their schemas\<close>

lemma schema_JObj:
  "has_schema (JObj ms) (S_Object fs) \<longleftrightarrow> distinct (map fst ms) \<and> set (map fst ms) \<subseteq> set (map fst fs) \<and>
     list_all (\<lambda>(k, required, s). case map_of ms k of None \<Rightarrow> \<not> required | Some v \<Rightarrow> has_schema v s) fs"
  by simp

lemma schema_object: "has_schema j (S_Object fs) \<Longrightarrow> \<exists>ms. j = JObj ms"
  by (cases j) simp_all

lemma schema_opt: "(\<And>y. x = Some y \<Longrightarrow> has_schema (f y) s) \<Longrightarrow> has_schema (j_opt f x) (S_Opt s)"
  by (cases x) (simp_all add: j_opt_def)

declare has_schema.simps(2,5,8) [simp del]

lemma has_num_schema [simp]: "has_schema (j_u64 v) (S_Num 64)" "has_schema (j_u8 b) (S_Num 8)"
  by (simp_all add: has_schema.simps(2) j_u64_def j_u8_def uint_u8_bound uint_u64_bound)

context hex_codec
begin

lemma hex_text_encode [simp]:
  "hex_text None (hex_string b)" "hex_text (Some n) (hex_string b) \<longleftrightarrow> length b = n"
  using encode_digits by (auto simp: hex_text_def list_all_iff encode_length)

lemma has_id_schema [simp]: "len_ok 32 x \<Longrightarrow> has_schema (hex_opt hex_string x) id_schema"
  unfolding hex_opt_def id_schema_def by (rule schema_opt) (simp add: hex32_def len_ok_def)

lemma has_ref_schema [simp]: "has_schema (ref_json hex_string b) ref_schema"
  by (auto simp: ref_json_def ref_schema_def hex32_def has_schema.simps(2) j_u8_def uint_u8_bound schema_JObj split: list.split)

lemma has_opt_schema [simp]:
  "has_schema (hex_vec hex_string x) (S_Opt (S_Hex None))"
  "len_ok n x \<Longrightarrow> has_schema (j_opt (\<lambda>s. JStr (hex_string s)) x) (S_Opt (S_Hex (Some n)))"
  "has_schema (j_opt (\<lambda>s. JStr (hex_string s)) x) (S_Opt (S_Hex None))"
  "has_schema (j_opt j_u64 v) (S_Opt (S_Num 64))"
  "has_schema (j_opt (ref_json hex_string) x) (S_Opt ref_schema)"
  "has_schema (j_opt (\<lambda>r. JBool (f r)) x) (S_Opt S_Bool)"
  unfolding hex_vec_def by (rule schema_opt; simp add: len_ok_def)+

lemma has_event_schema: "wf_event ev \<Longrightarrow> has_schema (event_to_json hex_string ev) (S_Object event_fields)"
  by (simp add: event_to_json_def Let_def event_fields_def wf_event_def schema_JObj)

lemma has_row_schema:
  "sized_record r \<Longrightarrow> length tx_id = 32 \<Longrightarrow> has_schema (row_json hex_string tx_id r) row_schema"
  by (simp add: row_json_def row_schema_def sized_record_def schema_JObj)

end

text \<open>New members at the end of an object.\<close>

lemma map_of_snoc:
  "k \<notin> set (map fst ms) \<Longrightarrow> map_of (ms @ [(k, v)]) k' = (if k' = k then Some v else map_of ms k')"
  by (induction ms) auto

lemma schema_skip:
  assumes "has_schema j (S_Object fs)" and "k \<notin> set (map fst fs)"
  shows "has_schema j (S_Object (fs @ [(k, False, s)]))"
proof -
  obtain ms where j: "j = JObj ms" using schema_object [OF assms(1)] by blast
  have "map_of ms k = None" using assms by (auto simp: j schema_JObj map_of_eq_None_iff)
  with assms(1) show ?thesis by (auto simp: j schema_JObj)
qed

lemma schema_set:
  assumes "has_schema j (S_Object fs)" and "k \<notin> set (map fst fs)" and "has_schema v s"
  shows "has_schema (json_set j k v) (S_Object (fs @ [(k, req, s)]))"
proof -
  obtain ms where j: "j = JObj ms" using schema_object [OF assms(1)] by blast
  note ms = assms(1) [unfolded j schema_JObj]
  have k: "k \<notin> set (map fst ms)" using ms assms(2) by blast
  then have "filter (\<lambda>(k', _). k' \<noteq> k) ms = ms" by (intro filter_True) force
  then have set_eq: "json_set j k v = JObj (ms @ [(k, v)])" by (simp add: j)
  have "case map_of (ms @ [(k, v)]) k' of None \<Rightarrow> \<not> required | Some v \<Rightarrow> has_schema v s'"
    if "(k', required, s') \<in> set fs" for k' required s'
  proof -
    have "k' \<noteq> k" using that assms(2) by force
    then show ?thesis using that ms unfolding map_of_snoc [OF k] by (auto simp: list_all_iff)
  qed
  then have "list_all (\<lambda>(k', required, s). case map_of (ms @ [(k, v)]) k' of None \<Rightarrow> \<not> required
      | Some v \<Rightarrow> has_schema v s) (fs @ [(k, req, s)])"
    using assms(3) map_of_snoc [OF k, of v k] by (auto simp: list_all_iff simp del: map_of_append)
  then show ?thesis
    using ms k unfolding set_eq schema_JObj by auto
qed

lemma schema_set_opt:
  assumes "has_schema j (S_Object fs)" and "k \<notin> set (map fst fs)"
  shows "has_schema (set_opt k x j) (S_Object (fs @ [(k, False, S_Text)]))"
  using schema_skip [OF assms] schema_set [OF assms] by (simp add: set_opt_def split: option.split)

section \<open>The commands\<close>

lemma has_decode_schema:
  assumes "hex_codec hs hx" and "wf_event ev" and "pretty \<longleftrightarrow> d \<noteq> None" and "strict \<Longrightarrow> w = None"
  shows "has_schema (decode_doc hs ev w d verify) (S_Object (decode_fields strict pretty verify))"
proof -
  let ?w = "if strict then [] else [(''validation_warning'', False, S_Text)]"
  let ?d = "if pretty then [(''cbor_debug'', True, S_Text)] else []"
  note ev = hex_codec.has_event_schema [OF assms(1,2)]
  have fresh: "''validation_warning'' \<notin> set (map fst event_fields)" "''cbor_debug'' \<notin> set (map fst event_fields)"
    "''sig_verified'' \<notin> set (map fst event_fields)" by (simp_all add: event_fields_def)
  have w: "has_schema (set_opt ''validation_warning'' w (event_to_json hs ev)) (S_Object (event_fields @ ?w))"
    using schema_set_opt [OF ev fresh(1), of w] ev assms(4) by (cases strict) (simp_all add: set_opt_def)
  have d: "has_schema (set_opt ''cbor_debug'' d (set_opt ''validation_warning'' w (event_to_json hs ev)))
      (S_Object ((event_fields @ ?w) @ ?d))"
    using schema_set [OF w, of "''cbor_debug''" _ S_Text True] w assms(3) fresh(2)
    by (cases d) (simp_all add: set_opt_def)
  show ?thesis
    using schema_set [OF d, of "''sig_verified''" "JBool True" S_Bool True] d fresh(3)
    by (cases strict; cases pretty) (simp_all add: decode_doc_def decode_fields_def Let_def)
qed

lemma env_decode_schema:
  assumes "env_laws env" and "env_decode env raw strict pretty verify pk = Inr j"
  shows "has_schema j (S_Object (decode_fields strict pretty verify))"
proof -
  have hex: "hex_codec (env_hex_string env) (env_hex_decode env)" using assms(1) by (simp add: env_laws_def)
  from assms(2) obtain ev w d where "decode_event (env_de env) raw strict = Inr (ev, w)"
    "debug_part (env_de env) (env_debug_cval env) raw pretty = Inr d"
    "j = decode_doc (env_hex_string env) ev w d verify"
    by (auto simp: env_decode_def decode_payload_Inr)
  moreover from this have "wf_event ev" "pretty \<longleftrightarrow> d \<noteq> None" "strict \<Longrightarrow> w = None"
    by (auto intro: decode_event_wf simp: debug_part_def decode_event_def result_simps split: if_splits)
  ultimately show ?thesis using has_decode_schema [OF hex] by simp
qed

lemma participant_id_length: "\<forall>x. length (sha256 x) = 32 \<Longrightarrow> length (participant_id sha256 b) = 32"
  by (simp add: participant_id_def sha256_domain_def)

lemma id_schema_ok:
  assumes "env_laws env" and "env_typed env" and "run_id env cmd = Inr j"
  shows "has_schema j (id_doc_schema cmd)"
proof -
  have hex: "hex_codec (env_hex_string env) (env_hex_decode env)" and sha: "\<forall>x. length (env_sha256 env x) = 32"
    using assms(1) by (simp_all add: env_laws_def)
  have dm: "length (dm_thread_id (env_sha256 env) a b) = 32" for a b
    using sha by (simp add: dm_thread_id_def sha256_domain_def Let_def)
  note h = hex_codec.hex_text_encode [OF hex] hex_codec.parse_hex32_length [OF hex] dm participant_id_length [OF sha]
  show ?thesis
    using assms(2,3)
    by (cases cmd) (auto simp: result_simps schema_JObj address_fields_def Let_def env_typed_def h
        message_id_def server_id_def channel_id_def dest: h(3) split: prod.splits)
qed

lemma post_event_wf:
  assumes "env_laws env"
    and "post_event (env_hex_decode env) (env_sha256 env) (env_parse_address env) (env_ser env) cmd submit change = Inr (ev, raw)"
  shows "wf_event ev"
  using assms patched(1) by (fastforce simp: post_event_Inr env_laws_def built_def)

lemma post_schema_ok:
  assumes "env_laws env" and "run_post env cmd submit url network change key fee = Inr j"
  shows "has_schema j (doc_schema (Cmd_Post cmd submit url network change key fee))"
proof -
  have hex: "hex_codec (env_hex_string env) (env_hex_decode env)" using assms(1) by (simp add: env_laws_def)
  note h = hex_codec.hex_text_encode [OF hex] hex_codec.has_event_schema [OF hex] post_event_wf [OF assms(1)]
  show ?thesis
    using assms(2)
    by (auto simp: run_post_def run_submit_def result_simps Let_def schema_JObj h split: if_splits)
qed

lemma decode_record_sized: "env_typed env \<Longrightarrow>
   decode_record (env_from_bytes env) (env_from_bytes_v1 env) b = Some r \<Longrightarrow> sized_record r"
  by (auto simp: decode_record_def env_typed_def sized_record_def upgrade_record_def
      KommsEventRecordV1.defs split: option.splits)

lemma rows_schema_ok:
  assumes "env_laws env" and "env_typed env"
    and "run_read env (Read_Index dir et sid cid lo hi) = Inr j"
  shows "has_schema j (S_Object [(''events'', True, S_List row_schema)])"
proof -
  have hex: "hex_codec (env_hex_string env) (env_hex_decode env)" using assms(1) by (simp add: env_laws_def)
  from assms(3) obtain items rows s c where l: "list_all2 (row_of (env_from_bytes env) (env_from_bytes_v1 env)) items rows"
    and j: "j = JObj [(''events'', JArr (index_rows (env_hex_string env) et s c lo hi rows []))]"
    by (auto simp: read_index_def load_komms_events_def result_simps scan_items_iff)
  have "has_schema (row_json (env_hex_string env) t r) row_schema" if "(t, r) \<in> set rows" for t r
  proof -
    from that obtain i where "i < length rows" "rows ! i = (t, r)" by (auto simp: in_set_conv_nth)
    with l have "row_of (env_from_bytes env) (env_from_bytes_v1 env) (items ! i) (t, r)"
      by (metis list_all2_conv_all_nth)
    then show ?thesis
      using decode_record_sized [OF assms(2)] hex_codec.has_row_schema [OF hex] by (auto simp: row_of_def)
  qed
  then show ?thesis
    by (auto simp: j schema_JObj index_rows_filter list_all_iff)
qed

text \<open>
  C24: every document the program prints has the schema of its command, whatever the input: the
  members, their number ranges and the lengths of the hex texts are those of \<open>doc_schema\<close>, no member
  occurs twice, and nothing else is printed; identifiers are 32 bytes of hex or null, signatures 64.
\<close>
theorem run_document_type:
  assumes "env_laws env" and "env_typed env" and "run env cmd = Inr j"
  shows "has_schema j (doc_schema cmd)"
proof -
  have hex: "hex_codec (env_hex_string env) (env_hex_decode env)" and sha: "\<forall>x. length (env_sha256 env x) = 32"
    using assms(1) by (simp_all add: env_laws_def)
  note h = hex_codec.hex_text_encode [OF hex] hex_codec.has_ref_schema [OF hex]
  show ?thesis
  proof (cases cmd)
    case (Cmd_Decode input strict pretty verify pk)
    then show ?thesis using assms env_decode_schema by (auto simp: run_decode_def result_simps)
  next
    case (Cmd_RefInspect hex)
    then show ?thesis using assms h by (auto simp: run_ref_inspect_def result_simps)
  next
    case (Cmd_Id cmd)
    then show ?thesis using assms id_schema_ok by simp
  next
    case (Cmd_Read r)
    show ?thesis
    proof (cases r)
      case (Read_Tx txid url network hint strict pretty verify pk)
      with Cmd_Read assms(3) obtain payload j' where dec: "env_decode env payload strict pretty verify pk = Inr j'"
        and j: "j = json_set j' ''txid'' (JStr txid)"
        by (auto simp: result_simps)
      have "''txid'' \<notin> set (map fst (decode_fields strict pretty verify))"
        by (cases pretty; cases verify) (simp_all add: decode_fields_def event_fields_def)
      from schema_set [OF env_decode_schema [OF assms(1) dec] this, of "JStr txid" S_Text True]
      show ?thesis by (simp add: j Cmd_Read Read_Tx)
    next
      case (Read_Index dir et sid cid lo hi)
      then show ?thesis using rows_schema_ok [OF assms(1,2)] assms(3) Cmd_Read by simp
    qed
  next
    case (Cmd_Post cmd submit url network change key fee)
    then show ?thesis using post_schema_ok [OF assms(1)] assms(3) by simp
  next
    case (Cmd_VerifyContent path r)
    then show ?thesis using assms(3) sha
      by (auto simp: run_verify_content_def result_simps schema_JObj Let_def h)
  qed
qed

theorem run_document_type_witness:
  "\<exists>j. run sample_env_cli (Cmd_Post sample_post False None None None None 0) = Inr j \<and>
     has_schema j (doc_schema (Cmd_Post sample_post False None None None None 0))"
proof -
  let ?cmd = "Cmd_Post sample_post False None None None None 0"
  have typed: "env_typed sample_env_cli" by (simp add: env_typed_def sample_env_cli_def)
  obtain j where run: "run sample_env_cli ?cmd = Inr j"
    by (simp add: run_post_def sample_post_built)
  from run_document_type [OF sample_env_laws typed run] run show ?thesis by blast
qed

end
