(* ===== verification/Parse_Errors.thy ===== *)
theory Parse_Errors
  imports Event_Parse
begin

text \<open>
  Which error \<open>parse_cbor_map\<close> of \<open>protocol/src/lib.rs\<close> returns. The source stops at the first
  field that is missing or of the wrong kind, in the order of its pops; here that order is a table
  (\<open>field_checks\<close>), the test of a field a function of its kind and of what its key holds, and the
  error the first one in the table. Errors of the entries (a key that is not a byte, a repeated key)
  come before those of the fields.
\<close>

datatype field_kind =
    Required_Uint
  | Required_Type
  | Required_Bool
  | Array32
  | Array16
  | Any_Bytes
  | Any_Text
  | Optional_Uint
  | Signature

definition field_checks :: "(u8 \<times> string \<times> field_kind) list" where
  "field_checks =
     [(0, ''v'', Required_Uint), (1, ''t'', Required_Type), (8, ''enc'', Required_Bool),
      (2, ''sid'', Array32), (3, ''cid'', Array32), (4, ''did'', Array32), (5, ''pid'', Array32),
      (6, ''mid'', Array32), (7, ''ref'', Any_Bytes), (9, ''ts'', Optional_Uint), (10, ''n'', Optional_Uint),
      (11, ''sig'', Signature), (12, ''parent_mid'', Array32), (13, ''enc_scheme'', Optional_Uint),
      (14, ''kind'', Optional_Uint), (15, ''mime'', Any_Text), (16, ''ref_type'', Optional_Uint),
      (17, ''device_pk'', Array32), (18, ''sig_scheme'', Optional_Uint), (19, ''reaction_key'', Any_Bytes),
      (20, ''payment_hint'', Any_Bytes), (21, ''member_tag'', Array16), (22, ''member_sealed'', Any_Bytes),
      (23, ''enc_sid'', Any_Bytes), (24, ''enc_cid'', Any_Bytes), (25, ''enc_body_ref'', Any_Bytes),
      (26, ''enc_parent_mid'', Any_Bytes), (27, ''match_tag'', Array16), (28, ''enc_t'', Any_Bytes),
      (29, ''key_epoch'', Optional_Uint), (30, ''sealed_signer'', Any_Bytes), (31, ''role'', Optional_Uint),
      (32, ''target'', Any_Bytes)]"

definition uint_of :: "cval \<Rightarrow> u64 option" where
  "uint_of v = Option.bind (as_integer v) u64_try_from"

fun bytes_of :: "cval \<Rightarrow> bytes option" where
  "bytes_of (Bytes b) = Some b"
| "bytes_of v = None"

fun text_of :: "cval \<Rightarrow> bytes option" where
  "text_of (Text b) = Some b"
| "text_of v = None"

text \<open>What is wrong with a field, given what its key holds.\<close>

fun uint_error :: "string \<Rightarrow> cval \<Rightarrow> ParseError option" where
  "uint_error name v = (if uint_of v = None then Some (ExpectedUint name) else None)"

fun type_error :: "string \<Rightarrow> cval \<Rightarrow> ParseError option" where
  "type_error name v = (case uint_of v of
       None \<Rightarrow> Some (ExpectedUint name)
     | Some t \<Rightarrow> if t > 0xFF then Some (EventTypeOverflow t) else None)"

fun array_error :: "ParseError \<Rightarrow> ParseError \<Rightarrow> nat \<Rightarrow> cval \<Rightarrow> ParseError option" where
  "array_error kind_err len_err n v = (case bytes_of v of
       None \<Rightarrow> Some kind_err
     | Some b \<Rightarrow> if length b \<noteq> n then Some len_err else None)"

fun present_error :: "field_kind \<Rightarrow> string \<Rightarrow> cval \<Rightarrow> ParseError option" where
  "present_error Required_Uint name v = uint_error name v"
| "present_error Required_Type name v = type_error name v"
| "present_error Required_Bool name v = (if as_bool v = None then Some (ExpectedBool name) else None)"
| "present_error Array32 name v = array_error (ExpectedBytes32 name) (ExpectedBytes32 name) 32 v"
| "present_error Array16 name v = array_error (ExpectedBytes16 name) (ExpectedBytes16 name) 16 v"
| "present_error Any_Bytes name v = (if bytes_of v = None then Some (ExpectedBytes name) else None)"
| "present_error Any_Text name v = (if text_of v = None then Some (ExpectedText name) else None)"
| "present_error Optional_Uint name v = uint_error name v"
| "present_error Signature name v = array_error (ExpectedBytes name) InvalidSigLength 64 v"

definition is_required :: "field_kind \<Rightarrow> bool" where
  "is_required kd \<longleftrightarrow> kd = Required_Uint \<or> kd = Required_Type \<or> kd = Required_Bool"

definition field_error :: "field_kind \<Rightarrow> string \<Rightarrow> cval option \<Rightarrow> ParseError option" where
  "field_error kd name x = (case x of
       None \<Rightarrow> if is_required kd then Some (MissingField name) else None
     | Some v \<Rightarrow> present_error kd name v)"

fun first_error :: "(u8 \<times> string \<times> field_kind) list \<Rightarrow> (u8 \<Rightarrow> cval option) \<Rightarrow> ParseError option" where
  "first_error [] m = None"
| "first_error ((k, name, kd) # checks) m =
     (case field_error kd name (m k) of Some e \<Rightarrow> Some e | None \<Rightarrow> first_error checks m)"

section \<open>The pops as tests\<close>

abbreviation stop :: "ParseError option \<Rightarrow> ParseError + 'a \<Rightarrow> ParseError + 'a" where
  "stop c r \<equiv> (case c of None \<Rightarrow> r | Some e \<Rightarrow> Inl e)"

lemma as_int_uint_of: "bindE (ok_or (as_integer v) e) (\<lambda>i. bindE (ok_or (u64_try_from i) e) f) =
    (case uint_of v of None \<Rightarrow> Inl e | Some u \<Rightarrow> f u)"
  by (cases "as_integer v") (simp_all add: uint_of_def ok_or_def split: option.split)

lemma into_bytes_of: "map_err (\<lambda>_. e) (into_bytes v) = ok_or (bytes_of v) e"
  by (cases v) simp_all

lemma into_text_of: "map_err (\<lambda>_. e) (into_text v) = ok_or (text_of v) e"
  by (cases v) simp_all

lemmas pop_tests = field_error_def is_required_def as_int_uint_of into_bytes_of into_text_of

lemma bind_pop_test:
  "bindE (pop_uint fs k name) f =
     stop (field_error Required_Uint name (om_get fs k)) (f (the (uint_of (the (om_get fs k))), om_remove k fs))"
  "bindE (pop_uint fs k name) (\<lambda>(t, fs). if t > 0xFF then Inl (EventTypeOverflow t) else h t fs) =
     stop (field_error Required_Type name (om_get fs k)) (h (the (uint_of (the (om_get fs k)))) (om_remove k fs))"
  "bindE (pop_bytes32 fs k name) g =
     stop (field_error Array32 name (om_get fs k)) (g (Option.bind (om_get fs k) bytes_of, om_remove k fs))"
  "bindE (pop_bytes16 fs k name) g =
     stop (field_error Array16 name (om_get fs k)) (g (Option.bind (om_get fs k) bytes_of, om_remove k fs))"
  "bindE (pop_sig fs) g =
     stop (field_error Signature ''sig'' (om_get fs 11)) (g (Option.bind (om_get fs 11) bytes_of, om_remove 11 fs))"
  "bindE (pop_bytes fs k name) g =
     stop (field_error Any_Bytes name (om_get fs k)) (g (Option.bind (om_get fs k) bytes_of, om_remove k fs))"
  "bindE (pop_text_opt fs k name) g =
     stop (field_error Any_Text name (om_get fs k)) (g (Option.bind (om_get fs k) text_of, om_remove k fs))"
  "bindE (pop_uint_opt fs k name) l =
     stop (field_error Optional_Uint name (om_get fs k)) (l (Option.bind (om_get fs k) uint_of, om_remove k fs))"
  "bindE (ok_or (om_get fs 8) (MissingField ''enc'')) (\<lambda>x. bindE (ok_or (as_bool x) (ExpectedBool ''enc'')) b) =
     stop (field_error Required_Bool ''enc'' (om_get fs 8)) (b (the (as_bool (the (om_get fs 8)))))"
proof -
  show "bindE (pop_uint fs k name) f =
     stop (field_error Required_Uint name (om_get fs k)) (f (the (uint_of (the (om_get fs k))), om_remove k fs))"
    "bindE (pop_uint fs k name) (\<lambda>(t, fs). if t > 0xFF then Inl (EventTypeOverflow t) else h t fs) =
     stop (field_error Required_Type name (om_get fs k)) (h (the (uint_of (the (om_get fs k)))) (om_remove k fs))"
    "bindE (pop_uint_opt fs k name) l =
     stop (field_error Optional_Uint name (om_get fs k)) (l (Option.bind (om_get fs k) uint_of, om_remove k fs))"
    by (cases "om_get fs k"; cases "uint_of (the (om_get fs k))"; simp add: pop_uint_def pop_uint_opt_def pop_tests)+
  show "bindE (pop_bytes32 fs k name) g =
     stop (field_error Array32 name (om_get fs k)) (g (Option.bind (om_get fs k) bytes_of, om_remove k fs))"
    "bindE (pop_bytes16 fs k name) g =
     stop (field_error Array16 name (om_get fs k)) (g (Option.bind (om_get fs k) bytes_of, om_remove k fs))"
    "bindE (pop_bytes fs k name) g =
     stop (field_error Any_Bytes name (om_get fs k)) (g (Option.bind (om_get fs k) bytes_of, om_remove k fs))"
    by (cases "om_get fs k"; cases "bytes_of (the (om_get fs k))";
        simp add: pop_bytes32_def pop_bytes16_def V1_1_TAG_LEN_def pop_bytes_def pop_tests)+
  show "bindE (pop_text_opt fs k name) g =
     stop (field_error Any_Text name (om_get fs k)) (g (Option.bind (om_get fs k) text_of, om_remove k fs))"
    by (cases "om_get fs k"; cases "text_of (the (om_get fs k))"; simp add: pop_text_opt_def pop_tests)
  show "bindE (pop_sig fs) g =
     stop (field_error Signature ''sig'' (om_get fs 11)) (g (Option.bind (om_get fs 11) bytes_of, om_remove 11 fs))"
    by (cases "om_get fs 11"; cases "bytes_of (the (om_get fs 11))"; simp add: pop_sig_def pop_tests)
  show "bindE (ok_or (om_get fs 8) (MissingField ''enc'')) (\<lambda>x. bindE (ok_or (as_bool x) (ExpectedBool ''enc'')) b) =
     stop (field_error Required_Bool ''enc'' (om_get fs 8)) (b (the (as_bool (the (om_get fs 8)))))"
    by (cases "om_get fs 8"; cases "as_bool (the (om_get fs 8))"; simp add: pop_tests)
qed

text \<open>The same tests in the same order on both sides.\<close>

lemma stop_Inl: "stop c r = Inl e \<longleftrightarrow> c = Some e \<or> c = None \<and> r = Inl e"
  by (cases c) auto

lemma first_error_Cons: "first_error ((k, name, kd) # checks) m = Some e \<longleftrightarrow>
    field_error kd name (m k) = Some e \<or> field_error kd name (m k) = None \<and> first_error checks m = Some e"
  by (cases "field_error kd name (m k)") auto

lemma parse_fields_error:
  assumes "om_ok fs"
  shows "parse_fields fs = Inl e \<longleftrightarrow> first_error field_checks (om_get fs) = Some e"
  unfolding parse_fields_def Let_def
  apply (simp only: bind_pop_test(2))
  apply (simp only: bind_pop_test prod.case)
  apply (simp only: drop_core_def [symmetric] parse_rest [OF assms] stop_Inl)
  apply (simp only: field_checks_def first_error_Cons first_error.simps(1))
  apply (simp add: om_get_remove_other)
  done

section \<open>The entries\<close>

text \<open>The first entry whose key is not a byte or a byte that came before.\<close>

definition entry_error :: "(cval \<times> cval) list \<Rightarrow> ParseError \<Rightarrow> bool" where
  "entry_error entries e \<longleftrightarrow> (\<exists>pre k v post ks. entries = pre @ (k, v) # post \<and> entry_keys pre ks \<and> distinct ks \<and>
     ((\<forall>b :: u8. k \<noteq> Integer (uint b)) \<and> e = InvalidKey \<or>
      (\<exists>b\<in>set ks. k = Integer (uint b) \<and> e = DuplicateMapKey b)))"

lemma key_to_u8_Inl: "key_to_u8 k = Inl e \<longleftrightarrow> (\<forall>b :: u8. k \<noteq> Integer (uint b)) \<and> e = InvalidKey"
proof (cases "key_to_u8 k")
  case (Inl d)
  moreover from this have "k \<noteq> Integer (uint b)" for b :: u8 using key_to_u8_iff [of k b] by auto
  moreover have "d = InvalidKey" using Inl by (auto simp: key_to_u8_def bindE_Inl_iff ok_or_Inl_iff)
  ultimately show ?thesis by auto
next
  case (Inr b)
  then have "k = Integer (uint b)" by (simp add: key_to_u8_iff)
  with Inr show ?thesis by auto
qed

lemma collect_fields_append: "collect_fields (es @ es') fs = bindE (collect_fields es fs) (collect_fields es')"
proof (induction es fs rule: collect_fields.induct)
  case (2 k v es fs)
  then show ?case by (cases "key_to_u8 k") auto
qed simp

lemma collect_next:
  assumes "entry_keys pre ks" and "distinct ks"
  shows "collect_fields (pre @ [(k, v)]) om_empty = Inl e \<longleftrightarrow>
     (\<forall>b :: u8. k \<noteq> Integer (uint b)) \<and> e = InvalidKey \<or> (\<exists>b\<in>set ks. k = Integer (uint b) \<and> e = DuplicateMapKey b)"
proof -
  let ?fs = "btree.insert_all (zip ks (map snd pre)) om_empty"
  have "collect_fields pre om_empty = Inr ?fs"
    using assms by (simp add: collect_fields_iff btree.ok_empty btree.get_empty) blast
  moreover have "om_get ?fs b = None \<longleftrightarrow> b \<notin> set ks" for b
    using assms om_get_collected [OF assms]
    by (simp add: map_of_eq_None_iff) (metis entry_keys_def length_map map_fst_zip set_map)
  ultimately show ?thesis
    by (cases "key_to_u8 k") (auto simp: collect_fields_append bindE_Inl_iff key_to_u8_Inl key_to_u8_iff)
qed

lemma entry_error_next:
  "entry_error entries e \<longleftrightarrow> (\<exists>pre x post ks. entries = pre @ x # post \<and> entry_keys pre ks \<and> distinct ks \<and>
     collect_fields (pre @ [x]) om_empty = Inl e)"
  unfolding entry_error_def split_paired_Ex by (simp add: collect_next cong: conj_cong)

lemma entry_error_append: "entry_error es e \<Longrightarrow> entry_error (es @ es') e"
proof -
  assume "entry_error es e"
  then obtain pre x post ks where "es = pre @ x # post" "entry_keys pre ks" "distinct ks"
    "collect_fields (pre @ [x]) om_empty = Inl e" unfolding entry_error_next by blast
  then show ?thesis
    unfolding entry_error_next
    by (intro exI [of _ pre] exI [of _ x] exI [of _ "post @ es'"] exI [of _ ks]) simp
qed

lemma collect_fields_error: "collect_fields entries om_empty = Inl e \<longleftrightarrow> entry_error entries e"
proof
  show "collect_fields entries om_empty = Inl e \<Longrightarrow> entry_error entries e"
  proof (induction entries rule: rev_induct)
    case (snoc x es)
    show ?case
    proof (cases "collect_fields es om_empty")
      case (Inl d)
      with snoc have "entry_error es e" by (simp add: collect_fields_append)
      then show ?thesis by (rule entry_error_append)
    next
      case (Inr fs)
      then obtain ks where "entry_keys es ks" "distinct ks" by (auto simp: collect_fields_iff btree.ok_empty)
      with snoc.prems show ?thesis
        unfolding entry_error_next by (intro exI [of _ es] exI [of _ x] exI [of _ "[]"] exI [of _ ks]) simp
    qed
  qed simp
next
  assume "entry_error entries e"
  then obtain pre x post where "entries = pre @ x # post" "collect_fields (pre @ [x]) om_empty = Inl e"
    unfolding entry_error_next by blast
  then show "collect_fields entries om_empty = Inl e"
    using collect_fields_append [of "pre @ [x]" post om_empty] by simp
qed

lemma parse_entries_error:
  "bindE (collect_fields entries om_empty) parse_fields = Inl e \<longleftrightarrow> entry_error entries e \<or>
     (\<exists>ks. entry_keys entries ks \<and> distinct ks \<and> first_error field_checks (map_of (zip ks (map snd entries))) = Some e)"
proof -
  have "(\<exists>fs. collect_fields entries om_empty = Inr fs \<and> parse_fields fs = Inl e) \<longleftrightarrow>
      (\<exists>ks. entry_keys entries ks \<and> distinct ks \<and>
         parse_fields (btree.insert_all (zip ks (map snd entries)) om_empty) = Inl e)"
    unfolding collect_fields_iff [OF btree.ok_empty] btree.get_empty by blast
  then show ?thesis
    by (auto simp: bindE_Inl_iff collect_fields_error parse_fields_error om_ok_collected om_get_collected)
qed

text \<open>
  C11: the error of \<open>parse_cbor_map\<close>, for every input: the CBOR library's if the bytes do not decode;
  \<open>NotAMap\<close> if they decode to something else; \<open>InvalidKey\<close> or \<open>DuplicateMapKey\<close> of the first entry whose
  key is not an integer of 0..=255 or came before; and otherwise the error of the first field in
  the order of the table (\<open>v\<close>, \<open>t\<close>, \<open>enc\<close>, then ascending keys) that is missing though required or
  does not have its kind: never one of a later field, and never one of the extension keys.
\<close>
theorem parse_cbor_map_error_iff:
  "parse_cbor_map de cbor = Inl e \<longleftrightarrow>
     (case de cbor of
        Inl s \<Rightarrow> e = Cbor s
      | Inr (Map entries) \<Rightarrow> entry_error entries e \<or>
          (\<exists>ks. entry_keys entries ks \<and> distinct ks \<and> first_error field_checks (map_of (zip ks (map snd entries))) = Some e)
      | Inr _ \<Rightarrow> e = NotAMap)"
proof (cases "de cbor")
  case (Inr v)
  then show ?thesis by (cases v) (auto simp: parse_cbor_map_def parse_entries_error)
qed (auto simp: parse_cbor_map_def)

text \<open>An event with two faults: the version is missing and the server id has 31 bytes.\<close>

lemma two_faults:
  "first_error field_checks (map_of [(1, Integer 0), (2, Bytes (replicate 31 0)), (8, Bool False)]) = Some (MissingField ''v'')"
  "first_error field_checks (map_of [(0, Integer 0), (1, Integer 0), (2, Bytes (replicate 31 0)), (8, Bool False)])
     = Some (ExpectedBytes32 ''sid'')"
  by (simp_all add: field_checks_def field_error_def is_required_def uint_of_def u64_try_from_def)

end
