(* ===== verification/Payload_Errors.thy ===== *)
theory Payload_Errors
  imports Parse_Errors Payload
begin

text \<open>
  The errors of \<open>parse_komms_payload\<close> (\<open>protocol/src/lib.rs\<close>) behind the canonical gate: for a payload
  that is the encoding of an item of the profile, which of the parse errors are left and when
  they occur, in terms of the item.
\<close>

text \<open>What the map on the wire holds at a byte key, as a CBOR value.\<close>

definition wire_map :: "(u64 \<times> item) list \<Rightarrow> u8 \<Rightarrow> cval option" where
  "wire_map kvs k = map_option value_of (map_of kvs (ucast k))"

definition wire_entries :: "(u64 \<times> item) list \<Rightarrow> (cval \<times> cval) list" where
  "wire_entries kvs = map (\<lambda>(k, v). (Integer (uint k), value_of v)) kvs"

definition narrow_keys :: "(u64 \<times> item) list \<Rightarrow> u8 list" where
  "narrow_keys kvs = map (\<lambda>(k, v). ucast k) kvs"

lemma widen_inject: "ucast (a :: u8) = (ucast b :: u64) \<longleftrightarrow> a = b"
  by (simp add: word_unat_eq_iff)

lemma narrow_key: "(k :: u64) \<le> 0xFF \<Longrightarrow> ucast (ucast k :: u8) = k"
  by (simp add: widen_narrow word_le_nat_alt)

lemma is_up_u8_u64: "is_up (ucast :: u8 \<Rightarrow> u64)"
  by (simp add: is_up)

lemma uint_narrow: "(k :: u64) \<le> 0xFF \<Longrightarrow> uint (ucast k :: u8) = uint k"
  by (metis narrow_key uint_up_ucast is_up_u8_u64)

lemma wide_key_no_byte: "(k :: u64) > 0xFF \<Longrightarrow> Integer (uint k) \<noteq> Integer (uint (b :: u8))"
proof
  assume "k > 0xFF" "Integer (uint k) = Integer (uint b)"
  then have "uint k < 256" using uint_u8_bound [of b] by simp
  with \<open>k > 0xFF\<close> show False by (simp add: word_less_def)
qed

lemma narrow_entry_keys:
  "\<forall>k\<in>fst ` set kvs. k \<le> 0xFF \<Longrightarrow> entry_keys (wire_entries kvs) (narrow_keys kvs)"
  by (induction kvs) (auto simp: wire_entries_def narrow_keys_def entry_keys_def uint_narrow)

lemma narrow_distinct:
  "\<forall>k\<in>fst ` set kvs. k \<le> 0xFF \<Longrightarrow> distinct (map fst kvs) \<Longrightarrow> distinct (narrow_keys kvs)"
proof -
  assume le: "\<forall>k\<in>fst ` set kvs. k \<le> 0xFF" and d: "distinct (map fst kvs)"
  have "map ucast (narrow_keys kvs) = map fst kvs"
    using le by (induction kvs) (auto simp: narrow_keys_def narrow_key)
  with d show ?thesis by (metis distinct_map)
qed

lemma wire_map_zip:
  "\<forall>k\<in>fst ` set kvs. k \<le> 0xFF \<Longrightarrow>
     map_of (zip (narrow_keys kvs) (map snd (wire_entries kvs))) = wire_map kvs"
proof (induction kvs)
  case (Cons kv kvs)
  obtain k v where kv: "kv = (k, v)" by (cases kv)
  have "ucast b = k \<longleftrightarrow> b = ucast k" for b :: u8
    using narrow_key [of k] widen_inject [of b "ucast k"] Cons.prems by (auto simp: kv)
  with Cons show ?case
    by (auto simp: kv wire_map_def wire_entries_def narrow_keys_def fun_eq_iff)
qed (simp add: wire_map_def wire_entries_def narrow_keys_def fun_eq_iff)

lemma narrow_no_entry_error:
  assumes "\<forall>k\<in>fst ` set kvs. k \<le> 0xFF" and "distinct (map fst kvs)"
  shows "\<not> entry_error (wire_entries kvs) e"
proof -
  have "\<exists>fs. collect_fields (wire_entries kvs) om_empty = Inr fs"
    using narrow_entry_keys [OF assms(1)] narrow_distinct [OF assms]
    by (auto simp: collect_fields_iff btree.ok_empty btree.get_empty)
  then show ?thesis unfolding collect_fields_error [symmetric] by auto
qed

lemma wide_entry_error:
  assumes d: "distinct (map fst kvs)" and wide: "\<exists>k\<in>fst ` set kvs. k > 0xFF"
  shows "entry_error (wire_entries kvs) e \<longleftrightarrow> e = InvalidKey"
proof -
  from wide have "\<exists>x\<in>set kvs. fst x > 0xFF" by auto
  then obtain pre x post where kvs: "kvs = pre @ x # post" "fst x > 0xFF" "\<forall>y\<in>set pre. \<not> fst y > 0xFF"
    by (elim split_list_first_propE) auto
  then have pre: "\<forall>k\<in>fst ` set pre. k \<le> 0xFF" "distinct (map fst pre)" using d by auto
  have "entry_error (wire_entries kvs) InvalidKey"
    unfolding entry_error_def
    using narrow_entry_keys [OF pre(1)] narrow_distinct [OF pre] kvs(2) wide_key_no_byte [of "fst x"]
    by (intro exI [of _ "wire_entries pre"] exI [of _ "Integer (uint (fst x))"] exI [of _ "value_of (snd x)"]
        exI [of _ "wire_entries post"] exI [of _ "narrow_keys pre"])
      (simp add: wire_entries_def kvs(1) case_prod_beta)
  then have "collect_fields (wire_entries kvs) om_empty = Inl InvalidKey" by (simp add: collect_fields_error)
  then show ?thesis unfolding collect_fields_error [symmetric] by auto
qed

lemma wide_no_keys: "\<exists>k\<in>fst ` set kvs. k > 0xFF \<Longrightarrow> \<not> entry_keys (wire_entries kvs) ks"
proof
  assume "\<exists>k\<in>fst ` set kvs. k > 0xFF" and keys: "entry_keys (wire_entries kvs) ks"
  then obtain k where k: "k \<in> fst ` set kvs" "k > 0xFF" by blast
  from k(1) have "Integer (uint k) \<in> set (map fst (wire_entries kvs))"
    by (force simp: wire_entries_def)
  moreover have "set (map fst (wire_entries kvs)) = (\<lambda>b. Integer (uint b)) ` set ks"
    using keys by (simp only: entry_keys_def set_map)
  ultimately obtain b :: u8 where "Integer (uint k) = Integer (uint b)" by blast
  with wide_key_no_byte [OF k(2)] show False by blast
qed

lemma entry_keys_inject:
  "map (\<lambda>k :: u8. Integer (uint k)) ks = map (\<lambda>k. Integer (uint k)) ks' \<Longrightarrow> ks = ks'"
  by (rule map_injective) (auto simp: inj_def)

text \<open>The parse errors of a map with distinct keys.\<close>

lemma parse_wire_error:
  assumes de: "de cbor = Inr (Map (wire_entries kvs))" and d: "distinct (map fst kvs)"
  shows "parse_cbor_map de cbor = Inl e \<longleftrightarrow>
     (if \<exists>k\<in>fst ` set kvs. k > 0xFF then e = InvalidKey else first_error field_checks (wire_map kvs) = Some e)"
proof (cases "\<exists>k\<in>fst ` set kvs. k > 0xFF")
  case True
  with wide_entry_error [OF d True] wide_no_keys [OF True] show ?thesis
    by (simp add: parse_cbor_map_def de parse_entries_error)
next
  case False
  then have le: "\<forall>k\<in>fst ` set kvs. k \<le> 0xFF" by (simp add: not_less)
  have "(\<exists>ks. entry_keys (wire_entries kvs) ks \<and> distinct ks \<and> P (map_of (zip ks (map snd (wire_entries kvs)))))
      \<longleftrightarrow> P (wire_map kvs)" for P
  proof -
    have "ks = narrow_keys kvs" if "entry_keys (wire_entries kvs) ks" for ks
      using that narrow_entry_keys [OF le] unfolding entry_keys_def by (metis entry_keys_inject)
    then show ?thesis
      using narrow_entry_keys [OF le] narrow_distinct [OF le d] wire_map_zip [OF le] by metis
  qed
  with False narrow_no_entry_error [OF le d] show ?thesis
    by (simp add: parse_cbor_map_def de parse_entries_error)
qed

text \<open>
  C12: behind the canonical gate the strict parser has four kinds of parse errors left. For a payload
  that encodes an item of the profile (without \<open>undefined\<close>): the CBOR library's error exactly when a
  text string is not UTF-8; \<open>NotAMap\<close> exactly when the item is no map; \<open>InvalidKey\<close> exactly when
  some key is above 255, whatever else is wrong with the map; otherwise the error of the first field
  of the table that is missing or of the wrong kind. A repeated key is never reported: the gate has
  refused it.
\<close>
theorem gated_parse_errors:
  assumes codec: "cbor_codec ser de"
    and it: "wf_item 0 it" "plain_item it" "length (enc_item it) < 2 ^ 64"
  shows "parse_komms_payload de (KOMMS_PAYLOAD_PREFIX @ enc_item it) = Inl (ParseErr e) \<longleftrightarrow>
     (if texts_valid it then
        (case it of
           Dict kvs \<Rightarrow>
             if \<exists>k\<in>fst ` set kvs. k > 0xFF then e = InvalidKey else first_error field_checks (wire_map kvs) = Some e
         | _ \<Rightarrow> e = NotAMap)
      else \<exists>s. de (enc_item it) = Inl s \<and> e = Cbor s)"
proof -
  have parse: "parse_komms_payload de (KOMMS_PAYLOAD_PREFIX @ enc_item it) = Inl (ParseErr e) \<longleftrightarrow>
      parse_cbor_map de (enc_item it) = Inl e"
    using validate_canonical_enc [OF it(1,3)]
    by (cases "parse_cbor_map de (enc_item it)") (auto simp: parse_komms_payload_def bindE_Inl_iff result_simps)
  show ?thesis
  proof (cases "texts_valid it")
    case False
    then obtain s where "de (enc_item it) = Inl s" using cbor_codec.de_bad_text [OF codec it(1)] by blast
    with False show ?thesis unfolding parse by (auto simp: parse_cbor_map_def)
  next
    case True
    then have de: "de (enc_item it) = Inr (value_of it)" by (rule cbor_codec.de_item [OF codec it(1,2)])
    show ?thesis
    proof (cases it)
      case (Dict kvs)
      have "de (enc_item it) = Inr (Map (wire_entries kvs))" unfolding de by (simp add: Dict wire_entries_def)
      moreover have "distinct (map fst kvs)" using it(1) by (simp add: Dict strict_sorted_iff)
      ultimately show ?thesis unfolding parse using True by (simp add: parse_wire_error Dict del: enc_item.simps)
    qed (unfold parse parse_cbor_map_def de, use True in \<open>auto split: simple.splits\<close>)
  qed
qed

definition short_sid_kvs :: "(u64 \<times> item) list" where
  "short_sid_kvs = [(0, UInt 0), (1, UInt 0), (2, ByteStr (replicate 31 0)), (8, Simple SFalse)]"

theorem gated_parse_errors_witness:
  "parse_komms_payload rfc_de (KOMMS_PAYLOAD_PREFIX @ enc_item (Dict short_sid_kvs)) = Inl (ParseErr (ExpectedBytes32 ''sid''))"
proof -
  have wf: "wf_item 0 (Dict short_sid_kvs)" "plain_item (Dict short_sid_kvs)"
    and texts: "texts_valid (Dict short_sid_kvs)"
    by (simp_all add: short_sid_kvs_def MAX_NESTING_DEPTH_def word_less_nat_alt)
  have len: "length (enc_item (Dict short_sid_kvs)) < 2 ^ 64"
    by (simp add: short_sid_kvs_def wire_simps encode_cbor_uint_header_def)
  have "first_error field_checks (wire_map short_sid_kvs) = Some (ExpectedBytes32 ''sid'')"
    by (simp add: short_sid_kvs_def field_checks_def wire_map_def field_error_def is_required_def uint_of_def
        u64_try_from_def)
  moreover have "\<not> (\<exists>k\<in>fst ` set short_sid_kvs. k > 0xFF)" by (simp add: short_sid_kvs_def)
  ultimately show ?thesis
    unfolding gated_parse_errors [OF rfc.cbor_codec_axioms wf len] by (simp only: texts if_True if_False item.case)
qed

end
