(* ===== verification/Canonical_Cost.thy ===== *)
theory Canonical_Cost
  imports Canonical
begin

text \<open>
  How much work the canonical gate does. The counts in array and map heads are 64-bit numbers
  chosen by whoever sent the payload; the walker loops as often as they say. The time functions
  \<open>T_walk_item\<close>, \<open>T_walk_array\<close> and \<open>T_walk_map\<close> follow the equations of the walker (\<open>Canonical\<close>) and
  count its calls, one per item and one per round of a loop; every call does a constant amount of
  work besides the calls it makes. They are bounded by the length of the input.
\<close>

function T_walk_item :: "bytes \<Rightarrow> nat \<Rightarrow> nat \<Rightarrow> nat"
  and T_walk_array :: "bytes \<Rightarrow> nat \<Rightarrow> nat \<Rightarrow> nat \<Rightarrow> nat"
  and T_walk_map :: "bytes \<Rightarrow> nat \<Rightarrow> nat \<Rightarrow> u64 option \<Rightarrow> nat \<Rightarrow> nat"
where
  "T_walk_item cbor pos depth = 1 +
     (if depth > MAX_NESTING_DEPTH then 0
      else (case read_u8 cbor pos of
          Inl _ \<Rightarrow> 0
        | Inr (initial, p) \<Rightarrow>
            (let major = major_of initial; arg = info_of initial in
             if arg = 0x1F \<or> 28 \<le> arg \<and> arg \<le> 30 then 0
             else (case read_argument cbor p arg pos of
                 Inl _ \<Rightarrow> 0
               | Inr (count, p) \<Rightarrow>
                   if major = 4 then T_walk_array cbor p (depth + 1) (unat count)
                   else if major = 5 then T_walk_map cbor p (depth + 1) None (unat count)
                   else 0))))"
| "T_walk_array cbor pos depth count = 1 +
     (if count = 0 then 0
      else T_walk_item cbor pos depth +
        (case walk_item cbor pos depth of
           Inl _ \<Rightarrow> 0
         | Inr p \<Rightarrow> T_walk_array cbor p depth (count - 1)))"
| "T_walk_map cbor pos depth prev_key count = 1 +
     (if count = 0 then 0
      else (case read_uint_key cbor pos of
          Inl _ \<Rightarrow> 0
        | Inr (key, p) \<Rightarrow>
            if (case prev_key of Some q \<Rightarrow> key \<le> q | None \<Rightarrow> False) then 0
            else T_walk_item cbor p depth +
              (case walk_item cbor p depth of
                 Inl _ \<Rightarrow> 0
               | Inr p \<Rightarrow> T_walk_map cbor p depth (Some key) (count - 1))))"
  by pat_completeness auto
termination
  by (relation "measures
       [\<lambda>x. case x of Inl (_, _, d) \<Rightarrow> 10 - d
                    | Inr (Inl (_, _, d, _)) \<Rightarrow> 10 - d
                    | Inr (Inr (_, _, d, _, _)) \<Rightarrow> 10 - d,
        \<lambda>x. case x of Inl _ \<Rightarrow> 0
                    | Inr (Inl (_, _, _, n)) \<Rightarrow> Suc n
                    | Inr (Inr (_, _, _, _, n)) \<Rightarrow> Suc n]")
    (auto simp: MAX_NESTING_DEPTH_def)

declare T_walk_item.simps [simp del] T_walk_array.simps [simp del] T_walk_map.simps [simp del]

text \<open>Reading a head consumes at least its initial byte and never leaves the input.\<close>

lemma read_argument_bounds:
  assumes "read_argument cbor p arg off = Inr (v, p')" and "p \<le> length cbor"
  shows "p \<le> p' \<and> p' \<le> length cbor"
  using assms by (cases rule: read_argument_cases) auto

lemma read_argument_info:
  "read_argument cbor p arg off = Inr vp \<Longrightarrow> \<not> (arg = 0x1F \<or> 28 \<le> arg \<and> arg \<le> 30)"
  by (auto simp: read_argument_def word_le_nat_alt split: if_splits)

lemma head_bounds:
  assumes "read_u8 cbor pos = Inr (b, p)" and "read_argument cbor p arg off = Inr (v, p')"
  shows "pos < p' \<and> p' \<le> length cbor"
  using read_argument_bounds [OF assms(2)] assms(1) by (auto simp: read_u8_iff)

lemma key_bounds: "read_uint_key cbor pos = Inr (k, p) \<Longrightarrow> pos < p \<and> p \<le> length cbor"
  using read_argument_bounds by (fastforce simp: read_uint_key_iff)

text \<open>The walker and its time function branch alike.\<close>

lemma T_walk_item_cases:
  obtains
    (leaf) "T_walk_item cbor pos d = 1"
      "\<And>p'. walk_item cbor pos d = Inr p' \<Longrightarrow> pos < p' \<and> p' \<le> length cbor"
  | (arr) b p n p1 where "\<not> MAX_NESTING_DEPTH < d" "read_u8 cbor pos = Inr (b, p)"
      "\<not> (info_of b = 0x1F \<or> 28 \<le> info_of b \<and> info_of b \<le> 30)"
      "read_argument cbor p (info_of b) pos = Inr (n, p1)" "major_of b = 4"
      "T_walk_item cbor pos d = 1 + T_walk_array cbor p1 (d + 1) (unat n)"
      "walk_item cbor pos d = walk_array cbor p1 (d + 1) (unat n)"
  | (dict) b p n p1 where "\<not> MAX_NESTING_DEPTH < d" "read_u8 cbor pos = Inr (b, p)"
      "\<not> (info_of b = 0x1F \<or> 28 \<le> info_of b \<and> info_of b \<le> 30)"
      "read_argument cbor p (info_of b) pos = Inr (n, p1)" "major_of b \<noteq> 4" "major_of b = 5"
      "T_walk_item cbor pos d = 1 + T_walk_map cbor p1 (d + 1) None (unat n)"
      "walk_item cbor pos d = walk_map cbor p1 (d + 1) None (unat n)"
proof (cases "\<exists>b p n p1. \<not> MAX_NESTING_DEPTH < d \<and> read_u8 cbor pos = Inr (b, p) \<and>
    \<not> (info_of b = 0x1F \<or> 28 \<le> info_of b \<and> info_of b \<le> 30) \<and>
    read_argument cbor p (info_of b) pos = Inr (n, p1) \<and> (major_of b = 4 \<or> major_of b = 5)")
  case True
  then obtain b p n p1 where r: "\<not> MAX_NESTING_DEPTH < d" "read_u8 cbor pos = Inr (b, p)"
      "\<not> (info_of b = 0x1F \<or> 28 \<le> info_of b \<and> info_of b \<le> 30)"
      "read_argument cbor p (info_of b) pos = Inr (n, p1)" and m: "major_of b = 4 \<or> major_of b = 5" by blast
  note eqs = T_walk_item.simps [of cbor pos d] walk_item.simps [of cbor pos d]
  from m show ?thesis
  proof
    assume m4: "major_of b = 4"
    show ?thesis using r(3) by (intro arr [OF r m4]) (auto simp: eqs r(1,2,4) m4 Let_def)
  next
    assume m5: "major_of b = 5"
    then have m4: "major_of b \<noteq> 4" by simp
    show ?thesis using r(3) by (intro dict [OF r m4 m5]) (auto simp: eqs r(1,2,4) m5 Let_def)
  qed
next
  case False
  show ?thesis
  proof (rule leaf)
    show "T_walk_item cbor pos d = 1"
      using False by (subst T_walk_item.simps) (auto simp: Let_def split: sum.splits)
    fix p' assume "walk_item cbor pos d = Inr p'"
    then show "pos < p' \<and> p' \<le> length cbor"
    proof (cases rule: walk_item_InrE)
      case (number v)
      then show ?thesis using read_argument_bounds by fastforce
    next
      case (str len p)
      then show ?thesis using read_argument_bounds by fastforce
    next
      case (arr n p)
      with False read_argument_info [OF this(4)] show ?thesis by (auto simp: read_u8_iff not_less)
    next
      case (dict n p)
      with False read_argument_info [OF this(4)] show ?thesis by (auto simp: read_u8_iff not_less)
    qed auto
  qed
qed

text \<open>
  An accepted item of \<open>n\<close> bytes costs less than \<open>3 * n\<close> calls; a rejected one no more than three per
  byte that was left, and one. A loop may cost one or two calls more. \<open>r\<close> is the walker's result and
  \<open>t\<close> the number of calls, for an input of length \<open>l\<close>.
\<close>

definition item_cost :: "nat \<Rightarrow> nat \<Rightarrow> CanonicalError + nat \<Rightarrow> nat \<Rightarrow> bool" where
  "item_cost l pos r t \<longleftrightarrow> t \<le> 3 * (l - pos) + 1 \<and>
     (\<forall>p'. r = Inr p' \<longrightarrow> pos < p' \<and> p' \<le> l \<and> t < 3 * (p' - pos))"

definition loop_cost :: "nat \<Rightarrow> nat \<Rightarrow> CanonicalError + nat \<Rightarrow> nat \<Rightarrow> bool" where
  "loop_cost l pos r t \<longleftrightarrow> t \<le> 3 * (l - pos) + 2 \<and>
     (\<forall>p'. r = Inr p' \<longrightarrow> pos \<le> p' \<and> p' \<le> l \<and> t \<le> 3 * (p' - pos) + 1)"

lemma leaf_cost: "(\<And>p'. r = Inr p' \<Longrightarrow> pos < p' \<and> p' \<le> l) \<Longrightarrow> item_cost l pos r 1"
  by (fastforce simp: item_cost_def)

lemma container_cost:
  assumes "pos < p" and "p \<le> l" and "loop_cost l p r t"
  shows "item_cost l pos r (1 + t)"
  using assms unfolding item_cost_def loop_cost_def by (cases r) auto

lemma loop_end_cost: "pos \<le> l \<Longrightarrow> loop_cost l pos (Inr pos) (Suc 0)" "loop_cost l pos (Inl e) (Suc 0)"
  by (simp_all add: loop_cost_def)

lemma round_cost:
  assumes "pos \<le> p" and "p \<le> l" and "item_cost l p r t"
    and "\<And>q. r = Inr q \<Longrightarrow> q \<le> l \<Longrightarrow> loop_cost l q (f q) (g q)"
  shows "loop_cost l pos (bindE r f) (1 + (t + (case r of Inl _ \<Rightarrow> 0 | Inr q \<Rightarrow> g q)))"
proof (cases r)
  case (Inl e)
  with assms(1-3) show ?thesis by (simp add: item_cost_def loop_cost_def)
next
  case (Inr q)
  with assms(3) have q: "p < q" "q \<le> l" "t < 3 * (q - p)" by (simp_all add: item_cost_def)
  with assms(4) [OF Inr] have "loop_cost l q (f q) (g q)" by simp
  with q assms(1) Inr show ?thesis unfolding loop_cost_def by (cases "f q") auto
qed

lemma walk_cost:
  "pos \<le> length cbor \<Longrightarrow> item_cost (length cbor) pos (walk_item cbor pos d) (T_walk_item cbor pos d)"
  "pos \<le> length cbor \<Longrightarrow> loop_cost (length cbor) pos (walk_array cbor pos d n) (T_walk_array cbor pos d n)"
  "pos \<le> length cbor \<Longrightarrow> loop_cost (length cbor) pos (walk_map cbor pos d prev n) (T_walk_map cbor pos d prev n)"
proof (induction cbor pos d and cbor pos d n and cbor pos d prev n
    rule: T_walk_item_T_walk_array_T_walk_map.induct)
  case (1 cbor pos d)
  show ?case
  proof (cases rule: T_walk_item_cases [of cbor pos d])
    case leaf
    then show ?thesis using leaf_cost by metis
  next
    case (arr b p n p1)
    then have p1: "pos < p1" "p1 \<le> length cbor" using head_bounds by blast+
    from 1(1) [OF arr(1,2) refl refl refl arr(3,4) refl arr(5) p1(2)] show ?thesis
      unfolding arr(6,7) by (rule container_cost [OF p1])
  next
    case (dict b p n p1)
    then have p1: "pos < p1" "p1 \<le> length cbor" using head_bounds by blast+
    from 1(2) [OF dict(1,2) refl refl refl dict(3,4) refl dict(5,6) p1(2)] show ?thesis
      unfolding dict(7,8) by (rule container_cost [OF p1])
  qed
next
  case (2 cbor pos d n)
  show ?case
  proof (cases "n = 0")
    case False
    from round_cost [OF order_refl 2(3) 2(1) [OF False 2(3)] 2(2) [OF False]] False show ?thesis
      by (simp add: T_walk_array.simps [of cbor pos d n] walk_array.simps [of cbor pos d n])
  qed (simp add: T_walk_array.simps [of cbor pos] walk_array.simps [of cbor pos] loop_end_cost 2(3))
next
  case (3 cbor pos d prev n)
  note eqs = T_walk_map.simps [of cbor pos d prev n] walk_map.simps [of cbor pos d prev n]
  show ?case
  proof (cases "n = 0")
    case True
    then show ?thesis
      by (simp add: T_walk_map.simps [of cbor pos] walk_map.simps [of cbor pos] loop_end_cost 3(3))
  next
    case n: False
    show ?thesis
    proof (cases "read_uint_key cbor pos")
      case (Inl e)
      then show ?thesis using n by (simp add: eqs loop_end_cost)
    next
      case (Inr kp)
      obtain k p where k: "read_uint_key cbor pos = Inr (k, p)" using Inr by (cases kp) auto
      let ?stop = "case prev of Some q \<Rightarrow> k \<le> q | None \<Rightarrow> False"
      show ?thesis
      proof (cases ?stop)
        case True
        then obtain q where "prev = Some q" "k \<le> q" by (auto split: option.splits)
        then show ?thesis using n k
          by (simp add: T_walk_map.simps [of cbor pos] walk_map.simps [of cbor pos] loop_end_cost)
      next
        case False
        have p: "pos \<le> p" "p \<le> length cbor" using key_bounds [OF k] by auto
        have "loop_cost (length cbor) pos
          (bindE (walk_item cbor p d) (\<lambda>p. walk_map cbor p d (Some k) (n - 1)))
          (1 + (T_walk_item cbor p d + (case walk_item cbor p d of Inl _ \<Rightarrow> 0 | Inr q \<Rightarrow> T_walk_map cbor q d (Some k) (n - 1))))"
          by (rule round_cost [OF p]) (use 3(1,2) [OF n k refl False] p in auto)
        moreover have "walk_map cbor pos d prev n = bindE (walk_item cbor p d) (\<lambda>p. walk_map cbor p d (Some k) (n - 1))"
          using n k False by (auto simp: eqs split: option.splits)
        ultimately show ?thesis using n k False by (simp add: eqs(1))
      qed
    qed
  qed
qed

text \<open>
  C29: the work of the gate is linear in the length of the payload, whatever counts its heads
  claim: the walker makes at most three calls per byte, and one.
\<close>
theorem gate_work_linear: "T_walk_item cbor 0 0 \<le> 3 * length cbor + 1"
  using walk_cost(1) [of 0 cbor 0] by (simp add: item_cost_def)

end
