(* ===== verification/Canonical_Prefix.thy ===== *)
theory Canonical_Prefix
  imports Canonical_Cost
begin

text \<open>
  The gate on a prefix of its input. The walker looks at the bytes from left to right and keeps no
  other state, so on the first \<open>n\<close> bytes it does what it does on the whole input, or stops with
  \<open>Truncated\<close>; \<open>cut\<close> relates the two results. Hence a verdict is final: more bytes cannot change an
  error other than \<open>Truncated\<close>, and an accepted payload is no longer accepted with a byte missing.
\<close>

section \<open>Results on a prefix\<close>

text \<open>\<open>at x\<close> is the position that the result \<open>x\<close> leaves.\<close>

definition cut :: "nat \<Rightarrow> ('a \<Rightarrow> nat) \<Rightarrow> CanonicalError + 'a \<Rightarrow> CanonicalError + 'a \<Rightarrow> bool" where
  "cut n at r r' \<longleftrightarrow>
     (case r of
        Inl e \<Rightarrow> r' = Inl e \<or> (\<exists>off. r' = Inl (Truncated off))
      | Inr x \<Rightarrow> if at x \<le> n then r' = Inr x else \<exists>off. r' = Inl (Truncated off))"

lemma cut_error [intro, simp]: "cut n at (Inl e) (Inl e)"
  by (simp add: cut_def)

lemma cut_if:
  "(c \<Longrightarrow> cut n at a a') \<Longrightarrow> (\<not> c \<Longrightarrow> cut n at b b') \<Longrightarrow> cut n at (if c then a else b) (if c then a' else b')"
  by simp

lemma cut_done: "at x \<le> n \<Longrightarrow> cut n at (Inr x) (Inr x)"
  by (simp add: cut_def)

lemma cut_bind:
  assumes "cut n at r r'"
    and "\<And>x. r = Inr x \<Longrightarrow> at x \<le> n \<Longrightarrow> cut n at' (f x) (f' x)"
    and "\<And>x y. r = Inr x \<Longrightarrow> bindE r f = Inr y \<Longrightarrow> at x \<le> at' y"
  shows "cut n at' (bindE r f) (bindE r' f')"
proof (cases r)
  case (Inl e)
  with assms(1) show ?thesis by (auto simp: cut_def)
next
  case (Inr x)
  show ?thesis
  proof (cases "at x \<le> n")
    case True
    with Inr assms(1) have "r' = Inr x" by (simp add: cut_def)
    with Inr True assms(2) show ?thesis by simp
  next
    case False
    with Inr assms(1) obtain off where r': "r' = Inl (Truncated off)" by (auto simp: cut_def)
    show ?thesis
    proof (cases "f x")
      case (Inr y)
      with assms(3) [OF \<open>r = Inr x\<close>, of y] False r' \<open>r = Inr x\<close> show ?thesis by (fastforce simp: cut_def)
    qed (use r' Inr in \<open>simp add: cut_def\<close>)
  qed
qed

lemma cut_bind_eq:
  assumes "w = bindE r f" and "w' = bindE r' f'" and "cut n at r r'"
    and "\<And>x. r = Inr x \<Longrightarrow> at x \<le> n \<Longrightarrow> cut n at' (f x) (f' x)"
    and "\<And>x y. r = Inr x \<Longrightarrow> w = Inr y \<Longrightarrow> at x \<le> at' y"
  shows "cut n at' w w'"
  using cut_bind [OF assms(3,4)] assms(1,2,5) by auto

section \<open>Readers\<close>

lemma cut_u8: "cut n snd (read_u8 cbor p) (read_u8 (take n cbor) p)"
  by (auto simp: read_u8_def cut_def)

lemma cut_u16: "cut n snd (read_u16_be cbor p) (read_u16_be (take n cbor) p)"
  by (auto simp: read_u16_be_def cut_def)

lemma cut_u32: "cut n snd (read_u32_be cbor p) (read_u32_be (take n cbor) p)"
  by (auto simp: read_u32_be_def cut_def)

lemma cut_u64: "cut n snd (read_u64_be cbor p) (read_u64_be (take n cbor) p)"
proof (cases "p + 8 \<le> n")
  case True
  then have "take 8 (drop p (take n cbor)) = take 8 (drop p cbor)"
    by (simp add: drop_take min_def)
  with True show ?thesis by (auto simp: read_u64_be_def cut_def)
qed (auto simp: read_u64_be_def cut_def)

lemma cut_skip: "cut n (\<lambda>p. p) (skip_bytes cbor p k) (skip_bytes (take n cbor) p k)"
  by (auto simp: skip_bytes_def cut_def)

lemma cut_argument:
  assumes "p \<le> n"
  shows "cut n snd (read_argument cbor p arg off) (read_argument (take n cbor) p arg off)"
proof -
  have step: "cut n snd (bindE r (\<lambda>(b, q). if c b then Inl e else Inr (g b, q)))
      (bindE r' (\<lambda>(b, q). if c b then Inl e else Inr (g b, q)))"
    if "cut n snd r r'" for r r' :: "CanonicalError + 'a \<times> nat" and c g e
    by (rule cut_bind [OF that]) (auto simp: cut_done split: if_splits)
  from assms show ?thesis
    by (auto simp: read_argument_def Let_def cut_done intro!: step cut_u8 cut_u16 cut_u32 cut_u64)
qed

lemma argument_mono: "read_argument cbor p arg off = Inr (v, q) \<Longrightarrow> p \<le> q"
  by (cases rule: read_argument_cases) auto

lemma cut_key: "cut n snd (read_uint_key cbor pos) (read_uint_key (take n cbor) pos)"
  unfolding read_uint_key_def
  by (rule cut_bind [OF cut_u8]) (auto simp: Let_def intro!: cut_argument dest!: argument_mono split: if_splits)

section \<open>The walker\<close>

lemma item_mono: "walk_item cbor pos d = Inr q \<Longrightarrow> pos < q \<and> q \<le> length cbor"
proof -
  assume w: "walk_item cbor pos d = Inr q"
  then have "pos < length cbor" by (cases rule: walk_item_InrE) auto
  with w walk_cost(1) [of pos cbor d] show ?thesis by (simp add: item_cost_def)
qed

lemma array_mono: "walk_array cbor pos d c = Inr q \<Longrightarrow> pos \<le> q"
proof (induction c arbitrary: pos)
  case (Suc c)
  then obtain p where "walk_item cbor pos d = Inr p" "walk_array cbor p d c = Inr q"
    by (auto simp: walk_array.simps [of cbor pos] bindE_Inr_iff)
  with Suc.IH [of p] item_mono [of cbor pos d p] show ?case by simp
qed (simp add: walk_array.simps)

lemma map_unfold:
  "walk_map cbor pos d prev (Suc c) = bindE (read_uint_key cbor pos) (\<lambda>(k, p).
     if (case prev of Some q \<Rightarrow> k \<le> q | None \<Rightarrow> False) then
       Inl (if prev = Some k then DuplicateKey k pos else KeysOutOfOrder pos)
     else bindE (walk_item cbor p d) (\<lambda>p. walk_map cbor p d (Some k) c))"
  by (subst walk_map.simps) (auto intro!: bindE_cong split: option.splits)

lemma map_mono: "walk_map cbor pos d prev c = Inr q \<Longrightarrow> pos \<le> q"
proof (induction c arbitrary: pos prev)
  case (Suc c)
  then obtain k p p' where "read_uint_key cbor pos = Inr (k, p)" "walk_item cbor p d = Inr p'"
      "walk_map cbor p' d (Some k) c = Inr q"
    by (auto simp: map_unfold bindE_Inr_iff split: if_splits)
  with Suc.IH [of p'] key_bounds item_mono show ?case by (meson le_trans less_imp_le)
qed (simp add: walk_map.simps)

definition item_cut :: "nat \<Rightarrow> bytes \<Rightarrow> nat \<Rightarrow> bool" where
  "item_cut n cbor d \<longleftrightarrow> (\<forall>pos. cut n (\<lambda>p. p) (walk_item cbor pos d) (walk_item (take n cbor) pos d))"

lemma cut_array:
  assumes "item_cut n cbor d"
  shows "pos \<le> n \<Longrightarrow> cut n (\<lambda>p. p) (walk_array cbor pos d c) (walk_array (take n cbor) pos d c)"
proof (induction c arbitrary: pos)
  case 0
  then show ?case by (simp add: walk_array.simps [of _ pos] cut_done)
next
  case (Suc c)
  have "cut n (\<lambda>p. p) (bindE (walk_item cbor pos d) (\<lambda>p. walk_array cbor p d c))
      (bindE (walk_item (take n cbor) pos d) (\<lambda>p. walk_array (take n cbor) p d c))"
    by (rule cut_bind [where at = "\<lambda>p. p"]) (use assms Suc.IH array_mono in \<open>auto simp: item_cut_def\<close>)
  then show ?case by (simp add: walk_array.simps [of _ pos])
qed

lemma cut_map:
  assumes "item_cut n cbor d"
  shows "pos \<le> n \<Longrightarrow> cut n (\<lambda>p. p) (walk_map cbor pos d prev c) (walk_map (take n cbor) pos d prev c)"
proof (induction c arbitrary: pos prev)
  case 0
  then show ?case by (simp add: walk_map.simps [of _ pos] cut_done)
next
  case (Suc c)
  have entry: "cut n (\<lambda>p. p) (bindE (walk_item cbor p d) (\<lambda>p. walk_map cbor p d (Some k) c))
      (bindE (walk_item (take n cbor) p d) (\<lambda>p. walk_map (take n cbor) p d (Some k) c))" for p k
    by (rule cut_bind [where at = "\<lambda>p. p"]) (use assms Suc.IH map_mono in \<open>auto simp: item_cut_def\<close>)
  have mono: "bindE (walk_item cbor p d) (\<lambda>p. walk_map cbor p d (Some k) c) = Inr q \<Longrightarrow> p \<le> q" for p k q
    using item_mono map_mono by (fastforce simp: bindE_Inr_iff)
  show ?case
    unfolding map_unfold by (rule cut_bind [OF cut_key]) (use entry mono in \<open>auto split: if_splits\<close>)
qed

text \<open>A head and what follows it; \<open>f\<close> continues behind the head.\<close>

lemma cut_head:
  assumes "p \<le> n" and "\<And>v q. q \<le> n \<Longrightarrow> cut n (\<lambda>p. p) (f (v, q)) (f' (v, q))"
    and "\<And>v q y. f (v, q) = Inr y \<Longrightarrow> q \<le> y"
  shows "cut n (\<lambda>p. p) (bindE (read_argument cbor p arg off) f) (bindE (read_argument (take n cbor) p arg off) f')"
  by (rule cut_bind [OF cut_argument [OF assms(1)]]) (use assms(2,3) in auto)

lemma cut_item_step:
  assumes "item_cut n cbor (d + 1)"
  shows "item_cut n cbor d"
  unfolding item_cut_def
proof
  fix pos
  show "cut n (\<lambda>p. p) (walk_item cbor pos d) (walk_item (take n cbor) pos d)"
  proof (cases "MAX_NESTING_DEPTH < d")
    case False
    note eq = walk_item.simps [of _ pos d, unfolded if_not_P [OF False]]
    show ?thesis
    proof (rule cut_bind_eq [OF eq eq cut_u8])
      fix x y assume "read_u8 cbor pos = Inr x" "walk_item cbor pos d = Inr y"
      with item_mono [of cbor pos d y] show "snd x \<le> y" by (auto simp: read_u8_def split: if_splits)
    qed (simp only: split_beta Let_def, intro cut_if cut_error cut_done cut_head, use cut_skip
        cut_array [OF assms] cut_map [OF assms] in \<open>auto simp: skip_bytes_iff cut_done array_mono map_mono\<close>)
  qed (simp add: walk_item.simps [of _ pos d])
qed

lemma item_cut: "item_cut n cbor d"
proof (induction "MAX_NESTING_DEPTH + 1 - d" arbitrary: d)
  case 0
  then show ?case by (simp add: item_cut_def walk_item.simps [of _ _ d])
next
  case (Suc k)
  then show ?case by (auto intro!: cut_item_step [of n cbor d])
qed

section \<open>Where errors point\<close>

fun error_offset :: "CanonicalError \<Rightarrow> nat" where
  "error_offset (Truncated n) = n"
| "error_offset (NestingTooDeep n) = n"
| "error_offset (IndefiniteLength n) = n"
| "error_offset (NonShortestForm n) = n"
| "error_offset (NonUintKey n) = n"
| "error_offset (KeysOutOfOrder n) = n"
| "error_offset (DuplicateKey _ n) = n"
| "error_offset (TaggedItem _ n) = n"
| "error_offset (FloatForbidden n) = n"
| "error_offset (InvalidSimpleValue _ n) = n"
| "error_offset (TrailingBytes n) = n"
| "error_offset (ReservedArgument n) = n"

text \<open>The walker stays within \<open>l\<close> bytes, in its results and its errors, and leaves \<open>TrailingBytes\<close> to its caller.\<close>

definition within :: "nat \<Rightarrow> ('a \<Rightarrow> nat) \<Rightarrow> CanonicalError + 'a \<Rightarrow> bool" where
  "within l at r \<longleftrightarrow>
     (case r of Inl e \<Rightarrow> error_offset e \<le> l \<and> (\<forall>p. e \<noteq> TrailingBytes p) | Inr x \<Rightarrow> at x \<le> l)"

lemma within_bind:
  assumes "within l at r" and "\<And>x. at x \<le> l \<Longrightarrow> within l at' (f x)"
  shows "within l at' (bindE r f)"
  using assms by (cases r) (auto simp: within_def)

lemma within_if: "(c \<Longrightarrow> within l at a) \<Longrightarrow> (\<not> c \<Longrightarrow> within l at b) \<Longrightarrow> within l at (if c then a else b)"
  by simp

lemma within_readers:
  assumes "p \<le> length cbor"
  shows "within (length cbor) snd (read_u8 cbor p)" "within (length cbor) snd (read_u16_be cbor p)"
    "within (length cbor) snd (read_u32_be cbor p)" "within (length cbor) snd (read_u64_be cbor p)"
    "within (length cbor) (\<lambda>p. p) (skip_bytes cbor p n)"
  using assms by (simp_all add: within_def read_u8_def read_u16_be_def read_u32_be_def read_u64_be_def skip_bytes_def)

lemma within_argument:
  assumes "p \<le> length cbor" and "off \<le> length cbor"
  shows "within (length cbor) snd (read_argument cbor p arg off)"
proof -
  have step: "within (length cbor) snd (bindE r (\<lambda>(b, q). if c b then Inl (NonShortestForm off) else Inr (g b, q)))"
    if "within (length cbor) snd r" for r :: "CanonicalError + 'a \<times> nat" and c g
    by (rule within_bind [OF that]) (use assms in \<open>auto simp: within_def\<close>)
  from assms show ?thesis
    by (auto simp: read_argument_def Let_def intro!: step within_readers) (simp_all add: within_def)
qed

lemma within_key:
  assumes "pos \<le> length cbor"
  shows "within (length cbor) snd (read_uint_key cbor pos)"
  unfolding read_uint_key_def using assms
  by (auto intro!: within_bind [OF within_readers(1)] within_argument simp: Let_def within_def [of _ _ "Inl _"])

definition item_within :: "bytes \<Rightarrow> nat \<Rightarrow> bool" where
  "item_within cbor d \<longleftrightarrow> (\<forall>pos\<le>length cbor. within (length cbor) (\<lambda>p. p) (walk_item cbor pos d))"

lemma within_array:
  assumes "item_within cbor d"
  shows "pos \<le> length cbor \<Longrightarrow> within (length cbor) (\<lambda>p. p) (walk_array cbor pos d c)"
proof (induction c arbitrary: pos)
  case (Suc c)
  then show ?case
    using assms by (auto simp: walk_array.simps [of _ pos] item_within_def intro!: within_bind [where at = "\<lambda>p. p"])
qed (simp add: walk_array.simps within_def)

lemma within_map:
  assumes "item_within cbor d"
  shows "pos \<le> length cbor \<Longrightarrow> within (length cbor) (\<lambda>p. p) (walk_map cbor pos d prev c)"
proof (induction c arbitrary: pos prev)
  case (Suc c)
  have entry: "within (length cbor) (\<lambda>p. p) (bindE (walk_item cbor p d) (\<lambda>p. walk_map cbor p d (Some k) c))"
    if "p \<le> length cbor" for p k
    by (rule within_bind [where at = "\<lambda>p. p"]) (use assms that Suc.IH in \<open>auto simp: item_within_def\<close>)
  show ?case
    unfolding map_unfold
    by (rule within_bind [OF within_key [OF Suc.prems]])
      (use entry Suc.prems in \<open>auto simp: within_def [of _ _ "Inl _"]\<close>)
qed (simp add: walk_map.simps within_def)

lemma within_item_step:
  assumes "item_within cbor (d + 1)"
  shows "item_within cbor d"
  unfolding item_within_def
proof (intro allI impI)
  fix pos assume pos: "pos \<le> length cbor"
  have head: "within (length cbor) (\<lambda>p. p) (bindE (read_argument cbor p arg pos) f)"
    if "p \<le> length cbor" "\<And>v q. q \<le> length cbor \<Longrightarrow> within (length cbor) (\<lambda>p. p) (f (v, q))" for p arg f
    by (rule within_bind [OF within_argument [OF that(1) pos]]) (use that(2) in auto)
  have leaf: "within (length cbor) (\<lambda>p. p) (Inr p)" if "p \<le> length cbor" for p
    using that by (simp add: within_def)
  have error: "within (length cbor) (\<lambda>p. p) (Inl e)" if "error_offset e = pos" "\<And>p. e \<noteq> TrailingBytes p" for e
    using that pos by (simp add: within_def)
  show "within (length cbor) (\<lambda>p. p) (walk_item cbor pos d)"
    by (subst walk_item.simps)
      (intro within_if error within_bind [OF within_readers(1) [OF pos]];
        (simp only: split_beta Let_def, intro within_if error head leaf)?;
        use within_readers(5) within_array [OF assms] within_map [OF assms] leaf error in simp)
qed

lemma item_within: "item_within cbor d"
proof (induction "MAX_NESTING_DEPTH + 1 - d" arbitrary: d)
  case 0
  then show ?case by (simp add: item_within_def walk_item.simps [of _ _ d] within_def)
next
  case (Suc k)
  then show ?case by (auto intro!: within_item_step [of cbor d])
qed

lemma no_trailing: "walk_item cbor 0 0 \<noteq> Inl (TrailingBytes p)"
  using item_within [of cbor 0] by (auto simp: item_within_def within_def split: sum.splits dest!: spec [of _ 0])

lemma offset_within:
  assumes "validate_canonical cbor = Inl e"
  shows "error_offset e \<le> length cbor"
proof -
  have "within (length cbor) (\<lambda>p. p) (walk_item cbor 0 0)"
    using item_within [of cbor 0] by (simp add: item_within_def)
  with assms show ?thesis
    by (cases "walk_item cbor 0 0") (auto simp: validate_canonical_def within_def split: if_splits)
qed

section \<open>The verdict of the gate\<close>

lemma walk_take:
  "walk_item cbor 0 0 = Inr p \<Longrightarrow>
     walk_item (take n cbor) 0 0 = Inr p \<and> p \<le> n \<or> (\<exists>off. walk_item (take n cbor) 0 0 = Inl (Truncated off)) \<and> n < p"
  using item_cut [of n cbor 0, unfolded item_cut_def, rule_format, of 0] by (auto simp: cut_def split: if_splits)

lemma walk_append:
  assumes "walk_item cbor 0 0 = r" and "\<And>off. r \<noteq> Inl (Truncated off)"
  shows "walk_item (cbor @ more) 0 0 = r"
proof -
  have "cut (length cbor) (\<lambda>p. p) (walk_item (cbor @ more) 0 0) (walk_item cbor 0 0)"
    using item_cut [of "length cbor" "cbor @ more" 0] by (simp add: item_cut_def)
  with assms show ?thesis by (auto simp: cut_def split: sum.splits if_splits)
qed

lemma accepted_iff: "validate_canonical cbor = Inr () \<longleftrightarrow> walk_item cbor 0 0 = Inr (length cbor)"
  by (auto simp: validate_canonical_def bindE_Inr_iff split: if_splits)

lemma accepted_prefix_truncated:
  assumes "validate_canonical cbor = Inr ()" and "n < length cbor"
  shows "\<exists>off. validate_canonical (take n cbor) = Inl (Truncated off)"
proof -
  from assms(1) have "walk_item cbor 0 0 = Inr (length cbor)" by (simp only: accepted_iff)
  with walk_take [of cbor "length cbor" n] assms(2) show ?thesis by (auto simp: validate_canonical_def)
qed

lemma refused_final:
  assumes "validate_canonical cbor = Inl e" and "\<And>off. e \<noteq> Truncated off"
  shows "validate_canonical (cbor @ more) = Inl e"
proof (cases "walk_item cbor 0 0")
  case (Inl e')
  with assms have "e' = e" by (simp add: validate_canonical_def)
  with walk_append [OF Inl, of more] assms show ?thesis by (simp add: validate_canonical_def)
next
  case (Inr p)
  with assms have e: "p \<noteq> length cbor" "e = TrailingBytes p" by (auto simp: validate_canonical_def split: if_splits)
  moreover have "p \<le> length cbor" using item_mono [OF Inr] by simp
  ultimately show ?thesis using walk_append [OF Inr, of more] by (simp add: validate_canonical_def)
qed

lemma trailing_prefix_accepted:
  assumes "validate_canonical cbor = Inl (TrailingBytes p)"
  shows "p < length cbor \<and> validate_canonical (take p cbor) = Inr ()"
proof -
  from assms no_trailing [of cbor] have "walk_item cbor 0 0 = Inr p" "p \<noteq> length cbor"
    by (cases "walk_item cbor 0 0"; simp add: validate_canonical_def split: if_splits)+
  with item_mono [of cbor 0 0 p] walk_take [of cbor p p] show ?thesis by (auto simp: accepted_iff)
qed

text \<open>
  C16: the verdict of the gate is final and its errors point into the input: with any byte missing,
  an accepted payload is reported as truncated; a payload refused with another error than
  \<open>Truncated\<close> is refused with the same error however it goes on; \<open>TrailingBytes\<close> names the length of
  the part that is a payload; and the offset of every error lies within the input.
\<close>
theorem gate_verdict_final:
  "(validate_canonical cbor = Inr () \<longrightarrow>
      (\<forall>n < length cbor. \<exists>off \<le> n. validate_canonical (take n cbor) = Inl (Truncated off))) \<and>
   (\<forall>e. validate_canonical cbor = Inl e \<longrightarrow>
      error_offset e \<le> length cbor \<and>
      (\<forall>more. validate_canonical (cbor @ more) = Inl e \<or> (\<exists>off. e = Truncated off)) \<and>
      (\<forall>p. e = TrailingBytes p \<longrightarrow> validate_canonical (take p cbor) = Inr ()))"
proof (intro conjI allI impI)
  fix n assume a: "validate_canonical cbor = Inr ()" "n < length cbor"
  then obtain off where t: "validate_canonical (take n cbor) = Inl (Truncated off)"
    using accepted_prefix_truncated by blast
  with offset_within [OF t] a show "\<exists>off \<le> n. validate_canonical (take n cbor) = Inl (Truncated off)" by auto
qed (use offset_within refused_final trailing_prefix_accepted in blast)+

theorem gate_verdict_final_witness:
  "(\<exists>off. validate_canonical (take 1 [0x81, 0x00]) = Inl (Truncated off)) \<and>
   validate_canonical ([0x18, 0x01] @ [0x07]) = Inl (NonShortestForm 0)"
proof -
  have a: "validate_canonical [0x81, 0x00] = Inr ()" and b: "validate_canonical [0x18, 0x01] = Inl (NonShortestForm 0)"
    by code_simp+
  note final = gate_verdict_final [THEN conjunct1, rule_format, OF a, of 1]
    gate_verdict_final [THEN conjunct2, rule_format, OF b, THEN conjunct2, THEN conjunct1, rule_format, of "[0x07]"]
  from final(1) have "\<exists>off. validate_canonical (take 1 [0x81, 0x00]) = Inl (Truncated off)" by auto
  moreover from final(2) have "validate_canonical ([0x18, 0x01] @ [0x07]) = Inl (NonShortestForm 0)"
    by (metis CanonicalError.distinct(5))
  ultimately show ?thesis by (rule conjI)
qed

end
