(* ===== verification/Request_Auth.thy ===== *)
theory Request_Auth
  imports Utf8 Ordered_Map "HOL-Library.List_Lexorder"
begin

text \<open>
  Per-caller request authentication (\<open>crypto/src/request_auth.rs\<close>). Parameters: \<open>hmac key msg\<close>
  (HMAC-SHA-256, 32 bytes), \<open>hex_string\<close> and \<open>hex_decode src n\<close> (the \<open>faster_hex\<close> functions; the
  decoder fills a buffer of \<open>n\<close> bytes or fails), and the system clock as \<open>now\<close>: the seconds since
  the epoch, \<open>None\<close> when the clock is before it. Strings are their UTF-8 bytes and the secrets are
  a \<open>BTreeMap\<close>. \<open>now - ts\<close> wraps at 64 bits, as in a build without overflow checks.
\<close>

datatype RequestAuthError =
    MissingCaller
  | MissingTimestamp
  | MissingSignature
  | MalformedTimestamp
  | MalformedSignature
  | ClockSkew
  | TimestampDrift u64 u64
  | EmptyCaller
  | UnknownCaller
  | HmacMismatch

definition canonical_input :: "bytes \<Rightarrow> bytes \<Rightarrow> bytes \<Rightarrow> bytes \<Rightarrow> bytes \<Rightarrow> bytes" where
  "canonical_input caller ts_decimal method path body =
     caller @ [0x0A] @ ts_decimal @ [0x0A] @ method @ [0x0A] @ path @ [0x0A] @ body"

definition sign ::
  "(bytes \<Rightarrow> bytes \<Rightarrow> bytes) \<Rightarrow> (bytes \<Rightarrow> bytes) \<Rightarrow> bytes \<Rightarrow> bytes \<Rightarrow> bytes \<Rightarrow> bytes \<Rightarrow> bytes \<Rightarrow> bytes \<Rightarrow> bytes" where
  "sign hmac hex_string secret caller ts_decimal method path body =
     hex_string (hmac secret (canonical_input caller ts_decimal method path body))"

text \<open>\<open>str::parse::<i64>\<close>: an optional sign, at least one decimal digit, no overflow.\<close>

definition is_digit :: "u8 \<Rightarrow> bool" where
  "is_digit b \<longleftrightarrow> 0x30 \<le> b \<and> b \<le> 0x39"

definition digits_val :: "bytes \<Rightarrow> int option" where
  "digits_val ds = (if ds = [] \<or> \<not> (\<forall>d\<in>set ds. is_digit d) then None
     else Some (foldl (\<lambda>a d. a * 10 + (uint d - 0x30)) 0 ds))"

definition parse_i64 :: "bytes \<Rightarrow> int option" where
  "parse_i64 s =
     (case (case s of
              [] \<Rightarrow> None
            | b # r \<Rightarrow> if b = 0x2D then map_option uminus (digits_val r)
                      else if b = 0x2B then digits_val r
                      else digits_val s) of
        None \<Rightarrow> None
      | Some v \<Rightarrow> if - (2 ^ 63) \<le> v \<and> v < 2 ^ 63 then Some v else None)"

definition clock_drift :: "u64 \<Rightarrow> int \<Rightarrow> u64" where
  "clock_drift now ts = word_of_int \<bar>sint (now - word_of_int ts)\<bar>"

definition verify ::
  "(bytes \<Rightarrow> bytes \<Rightarrow> bytes) \<Rightarrow> (bytes \<Rightarrow> nat \<Rightarrow> bytes option) \<Rightarrow> u64 option \<Rightarrow>
     (bytes, bytes) btree_map \<Rightarrow> bytes \<Rightarrow> bytes \<Rightarrow> bytes \<Rightarrow>
     bytes option \<Rightarrow> bytes option \<Rightarrow> bytes option \<Rightarrow> u64 \<Rightarrow> RequestAuthError + bytes" where
  "verify hmac hex_decode system_time secrets method path body caller_header ts_header sig_header skew_secs =
     bindE (ok_or caller_header MissingCaller) (\<lambda>caller_raw.
     let caller = trim caller_raw in
     if caller = [] then Inl EmptyCaller else
     bindE (ok_or ts_header MissingTimestamp) (\<lambda>ts_str.
     bindE (ok_or sig_header MissingSignature) (\<lambda>sig_hex.
     bindE (ok_or (parse_i64 ts_str) MalformedTimestamp) (\<lambda>ts.
     bindE (ok_or system_time ClockSkew) (\<lambda>now.
     let drift = clock_drift now ts in
     if drift > skew_secs then Inl (TimestampDrift drift skew_secs) else
     bindE (ok_or (om_get secrets caller) UnknownCaller) (\<lambda>secret.
     let expected = hmac secret (canonical_input caller ts_str method path body) in
     bindE (ok_or (hex_decode (trim sig_hex) (length expected)) MalformedSignature) (\<lambda>actual.
     if expected = actual then Inr caller else Inl HmacMismatch)))))))"

section \<open>The signed bytes\<close>

lemma split_newline:
  "0x0A \<notin> set x \<Longrightarrow> 0x0A \<notin> set y \<Longrightarrow> x @ 0x0A # r = y @ 0x0A # s \<longleftrightarrow> x = y \<and> r = (s :: bytes)"
proof (induction x arbitrary: y)
  case Nil
  then show ?case by (cases y) auto
next
  case (Cons a x)
  then show ?case by (cases y) auto
qed

text \<open>The canonical input is unambiguous when the first four parts contain no newline.\<close>

lemma canonical_input_inject:
  assumes "0x0A \<notin> set (caller @ ts @ method @ path)" and "0x0A \<notin> set (caller' @ ts' @ method' @ path')"
  shows "canonical_input caller ts method path body = canonical_input caller' ts' method' path' body' \<longleftrightarrow>
     caller = caller' \<and> ts = ts' \<and> method = method' \<and> path = path' \<and> body = body'"
  using assms by (simp add: canonical_input_def split_newline)

section \<open>Verification\<close>

lemma verify_iff:
  "verify hmac hex_decode (Some now) secrets method path body caller_h ts_h sig_h skew = Inr c \<longleftrightarrow>
     (\<exists>raw ts_str sig_hex ts secret. caller_h = Some raw \<and> c = trim raw \<and> c \<noteq> [] \<and>
        ts_h = Some ts_str \<and> sig_h = Some sig_hex \<and> parse_i64 ts_str = Some ts \<and>
        clock_drift now ts \<le> skew \<and> om_get secrets c = Some secret \<and>
        hex_decode (trim sig_hex) (length (hmac secret (canonical_input c ts_str method path body)))
          = Some (hmac secret (canonical_input c ts_str method path body)))"
proof -
  have last: "(if e = a then Inr x else Inl HmacMismatch) = Inr c \<longleftrightarrow> e = a \<and> x = c"
    for e a x c :: bytes by simp
  show ?thesis
    by (cases caller_h; cases ts_h; cases sig_h)
      (auto simp: verify_def Let_def bindE_Inr_iff ok_or_Inr_iff if_Inl_Inr_iff last not_less
        split del: if_split)
qed

lemma parse_i64_bounds: "parse_i64 s = Some ts \<Longrightarrow> - (2 ^ 63) \<le> ts \<and> ts < 2 ^ 63"
  by (auto simp: parse_i64_def split: option.splits if_splits)

lemma sint_u64_small: "- (2 ^ 63) \<le> i \<Longrightarrow> i < 2 ^ 63 \<Longrightarrow> sint (word_of_int i :: u64) = i"
  by (simp add: signed_of_int signed_take_bit_int_eq_self)

lemma clock_drift_small:
  assumes now: "uint now < 2 ^ 62" and ts: "- (2 ^ 63) \<le> ts" "ts < 2 ^ 63"
    and skew: "uint skew < 2 ^ 62" and d: "clock_drift now ts \<le> skew"
  shows "\<bar>uint now - ts\<bar> \<le> uint skew"
proof -
  have p: "(2 :: int) ^ 64 = 4 * 2 ^ 62" "(2 :: int) ^ 63 = 2 * 2 ^ 62" "0 < (2 :: int) ^ 62"
    by simp_all
  have w: "now - word_of_int ts = (word_of_int (uint now - ts) :: u64)"
    by (simp add: word_of_int_uint ucast_id)
  show ?thesis
  proof (cases "uint now - ts < 2 ^ 63")
    case True
    then have s: "sint (now - word_of_int ts :: u64) = uint now - ts"
      unfolding w using ts unsigned_greater_eq [where 'a = int, of now] by (intro sint_u64_small) (use p in linarith)+
    have "\<bar>uint now - ts\<bar> < 2 ^ 64"
      using True ts p unsigned_greater_eq [where 'a = int, of now] by linarith
    then have "uint (clock_drift now ts) = \<bar>uint now - ts\<bar>"
      by (simp add: clock_drift_def s uint_word_of_int_eq take_bit_int_eq_self)
    with d show ?thesis by (simp add: word_le_def)
  next
    case False
    have "now - word_of_int ts = (word_of_int (uint now - ts - 2 ^ 64) :: u64)"
      unfolding w by (simp add: word_of_int_eq_iff take_bit_eq_mod)
    then have s: "sint (now - word_of_int ts :: u64) = uint now - ts - 2 ^ 64"
      using False now ts p by (simp only: sint_u64_small)
    have "\<bar>uint now - ts - 2 ^ 64\<bar> < 2 ^ 64" "2 ^ 62 < \<bar>uint now - ts - 2 ^ 64\<bar>"
      using False now ts p by linarith+
    then have "2 ^ 62 < uint (clock_drift now ts)"
      by (simp add: clock_drift_def s uint_word_of_int_eq take_bit_int_eq_self)
    with d skew show ?thesis by (simp add: word_le_def)
  qed
qed

text \<open>Below \<open>2 ^ 62\<close> seconds the wrapping arithmetic computes the distance.\<close>

lemma clock_drift_iff:
  assumes now: "uint now < 2 ^ 62" and ts: "- (2 ^ 63) \<le> ts" "ts < 2 ^ 63" and skew: "uint skew < 2 ^ 62"
  shows "clock_drift now ts \<le> skew \<longleftrightarrow> \<bar>uint now - ts\<bar> \<le> uint skew"
proof
  assume le: "\<bar>uint now - ts\<bar> \<le> uint skew"
  with skew have s: "\<bar>uint now - ts\<bar> < 2 ^ 62" by linarith
  have "now - word_of_int ts = (word_of_int (uint now - ts) :: u64)"
    by (simp add: word_of_int_uint ucast_id)
  with s have "sint (now - word_of_int ts :: u64) = uint now - ts"
    by (simp only:) (rule sint_u64_small; simp)
  with s have "uint (clock_drift now ts) = \<bar>uint now - ts\<bar>"
    by (simp add: clock_drift_def uint_word_of_int_eq take_bit_int_eq_self)
  with le show "clock_drift now ts \<le> skew" by (simp add: word_le_def)
qed (rule clock_drift_small [OF now ts skew])

text \<open>
  C21: an accepted request is authentic and fresh: the accepted caller is the trimmed header, its
  secret is registered, the signature header decodes to the HMAC under that secret of exactly
  this request, and the request's timestamp is within the allowed skew of the clock. (The bounds
  on the clock and the skew are \<open>2 ^ 62\<close> seconds.)
\<close>
theorem verify_sound:
  assumes "verify hmac hex_decode (Some now) secrets method path body caller_h ts_h sig_h skew = Inr c"
    and "uint now < 2 ^ 62" and "uint skew < 2 ^ 62"
  shows "\<exists>ts_str ts sig_hex secret. ts_h = Some ts_str \<and> parse_i64 ts_str = Some ts \<and> sig_h = Some sig_hex \<and>
     map_option trim caller_h = Some c \<and> om_get secrets c = Some secret \<and>
     hex_decode (trim sig_hex) (length (hmac secret (canonical_input c ts_str method path body)))
       = Some (hmac secret (canonical_input c ts_str method path body)) \<and>
     \<bar>uint now - ts\<bar> \<le> uint skew"
proof -
  from assms(1) obtain raw ts_str sig_hex ts secret where v: "caller_h = Some raw" "c = trim raw"
      "ts_h = Some ts_str" "sig_h = Some sig_hex" "parse_i64 ts_str = Some ts"
      "clock_drift now ts \<le> skew" "om_get secrets c = Some secret"
      "hex_decode (trim sig_hex) (length (hmac secret (canonical_input c ts_str method path body)))
          = Some (hmac secret (canonical_input c ts_str method path body))"
    unfolding verify_iff by blast
  have "\<bar>uint now - ts\<bar> \<le> uint skew"
    using clock_drift_small [OF assms(2) _ _ assms(3) v(6)] parse_i64_bounds [OF v(5)] by simp
  with v show ?thesis by auto
qed

lemma trim_gw: "trim [0x67, 0x77] = [0x67, 0x77]" "trim [0x61] = [0x61]"
  by (rule trim_visible; simp add: word_less_nat_alt)+

lemma parse_100: "parse_i64 [0x31, 0x30, 0x30] = Some 100"
  by (simp add: parse_i64_def digits_val_def is_digit_def)

lemma drift_100: "clock_drift 100 100 \<le> 30"
  by (simp add: clock_drift_def)

theorem verify_sound_witness:
  "\<exists>ts. parse_i64 [0x31, 0x30, 0x30] = Some ts \<and> \<bar>100 - ts\<bar> \<le> 30"
proof -
  have "verify (\<lambda>k m. [0x61]) (\<lambda>s n. Some s) (Some 100) [([0x67, 0x77], [1, 2, 3])] [] [] []
      (Some [0x67, 0x77]) (Some [0x31, 0x30, 0x30]) (Some [0x61]) 30 = Inr [0x67, 0x77]"
    by (simp add: verify_iff trim_gw parse_100 drift_100)
  from verify_sound [OF this] show ?thesis by auto
qed

end
