(* ===== verification/Decimal.thy ===== *)
theory Decimal
  imports Request_Auth Output
begin

text \<open>
  Decimal numbers, as \<open>to_string\<close> and \<open>{}\<close> print them and \<open>str::parse::<i64>\<close> (\<open>parse_i64\<close>) reads
  them: every 64-bit integer reads back, and a number can be told from what follows it in a message.
\<close>

definition i64_to_string :: "int \<Rightarrow> bytes" where
  "i64_to_string i = (if i < 0 then 0x2D # decimal (nat (- i)) else decimal (nat i))"

lemma digit_val: "n < 10 \<Longrightarrow> uint (0x30 + word_of_nat n :: u8) = 0x30 + int n"
proof -
  assume "n < 10"
  then have "n \<in> {0, 1, 2, 3, 4, 5, 6, 7, 8, 9}" by auto
  then show ?thesis by (elim insertE) simp_all
qed

lemma decimal_digit: "n < 10 \<Longrightarrow> is_digit (0x30 + word_of_nat n)"
  by (simp add: is_digit_def word_le_def digit_val)

lemma decimal_digits: "decimal n \<noteq> [] \<and> (\<forall>d\<in>set (decimal n). is_digit d)"
proof (induction n rule: decimal.induct)
  case (1 n)
  then show ?case by (cases "n < 10") (simp_all add: decimal.simps [of n] decimal_digit)
qed

lemma foldl_decimal: "foldl (\<lambda>a d. a * 10 + (uint d - 0x30)) 0 (decimal n) = int n"
proof (induction n rule: decimal.induct)
  case (1 n)
  then show ?case
  proof (cases "n < 10")
    case False
    then have "foldl (\<lambda>a d. a * 10 + (uint d - 0x30)) 0 (decimal n) = int (n div 10) * 10 + int (n mod 10)"
      using 1 digit_val [of "n mod 10"] by (simp add: decimal.simps [of n])
    then show ?thesis by presburger
  qed (simp add: decimal.simps [of n] digit_val)
qed

lemma digits_val_decimal: "digits_val (decimal n) = Some (int n)"
  using decimal_digits [of n] by (simp add: digits_val_def foldl_decimal)

text \<open>Every \<open>i64\<close> timestamp survives \<open>to_string\<close> and \<open>parse\<close>.\<close>

lemma parse_i64_to_string:
  assumes "- (2 ^ 63) \<le> i" and "i < 2 ^ 63"
  shows "parse_i64 (i64_to_string i) = Some i"
proof (cases "i < 0")
  case True
  with assms show ?thesis by (simp add: i64_to_string_def parse_i64_def digits_val_decimal)
next
  case False
  obtain b r where d: "decimal (nat i) = b # r" and "is_digit b"
    using decimal_digits [of "nat i"] by (cases "decimal (nat i)") auto
  then have "b \<noteq> 0x2D \<and> b \<noteq> 0x2B" by (auto simp: is_digit_def)
  with False assms d show ?thesis
    using digits_val_decimal [of "nat i"] by (simp add: i64_to_string_def parse_i64_def)
qed

lemma decimal_inject: "decimal m = decimal n \<longleftrightarrow> m = n"
  using digits_val_decimal by (metis of_nat_eq_iff option.inject)

text \<open>A run of digits ends at the first other byte.\<close>

lemma split_digits:
  "\<forall>d\<in>set x. is_digit d \<Longrightarrow> \<forall>d\<in>set y. is_digit d \<Longrightarrow> \<not> is_digit c \<Longrightarrow>
     x @ c # r = y @ c # s \<longleftrightarrow> x = y \<and> r = s"
proof (induction x arbitrary: y)
  case Nil
  then show ?case by (cases y) auto
next
  case (Cons a x)
  then show ?case by (cases y) auto
qed

lemma decimal_split: "\<not> is_digit c \<Longrightarrow> decimal m @ c # r = decimal n @ c # s \<longleftrightarrow> m = n \<and> r = s"
  using decimal_digits by (simp add: split_digits decimal_inject)

end
