(* ===== verification/Sealed.thy ===== *)
theory Sealed
  imports Prelude
begin

text \<open>
  Field-level encryption of v1.1: the wire form of a sealed field (\<open>crypto/src/sealed.rs\<close>) and the
  AES-256-GCM wrapper with its associated data (\<open>crypto/src/aead.rs\<close>). The cipher is a
  parameter: \<open>encrypt key nonce aad msg\<close> is ciphertext with the tag appended, \<open>decrypt\<close> its
  inverse, failing on a bad tag; the nonce the source draws from \<open>OsRng\<close> is an argument.
\<close>

definition NONCE_LEN :: nat where
  "NONCE_LEN = 12"

definition AEAD_TAG_LEN :: nat where
  "AEAD_TAG_LEN = 16"

definition MIN_SEALED_LEN :: nat where
  "MIN_SEALED_LEN = NONCE_LEN + AEAD_TAG_LEN"

record SealedField =
  sf_nonce :: bytes
  sf_ciphertext :: bytes
  sf_aead_tag :: bytes

datatype SealedFieldError = TooShortSealed nat

definition to_wire :: "SealedField \<Rightarrow> bytes" where
  "to_wire s = sf_nonce s @ sf_ciphertext s @ sf_aead_tag s"

definition from_wire :: "bytes \<Rightarrow> SealedFieldError + SealedField" where
  "from_wire bytes =
     (if length bytes < MIN_SEALED_LEN then Inl (TooShortSealed (length bytes))
      else
        let tag_offset = length bytes - AEAD_TAG_LEN in
        Inr \<lparr> sf_nonce = take NONCE_LEN bytes,
              sf_ciphertext = drop NONCE_LEN (take tag_offset bytes),
              sf_aead_tag = drop tag_offset bytes \<rparr>)"

definition wire_len :: "SealedField \<Rightarrow> nat" where
  "wire_len s = NONCE_LEN + length (sf_ciphertext s) + AEAD_TAG_LEN"

definition wf_sealed :: "SealedField \<Rightarrow> bool" where
  "wf_sealed s \<longleftrightarrow> length (sf_nonce s) = NONCE_LEN \<and> length (sf_aead_tag s) = AEAD_TAG_LEN"

lemmas sealed_lens = NONCE_LEN_def AEAD_TAG_LEN_def MIN_SEALED_LEN_def

lemma from_to_wire: "wf_sealed s \<Longrightarrow> from_wire (to_wire s) = Inr s"
  by (simp add: from_wire_def to_wire_def wf_sealed_def sealed_lens Let_def)

lemma to_from_wire:
  assumes "from_wire bs = Inr s"
  shows "wf_sealed s" and "to_wire s = bs"
proof -
  from assms have l: "28 \<le> length bs"
    and s: "s = \<lparr> sf_nonce = take 12 bs, sf_ciphertext = drop 12 (take (length bs - 16) bs),
      sf_aead_tag = drop (length bs - 16) bs \<rparr>"
    by (auto simp: from_wire_def sealed_lens Let_def split: if_splits)
  from l s show "wf_sealed s" by (simp add: wf_sealed_def sealed_lens)
  have "min 12 (length bs - 16) = 12" using l by simp
  then have "take 12 bs = take 12 (take (length bs - 16) bs)" by (simp only: take_take)
  then have "take 12 bs @ drop 12 (take (length bs - 16) bs) = take (length bs - 16) bs"
    by (simp only: append_take_drop_id)
  then show "to_wire s = bs" by (simp add: s to_wire_def flip: append_assoc)
qed

section \<open>AEAD with bound context\<close>

datatype AeadError = TagMismatch | CiphertextTooShort

record AadContext =
  aad_cbor_key :: u8
  aad_server_id :: bytes
  aad_key_epoch :: u64
  aad_extra :: bytes

definition AAD_DOMAIN :: bytes where
  "AAD_DOMAIN = map of_char ''komms/v1.1/aead''"

definition aad_encode :: "AadContext \<Rightarrow> bytes" where
  "aad_encode aad =
     (let extra_len = (if length (aad_extra aad) < 2 ^ 32 then word_of_nat (length (aad_extra aad))
                       else 0xFFFFFFFF :: u32) in
      AAD_DOMAIN @ [0x01, aad_cbor_key aad] @ [0x20] @ aad_server_id aad @ [0x08] @
      u64_to_be_bytes (aad_key_epoch aad) @ u32_to_be_bytes extra_len @ aad_extra aad)"

definition seal_field ::
  "(bytes \<Rightarrow> bytes \<Rightarrow> bytes \<Rightarrow> bytes \<Rightarrow> bytes) \<Rightarrow> bytes \<Rightarrow> bytes \<Rightarrow> AadContext \<Rightarrow> bytes \<Rightarrow> SealedField" where
  "seal_field encrypt nonce_bytes key aad plaintext =
     (let ct = encrypt key nonce_bytes (aad_encode aad) plaintext;
          tag_offset = length ct - AEAD_TAG_LEN in
      \<lparr> sf_nonce = nonce_bytes, sf_ciphertext = take tag_offset ct, sf_aead_tag = drop tag_offset ct \<rparr>)"

definition open_field ::
  "(bytes \<Rightarrow> bytes \<Rightarrow> bytes \<Rightarrow> bytes \<Rightarrow> bytes option) \<Rightarrow> bytes \<Rightarrow> AadContext \<Rightarrow> SealedField \<Rightarrow>
     AeadError + bytes" where
  "open_field decrypt key aad sealed =
     ok_or (decrypt key (sf_nonce sealed) (aad_encode aad) (sf_ciphertext sealed @ sf_aead_tag sealed))
       TagMismatch"

definition wf_aad :: "AadContext \<Rightarrow> bool" where
  "wf_aad aad \<longleftrightarrow> length (aad_server_id aad) = 32"

lemma aad_encode_inject:
  assumes "wf_aad a" and "wf_aad b" and "aad_encode a = aad_encode b"
  shows "a = b"
proof -
  have "aad_cbor_key a = aad_cbor_key b \<and> aad_server_id a = aad_server_id b \<and>
      aad_key_epoch a = aad_key_epoch b \<and> aad_extra a = aad_extra b"
    using assms by (auto simp: aad_encode_def wf_aad_def Let_def append_eq_append_conv split: if_splits)
  then show ?thesis by (cases a, cases b) simp
qed

lemma seal_field_parts:
  assumes "length (encrypt key nonce (aad_encode aad) pt) = length pt + AEAD_TAG_LEN"
    and "length nonce = NONCE_LEN"
  shows "wf_sealed (seal_field encrypt nonce key aad pt)"
    and "sf_nonce (seal_field encrypt nonce key aad pt) = nonce"
    and "sf_ciphertext (seal_field encrypt nonce key aad pt) @
         sf_aead_tag (seal_field encrypt nonce key aad pt) = encrypt key nonce (aad_encode aad) pt"
  using assms by (simp_all add: seal_field_def wf_sealed_def Let_def AEAD_TAG_LEN_def)

section \<open>Properties\<close>

text \<open>
  The wire form of a sealed field is a bijection onto the byte strings of 28 bytes or more:
  a well-formed field round-trips, accepted bytes re-serialise to themselves and have the length
  \<open>wire_len\<close> announces, and shorter strings are refused with their length.
\<close>
lemma sealed_wire_roundtrip:
  assumes "wf_sealed s"
  shows "from_wire (to_wire s) = Inr s \<and> length (to_wire s) = wire_len s \<and>
    (\<forall>bs s'. from_wire bs = Inr s' \<longrightarrow> to_wire s' = bs \<and> wf_sealed s' \<and> wire_len s' = length bs) \<and>
    (\<forall>bs e. from_wire bs = Inl e \<longleftrightarrow> length bs < MIN_SEALED_LEN \<and> e = TooShortSealed (length bs))"
proof (intro conjI allI impI)
  show "from_wire (to_wire s) = Inr s" using assms by (rule from_to_wire)
  have len: "length (to_wire x) = wire_len x" if "wf_sealed x" for x
    using that by (simp add: to_wire_def wire_len_def wf_sealed_def)
  then show "length (to_wire s) = wire_len s" using assms .
  fix bs s' assume "from_wire bs = Inr s'"
  from to_from_wire [OF this] show "to_wire s' = bs" "wf_sealed s'" by simp_all
  with len show "wire_len s' = length bs" by metis
qed (auto simp: from_wire_def Let_def split: if_splits)

text \<open>
  C20: a sealed field is bound to its context. A field sealed under a key and a context survives
  its wire form, which is 28 bytes longer than the plaintext, and \<open>open_field\<close> under the same key
  returns the plaintext for that context and fails for every other one, that is if the
  destination key, the server, the key epoch or the extra binding differs. What is asked of the
  cipher is about this one ciphertext: its length, that it decrypts under the associated data it
  was made with, and that it does not under the associated data of the other context if that is
  a different byte string (that it always is one is the point of \<open>aad_encode\<close>).
\<close>
theorem seal_open_binds_context:
  assumes nonce: "length nonce = NONCE_LEN" and wf: "wf_aad aad" "wf_aad aad'"
    and len: "length (encrypt key nonce (aad_encode aad) pt) = length pt + AEAD_TAG_LEN"
    and correct: "decrypt key nonce (aad_encode aad) (encrypt key nonce (aad_encode aad) pt) = Some pt"
    and authentic: "aad_encode aad' \<noteq> aad_encode aad \<Longrightarrow>
      decrypt key nonce (aad_encode aad') (encrypt key nonce (aad_encode aad) pt) = None"
  shows "from_wire (to_wire (seal_field encrypt nonce key aad pt)) = Inr (seal_field encrypt nonce key aad pt) \<and>
    length (to_wire (seal_field encrypt nonce key aad pt)) = length pt + MIN_SEALED_LEN \<and>
    open_field decrypt key aad' (seal_field encrypt nonce key aad pt)
      = (if aad' = aad then Inr pt else Inl TagMismatch)"
proof (intro conjI)
  note parts = seal_field_parts [of encrypt key nonce aad pt, OF len nonce]
  show "from_wire (to_wire (seal_field encrypt nonce key aad pt)) = Inr (seal_field encrypt nonce key aad pt)"
    using parts(1) by (rule from_to_wire)
  show "length (to_wire (seal_field encrypt nonce key aad pt)) = length pt + MIN_SEALED_LEN"
    using nonce len by (simp add: to_wire_def parts(2,3) sealed_lens)
  have "aad_encode aad' = aad_encode aad \<longleftrightarrow> aad' = aad"
    using aad_encode_inject [OF wf(2,1)] by auto
  then show "open_field decrypt key aad' (seal_field encrypt nonce key aad pt)
      = (if aad' = aad then Inr pt else Inl TagMismatch)"
    using correct authentic by (auto simp: open_field_def parts(2,3))
qed

text \<open>A cipher for which the hypotheses hold at these inputs: the ciphertext is the plaintext, the
  tag is the last sixteen bytes of the associated data, where two contexts that differ in the key
  epoch differ.\<close>

definition toy_tag :: "bytes \<Rightarrow> bytes" where
  "toy_tag a = drop (length a - 16) a"

definition toy_encrypt :: "bytes \<Rightarrow> bytes \<Rightarrow> bytes \<Rightarrow> bytes \<Rightarrow> bytes" where
  "toy_encrypt key nonce a m = m @ toy_tag a"

definition toy_decrypt :: "bytes \<Rightarrow> bytes \<Rightarrow> bytes \<Rightarrow> bytes \<Rightarrow> bytes option" where
  "toy_decrypt key nonce a c =
     (let m = take (length c - 16) c in if c = m @ toy_tag a then Some m else None)"

definition sample_aad :: "u64 \<Rightarrow> AadContext" where
  "sample_aad epoch = \<lparr> aad_cbor_key = 23, aad_server_id = replicate 32 9, aad_key_epoch = epoch, aad_extra = [] \<rparr>"

lemma sample_aad_tag: "toy_tag (aad_encode (sample_aad e)) = [9, 9, 9, 8] @ u64_to_be_bytes e @ [0, 0, 0, 0]"
proof -
  have sid: "(replicate 32 9 :: bytes) = replicate 29 9 @ [9, 9, 9]" and zero: "u32_to_be_bytes 0 = [0, 0, 0, 0]"
    by code_simp+
  have "aad_encode (sample_aad e) = (AAD_DOMAIN @ [0x01, 23, 0x20] @ replicate 29 9) @
      ([9, 9, 9, 8] @ u64_to_be_bytes e @ [0, 0, 0, 0])"
    unfolding aad_encode_def sample_aad_def by (simp add: sid zero)
  then show ?thesis by (simp add: toy_tag_def)
qed

lemma sample_aad_wf: "wf_aad (sample_aad e)"
  by (simp add: wf_aad_def sample_aad_def)

theorem seal_open_binds_context_witness:
  "open_field toy_decrypt (replicate 32 1) (sample_aad 1)
     (seal_field toy_encrypt (replicate 12 0) (replicate 32 1) (sample_aad 1) [1, 2, 3]) = Inr [1, 2, 3] \<and>
   open_field toy_decrypt (replicate 32 1) (sample_aad 2)
     (seal_field toy_encrypt (replicate 12 0) (replicate 32 1) (sample_aad 1) [1, 2, 3]) = Inl TagMismatch"
proof -
  have "open_field toy_decrypt (replicate 32 1) (sample_aad e)
      (seal_field toy_encrypt (replicate 12 0) (replicate 32 1) (sample_aad 1) [1, 2, 3])
    = (if sample_aad e = sample_aad 1 then Inr [1, 2, 3] else Inl TagMismatch)" for e
    by (rule seal_open_binds_context [THEN conjunct2, THEN conjunct2])
      (auto simp: sample_aad_wf NONCE_LEN_def AEAD_TAG_LEN_def toy_encrypt_def toy_decrypt_def sample_aad_tag)
  then show ?thesis by (simp add: sample_aad_def)
qed

end
