(* ===== verification/Messages.thy ===== *)
theory Messages
  imports Decimal Cli_Decode Sealed
begin

text \<open>
  The texts of the error types of the two library crates, as \<open>thiserror\<close> derives \<open>Display\<close> from
  their \<open>#[error]\<close> attributes. The texts of \<open>ValidationError\<close> are in \<open>Cli_Decode\<close>, where the lenient
  mode prints them.
\<close>

fun display_CanonicalError :: "CanonicalError \<Rightarrow> bytes" where
  "display_CanonicalError (Truncated n) = ascii ''CBOR truncated at offset '' @ decimal n"
| "display_CanonicalError (NestingTooDeep n) =
     ascii ''CBOR depth exceeded MAX_NESTING_DEPTH('' @ decimal MAX_NESTING_DEPTH @ ascii '') at offset '' @ decimal n"
| "display_CanonicalError (IndefiniteLength n) =
     ascii ''indefinite-length items are forbidden (offset '' @ decimal n @ ascii '')''"
| "display_CanonicalError (NonShortestForm n) =
     ascii ''non-shortest-form length/argument encoding at offset '' @ decimal n"
| "display_CanonicalError (NonUintKey n) =
     ascii ''map keys must be unsigned integers (offset '' @ decimal n @ ascii '')''"
| "display_CanonicalError (KeysOutOfOrder n) =
     ascii ''map keys must be in strictly ascending order (offset '' @ decimal n @ ascii '')''"
| "display_CanonicalError (DuplicateKey key offset) =
     ascii ''duplicate map key '' @ decimal (unat key) @ ascii '' (offset '' @ decimal offset @ ascii '')''"
| "display_CanonicalError (TaggedItem tag offset) =
     ascii ''tagged items are forbidden (tag '' @ decimal (unat tag) @ ascii '' at offset '' @ decimal offset @ ascii '')''"
| "display_CanonicalError (FloatForbidden n) =
     ascii ''floating-point values are forbidden (offset '' @ decimal n @ ascii '')''"
| "display_CanonicalError (InvalidSimpleValue value offset) =
     ascii ''invalid CBOR simple value 0x'' @ base16_encode [value] @ ascii '' at offset '' @ decimal offset"
| "display_CanonicalError (TrailingBytes n) =
     ascii ''trailing bytes after CBOR root item (offset '' @ decimal n @ ascii '')''"
| "display_CanonicalError (ReservedArgument n) =
     ascii ''reserved CBOR additional-info argument 28/29/30 at offset '' @ decimal n"

definition expected_msg :: "string \<Rightarrow> string \<Rightarrow> bytes" where
  "expected_msg f what = ascii ''field '' @ ascii f @ ascii '': expected '' @ ascii what"

fun display_ParseError :: "ParseError \<Rightarrow> bytes" where
  "display_ParseError (Cbor s) = ascii ''invalid CBOR: '' @ ascii s"
| "display_ParseError NotAMap = ascii ''top-level CBOR value must be a map''"
| "display_ParseError InvalidKey = ascii ''map key must be an unsigned integer in 0..=255''"
| "display_ParseError (DuplicateMapKey k) = ascii ''duplicate map key '' @ decimal (unat k)"
| "display_ParseError (ExpectedUint f) = expected_msg f ''uint''"
| "display_ParseError (EventTypeOverflow t) =
     ascii ''field t: event type '' @ decimal (unat t) @ ascii '' doesn'' @ [0x27] @ ascii ''t fit in u8''"
| "display_ParseError (ExpectedBool f) = expected_msg f ''bool''"
| "display_ParseError (ExpectedBytes32 f) = expected_msg f ''byte string of length 32''"
| "display_ParseError (ExpectedBytes16 f) = expected_msg f ''byte string of length 16''"
| "display_ParseError (ExpectedBytes f) = expected_msg f ''byte string''"
| "display_ParseError (ExpectedText f) = expected_msg f ''text string''"
| "display_ParseError InvalidSigLength = ascii ''field sig: expected 64 bytes''"
| "display_ParseError (MissingField f) = ascii ''missing required field '' @ ascii f"
| "display_ParseError (ReservedCoreKey k) =
     ascii ''map key '' @ decimal (unat k) @ ascii '' is reserved (not yet allocated in v1 core)''"

fun display_KommsPayloadError :: "KommsPayloadError \<Rightarrow> bytes" where
  "display_KommsPayloadError MissingPrefix = ascii ''payload too short for KOMMS prefix''"
| "display_KommsPayloadError (NonCanonical e) = ascii ''non-canonical CBOR: '' @ display_CanonicalError e"
| "display_KommsPayloadError (ParseErr e) = display_ParseError e"
| "display_KommsPayloadError (ValidationErr e) = display_ValidationError e"
| "display_KommsPayloadError (UnsupportedVersion v) =
     ascii ''unsupported protocol version '' @ decimal (unat v) @ ascii '' (max known is 1)''"

fun display_RefBuildError :: "RefBuildError \<Rightarrow> bytes" where
  "display_RefBuildError EmptyCid = ascii ''CID string must be non-empty UTF-8''"

fun display_VerifyError :: "VerifyError \<Rightarrow> bytes" where
  "display_VerifyError SignatureMissing = ascii ''event has no `sig` (key 11); nothing to verify''"
| "display_VerifyError InvalidPubkey = ascii ''invalid Ed25519 verifying key bytes''"
| "display_VerifyError SignatureInvalid =
     ascii ''Ed25519 signature does not verify against canonical CBOR signing payload''"
| "display_VerifyError (EncodeErr e) =
     ascii ''canonical CBOR encode failed prior to verification: '' @ display_ValidationError e"

fun display_SealedFieldError :: "SealedFieldError \<Rightarrow> bytes" where
  "display_SealedFieldError (TooShortSealed n) =
     ascii ''sealed field too short: need at least '' @ decimal MIN_SEALED_LEN @ ascii '' bytes, got '' @ decimal n"

fun display_AeadError :: "AeadError \<Rightarrow> bytes" where
  "display_AeadError TagMismatch = ascii ''AEAD authentication failed (wrong key, AAD, nonce, or ciphertext)''"
| "display_AeadError CiphertextTooShort = ascii ''ciphertext too short to contain AEAD tag''"

fun display_RequestAuthError :: "RequestAuthError \<Rightarrow> bytes" where
  "display_RequestAuthError MissingCaller = ascii ''missing X-Komms-Caller header''"
| "display_RequestAuthError MissingTimestamp = ascii ''missing X-Komms-Ts header''"
| "display_RequestAuthError MissingSignature = ascii ''missing X-Komms-Sig header''"
| "display_RequestAuthError MalformedTimestamp = ascii ''malformed X-Komms-Ts header''"
| "display_RequestAuthError MalformedSignature = ascii ''malformed X-Komms-Sig header''"
| "display_RequestAuthError ClockSkew = ascii ''clock skew''"
| "display_RequestAuthError (TimestampDrift drift_secs allowed_secs) =
     ascii ''timestamp drift '' @ decimal (unat drift_secs) @ ascii ''s exceeds allowed '' @
       decimal (unat allowed_secs) @ ascii ''s''"
| "display_RequestAuthError EmptyCaller = ascii ''empty X-Komms-Caller''"
| "display_RequestAuthError UnknownCaller = ascii ''unknown X-Komms-Caller''"
| "display_RequestAuthError HmacMismatch = ascii ''HMAC mismatch''"

section \<open>What the texts reveal\<close>

lemma not_digit_s: "\<not> is_digit 0x73"
  by (simp add: is_digit_def)

lemma drift_text_inject:
  "display_RequestAuthError (TimestampDrift d a) = display_RequestAuthError (TimestampDrift d' a') \<longleftrightarrow>
     d = d' \<and> a = a'"
  by (simp add: ascii_def decimal_split decimal_inject not_digit_s word_unat_eq_iff)

text \<open>
  The text of a refused request determines the error: a caller that is not registered and a wrong
  signature are told apart by their texts, and the drift and the allowed skew can be read off.
\<close>

lemma request_auth_texts_distinct: "display_RequestAuthError e = display_RequestAuthError e' \<longleftrightarrow> e = e'"
proof (cases "(\<exists>d a. e = TimestampDrift d a) \<and> (\<exists>d a. e' = TimestampDrift d a)")
  case True
  then show ?thesis using drift_text_inject by auto
next
  case False
  then show ?thesis by (cases e; cases e') (simp_all add: ascii_def)
qed

text \<open>A sealed field that does not open gives one text, whatever was wrong.\<close>

lemma open_field_text:
  "open_field decrypt key aad sealed = Inl e \<Longrightarrow>
     display_AeadError e = ascii ''AEAD authentication failed (wrong key, AAD, nonce, or ciphertext)''"
  by (auto simp: open_field_def result_simps)

end
