(* ===== verification/Cbor_Write.thy ===== *)
theory Cbor_Write
  imports Cbor_Value
begin

text \<open>
  The CBOR library outside the profile. The unit tests of the sources feed the gate and the parser
  bytes that are not canonical, written by the library itself: maps out of order or with a
  repeated key, text keys, floats and tags. The locale \<open>cbor_writer\<close> adds to \<open>cbor_codec\<close> what the
  tests rely on: the writer puts out the head of RFC 8949 in its shortest form followed by the
  content, arrays and maps in the order given, and the reader keeps repeated keys. \<open>write_val\<close> is a
  writer that does.
\<close>

locale cbor_writer = cbor_codec +
  assumes ser_Integer: "0 \<le> i \<Longrightarrow> i < 2 ^ 64 \<Longrightarrow> ser (Integer i) = encode_cbor_uint_header 0x00 (word_of_int i)"
    and ser_Bool: "ser (Bool b) = [if b then 0xF5 else 0xF4]"
    and ser_Text: "ser (Text s) = encode_cbor_uint_header 0x60 (word_of_nat (length s)) @ s"
    and ser_Float: "\<exists>h bs. ser (Float f) = h # bs \<and> h \<in> {0xF9, 0xFA, 0xFB}"
    and ser_Tag: "ser (Tag t v) = encode_cbor_uint_header 0xC0 t @ ser v"
    and ser_Array: "ser (Array vs) = encode_cbor_uint_header 0x80 (word_of_nat (length vs)) @ concat (map ser vs)"
    and ser_Map: "ser (Map kvs) = encode_cbor_uint_header 0xA0 (word_of_nat (length kvs)) @
      concat (map (\<lambda>(k, v). ser k @ ser v) kvs)"
    and de_int_map: "length uvs < 2 ^ 64 \<Longrightarrow>
      de (ser (Map (map (\<lambda>(k, v). (Integer (uint (k :: u64)), Integer (uint (v :: u64)))) uvs)))
        = Inr (Map (map (\<lambda>(k, v). (Integer (uint k), Integer (uint v))) uvs))"

text \<open>The bytes of small values.\<close>

context cbor_writer
begin

lemma small_head: "v < 24 \<Longrightarrow> encode_cbor_uint_header m v = [(m AND 0xE0) OR ucast v]"
  by (rule header_cases) (simp add: word_less_nat_alt)

lemmas written = ser_Integer ser_Bool ser_Text ser_Tag ser_Array ser_Map small_head

end

section \<open>A writer that satisfies the interface\<close>

fun write_val :: "cval \<Rightarrow> bytes" where
  "write_val (Integer i) =
     (if 0 \<le> i then encode_cbor_uint_header 0x00 (word_of_int i)
      else encode_cbor_uint_header 0x20 (word_of_int (- 1 - i)))"
| "write_val (Bytes b) = encode_cbor_uint_header 0x40 (word_of_nat (length b)) @ b"
| "write_val (Float f) = 0xFB # u64_to_be_bytes f"
| "write_val (Text s) = encode_cbor_uint_header 0x60 (word_of_nat (length s)) @ s"
| "write_val (Bool b) = [if b then 0xF5 else 0xF4]"
| "write_val Null = [0xF6]"
| "write_val (Tag t v) = encode_cbor_uint_header 0xC0 t @ write_val v"
| "write_val (Array vs) = encode_cbor_uint_header 0x80 (word_of_nat (length vs)) @ concat (map write_val vs)"
| "write_val (Map kvs) = encode_cbor_uint_header 0xA0 (word_of_nat (length kvs)) @
     concat (map (\<lambda>(k, v). write_val k @ write_val v) kvs)"

lemma write_value_of: "plain_item it \<Longrightarrow> write_val (value_of it) = enc_item it"
proof (induction it)
  case (NInt v)
  have "\<not> 0 \<le> - 1 - uint v" using unsigned_greater_eq [where 'a = int, of v] by linarith
  then show ?case by (simp only: value_of.simps write_val.simps if_False enc_item.simps) simp
next
  case (Arr xs)
  then show ?case by (auto intro!: arg_cong [of _ _ concat] map_cong simp: comp_def)
next
  case (Dict kvs)
  have "write_val (value_of v) = enc_item v" if "(k, v) \<in> set kvs" for k v
    using Dict that by (fastforce simp: Basic_BNFs.snds.simps)
  then show ?case by (auto intro!: arg_cong [of _ _ concat] map_cong simp: comp_def)
next
  case (Simple s)
  then show ?case by (cases s) simp_all
qed auto

lemma read_int_map:
  assumes "length kvs < 2 ^ 64"
  shows "rfc_de (write_val (Map (map (\<lambda>(k, v). (Integer (uint (k :: u64)), Integer (uint (v :: u64)))) kvs)))
    = Inr (Map (map (\<lambda>(k, v). (Integer (uint k), Integer (uint v))) kvs))"
proof -
  let ?it = "Dict (map (\<lambda>(k, v). (k, UInt v)) kvs)"
  let ?d = "MAX_NESTING_DEPTH"
  have v: "value_of ?it = Map (map (\<lambda>(k, v). (Integer (uint k), Integer (uint v))) kvs)" by auto
  have "item_decodes ?d (UInt u)" for u
    using dec_item_enc [of 1 "UInt u" 7] by (simp add: MAX_NESTING_DEPTH_def)
  then have "\<forall>(k, x)\<in>set (map (\<lambda>(k, v). (k, UInt v)) kvs). item_decodes ?d x" by auto
  from dec_dict_enc [OF this, of "[]"] have "dec_item (Suc ?d) (enc_item ?it) = Some (?it, [])"
    using assms by (simp add: dec_head_major unat_of_nat)
  moreover have "write_val (value_of ?it) = enc_item ?it" by (rule write_value_of) auto
  moreover have "texts_valid ?it" by auto
  ultimately have "rfc_de (write_val (value_of ?it)) = Inr (value_of ?it)"
    unfolding rfc_de_def by simp
  then show ?thesis unfolding v .
qed

interpretation rfcw: cbor_writer write_val rfc_de
proof unfold_locales
  fix kvs :: "(u64 \<times> u64) list"
  assume "length kvs < 2 ^ 64"
  then show "rfc_de (write_val (Map (map (\<lambda>(k, v). (Integer (uint k), Integer (uint v))) kvs)))
    = Inr (Map (map (\<lambda>(k, v). (Integer (uint k), Integer (uint v))) kvs))" by (rule read_int_map)
qed (simp_all add: write_value_of rfc.de_item rfc.de_bad_text)

end
