(* ===== verification/Payload_Tests.thy ===== *)
theory Payload_Tests
  imports Payload Cbor_Write
begin

text \<open>
  The unit tests of \<open>protocol/src/lib.rs\<close>, one definition per test function, over the writer and the
  reader of the CBOR library. \<open>encode_then_parse\<close> is the sequence \<open>encode_komms_payload\<close>, \<open>unwrap\<close>,
  \<open>parse_komms_payload\<close>, \<open>unwrap\<close> of the round-trip tests. Inputs that are plain values go through the
  codec laws, the rest of each test is evaluated.
\<close>

section \<open>Fixtures\<close>

text \<open>A test that uses the writer and the reader of the CBOR library.\<close>

type_synonym codec_test = "(cval \<Rightarrow> bytes) \<Rightarrow> (bytes \<Rightarrow> string + cval) \<Rightarrow> bool"

definition ROLE_ADMIN :: u8 where "ROLE_ADMIN = 0"
definition ROLE_MODERATOR :: u8 where "ROLE_MODERATOR = 1"
definition ROLE_VIEWER :: u8 where "ROLE_VIEWER = 3"

definition test_sid :: bytes where
  "test_sid = replicate 32 7"

definition test_ref_cid :: bytes where
  "test_ref_cid = 0x01 # ascii ''bagaaa...''"

definition test_match_tag :: bytes where
  "test_match_tag = replicate 16 0xAA"

definition test_member_tag :: bytes where
  "test_member_tag = replicate 16 0xBB"

definition v0_envelope :: "bytes \<Rightarrow> bytes" where
  "v0_envelope cbor = KOMMS_PAYLOAD_PREFIX @ cbor"

definition encode_then_parse ::
  "(cval \<Rightarrow> bytes) \<Rightarrow> (bytes \<Rightarrow> string + cval) \<Rightarrow> ParsedKommsEvent \<Rightarrow> ParsedKommsEvent option" where
  "encode_then_parse ser de ev =
     (case encode_komms_payload ser ev of
        Inl _ \<Rightarrow> None
      | Inr raw \<Rightarrow> (case parse_komms_payload de raw of Inl _ \<Rightarrow> None | Inr parsed \<Rightarrow> Some parsed))"

section \<open>How the inputs of the tests are evaluated\<close>

lemma len_ok_code [code]: "len_ok n x = (case x of None \<Rightarrow> True | Some b \<Rightarrow> length b = n)"
  by (simp split: option.split)

text \<open>What the parser returns for the plain value \<open>v\<close> once the gate has let it pass.\<close>

definition parse_value :: "cval \<Rightarrow> KommsPayloadError + ParsedKommsEvent" where
  "parse_value v =
     bindE (map_err ParseErr (parse_cbor_map (\<lambda>_. Inr v) [])) (\<lambda>ev.
     if ev_v ev > MAX_KNOWN_VERSION then Inl (UnsupportedVersion (ev_v ev)) else
     bindE (map_err ValidationErr (validate_event ev)) (\<lambda>_. Inr ev))"

definition plain_value :: "cval \<Rightarrow> bool" where
  "plain_value v \<longleftrightarrow> prof 0 v \<and> length (enc_item (item_of v)) < 2 ^ 64"

definition small_event :: "ParsedKommsEvent \<Rightarrow> bool" where
  "small_event ev \<longleftrightarrow> wf_event ev \<and> encodable ev \<and> validate_event ev = Inr () \<and>
     validate_event (as_parsed ev) = Inr () \<and>
     length (enc_item (item_of (Map (event_pairs ev)))) < 2 ^ 63"

lemma parse_cbor_map_value: "de cbor = Inr v \<Longrightarrow> parse_cbor_map de cbor = parse_cbor_map (\<lambda>_. Inr v) []"
  by (simp add: parse_cbor_map_def)

context cbor_codec
begin

lemma plain_value_read:
  "plain_value v \<Longrightarrow> validate_canonical (ser v) = Inr () \<and> parse_cbor_map de (ser v) = parse_cbor_map (\<lambda>_. Inr v) []"
  using ser_prof [of v] ser_prof_canonical [of v] de_ser_prof [of v]
  by (auto simp: plain_value_def intro: parse_cbor_map_value)

lemma parse_plain: "plain_value v \<Longrightarrow> parse_komms_payload de (v0_envelope (ser v)) = parse_value v"
  using plain_value_read [of v]
  by (simp add: parse_komms_payload_def v0_envelope_def parse_value_def ok_or_def)

lemma small_event_roundtrip:
  assumes "small_event ev"
  shows "encode_then_parse ser de ev = Some (as_parsed ev)"
proof -
  let ?v = "Map (event_pairs ev)"
  have prof: "prof 0 ?v" using assms prof_event_pairs by (simp add: small_event_def)
  have enc: "encode_komms_payload ser ev = Inr (KOMMS_PAYLOAD_PREFIX @ ser ?v)"
    using assms by (simp add: encode_komms_payload_def bindE_Inr_iff encode_cbor_map_Inr small_event_def)
  have "length (KOMMS_PAYLOAD_PREFIX @ ser ?v) < 2 ^ 64"
    using assms ser_prof [OF prof] by (simp add: small_event_def KOMMS_PAYLOAD_PREFIX_def)
  from parse_of_encode [OF cbor_codec_axioms _ _ enc this] show ?thesis
    using assms enc by (simp add: encode_then_parse_def small_event_def)
qed

end

lemma encode_refused:
  "validate_event ev = Inl e \<Longrightarrow> P e \<Longrightarrow> case encode_komms_payload ser ev of Inl e \<Rightarrow> P e | Inr _ \<Rightarrow> False"
  by (simp add: encode_komms_payload_def encode_cbor_map_def)

section \<open>The tests\<close>

definition h6_target_bytes :: bytes where
  "h6_target_bytes = 0 # replicate 32 0x42"

definition h6_baseline_role_assign :: ParsedKommsEvent where
  "h6_baseline_role_assign = default_event \<lparr> ev_v := 1, ev_t := RoleAssign, ev_sid := Some (replicate 32 0xAA),
       ev_enc := False, ev_enc_scheme := Some 0, ev_ts := Some 1700000020, ev_n := Some 21,
       ev_role := Some ROLE_MODERATOR, ev_target := Some h6_target_bytes \<rparr>"

definition h6_baseline_role_revoke :: ParsedKommsEvent where
  "h6_baseline_role_revoke = default_event \<lparr> ev_v := 1, ev_t := RoleRevoke, ev_sid := Some (replicate 32 0xAA),
       ev_enc := False, ev_enc_scheme := Some 0, ev_ts := Some 1700000022, ev_n := Some 23,
       ev_role := None, ev_target := Some h6_target_bytes \<rparr>"

definition test_v0_server_create_roundtrip :: codec_test where
  "test_v0_server_create_roundtrip ser de \<longleftrightarrow>
     (case parse_komms_payload de (v0_envelope (ser
        (Map [(Integer 0, Integer 0), (Integer 1, Integer 0), (Integer 2, Bytes test_sid),
        (Integer 8, Bool False)]))) of
        Inr ev \<Rightarrow> ev_t ev = ServerCreate \<and> ev_sid ev = Some test_sid \<and> ev_enc_scheme ev = Some 0
      | Inl _ \<Rightarrow> False)"

definition test_v0_message_post_requires_ref :: codec_test where
  "test_v0_message_post_requires_ref ser de \<longleftrightarrow>
     parse_komms_payload de (v0_envelope (ser
       (Map [(Integer 0, Integer 0), (Integer 1, Integer 4), (Integer 2, Bytes test_sid),
        (Integer 3, Bytes (replicate 32 3)), (Integer 8, Bool False)])))
       = Inl (ValidationErr (MissingForType MessagePost ''ref|enc_body_ref''))"

definition test_dm_must_not_have_sid :: codec_test where
  "test_dm_must_not_have_sid ser de \<longleftrightarrow>
     parse_komms_payload de (v0_envelope (ser
       (Map [(Integer 0, Integer 0), (Integer 1, Integer 7), (Integer 2, Bytes test_sid),
        (Integer 4, Bytes (replicate 32 9)), (Integer 7, Bytes test_ref_cid),
        (Integer 8, Bool True)])))
       = Inl (ValidationErr (ForbiddenField DmMessagePost ''sid''))"

definition test_wrong_prefix_rejected :: codec_test where
  "test_wrong_prefix_rejected ser de \<longleftrightarrow> parse_komms_payload de (ascii ''XXXX'') = Inl MissingPrefix"

definition test_duplicate_key_rejected :: codec_test where
  "test_duplicate_key_rejected ser de \<longleftrightarrow>
     parse_cbor_map de (ser (Map [(Integer 0, Integer 0), (Integer 0, Integer 0)])) = Inl (DuplicateMapKey 0)"

definition test_out_of_order_keys_rejected_at_wire :: codec_test where
  "test_out_of_order_keys_rejected_at_wire ser de \<longleftrightarrow>
     (case parse_komms_payload de (v0_envelope (ser
        (Map [(Integer 1, Integer 0), (Integer 0, Integer 0), (Integer 8, Bool False)]))) of
        Inl (NonCanonical (KeysOutOfOrder _)) \<Rightarrow> True | _ \<Rightarrow> False)"

definition test_v1_minimal_message_post :: codec_test where
  "test_v1_minimal_message_post ser de \<longleftrightarrow>
     (let ev = default_event \<lparr> ev_v := 1, ev_t := MessagePost, ev_sid := Some test_sid,
       ev_cid := Some (replicate 32 3), ev_ref_bytes := Some test_ref_cid, ev_enc := False,
       ev_enc_scheme := Some 0, ev_ts := Some 123, ev_n := Some 1, ev_sig_scheme := Some 0 \<rparr> in
      encode_then_parse ser de ev = Some ev)"

definition test_v1_requires_enc_scheme :: codec_test where
  "test_v1_requires_enc_scheme ser de \<longleftrightarrow>
     (case encode_komms_payload ser
        (default_event \<lparr> ev_v := 1, ev_t := MessagePost, ev_sid := Some test_sid,
       ev_cid := Some (replicate 32 3), ev_ref_bytes := Some test_ref_cid, ev_enc := False,
       ev_ts := Some 123, ev_n := Some 1 \<rparr>) of
        Inl err \<Rightarrow> err = V1MissingField ''enc_scheme'' | Inr _ \<Rightarrow> False)"

definition test_v1_enc_scheme_must_agree_with_enc :: codec_test where
  "test_v1_enc_scheme_must_agree_with_enc ser de \<longleftrightarrow>
     (case encode_komms_payload ser
        (default_event \<lparr> ev_v := 1, ev_t := DmMessagePost, ev_did := Some (replicate 32 5),
       ev_ref_bytes := Some test_ref_cid, ev_enc := False, ev_enc_scheme := Some 1,
       ev_ts := Some 123, ev_n := Some 1 \<rparr>) of
        Inl err \<Rightarrow> err = EncSchemeMismatch 1 False | Inr _ \<Rightarrow> False)"

definition test_ephemeral_event_types_rejected_on_chain :: codec_test where
  "test_ephemeral_event_types_rejected_on_chain ser de \<longleftrightarrow>
     parse_komms_payload de (v0_envelope (ser
       (Map [(Integer 0, Integer 0), (Integer 1, Integer 21), (Integer 8, Bool False)])))
       = Inl (ValidationErr (EphemeralOnChain (Reserved 21)))"

definition test_extension_keys_preserved_opaquely :: codec_test where
  "test_extension_keys_preserved_opaquely ser de \<longleftrightarrow>
     (let ev = default_event \<lparr> ev_v := 1, ev_t := MessagePost, ev_sid := Some test_sid,
       ev_cid := Some (replicate 32 3), ev_ref_bytes := Some test_ref_cid, ev_enc := False,
       ev_enc_scheme := Some 0, ev_ts := Some 7, ev_n := Some 1 \<rparr>;
          ev = ev\<lparr>ev_extension_fields := om_insert 100 (Integer 42) (ev_extension_fields ev)\<rparr> in
      case encode_then_parse ser de ev of
        None \<Rightarrow> False
      | Some parsed \<Rightarrow> om_get (ev_extension_fields parsed) 100 = Some (Integer 42))"

definition test_future_version_returns_future_variant :: codec_test where
  "test_future_version_returns_future_variant ser de \<longleftrightarrow>
     (let cbor = ser (Map [(Integer 0, Integer 2), (Integer 1, Integer 0), (Integer 2, Bytes test_sid),
        (Integer 8, Bool False)]) in
      (case parse_komms_payload_with_future de (v0_envelope cbor) of
         Inr (Future v raw_cbor) \<Rightarrow> v = 2 \<and> raw_cbor = cbor | _ \<Rightarrow> False) \<and>
      parse_komms_payload de (v0_envelope cbor) = Inl (UnsupportedVersion 2))"

definition test_opaque_event_type_returns_opaque_variant :: codec_test where
  "test_opaque_event_type_returns_opaque_variant ser de \<longleftrightarrow>
     (let cbor = ser (Map [(Integer 0, Integer 0), (Integer 1, Integer 64), (Integer 8, Bool False)]) in
      (case parse_komms_payload_with_future de (v0_envelope cbor) of
         Inr (Opaque event raw_cbor) \<Rightarrow> ev_t event = Reserved 64 \<and> raw_cbor = cbor | _ \<Rightarrow> False) \<and>
      (case parse_komms_payload de (v0_envelope cbor) of
         Inl (ValidationErr (OpaqueEventType _)) \<Rightarrow> True | _ \<Rightarrow> False))"

definition test_v1_1_sealed_member_join_roundtrip :: codec_test where
  "test_v1_1_sealed_member_join_roundtrip ser de \<longleftrightarrow>
     (let ev = default_event \<lparr> ev_v := 1, ev_t := SealedMemberJoin, ev_enc := True,
       ev_enc_scheme := Some 4, ev_ts := Some 1700000000, ev_n := Some 1,
       ev_member_tag := Some test_member_tag,
       ev_member_sealed := Some (ascii ''sealed-member-blob''),
       ev_match_tag := Some test_match_tag, ev_key_epoch := Some 7 \<rparr> in
      encode_then_parse ser de ev = Some ev)"

definition test_v1_1_sealed_member_leave_roundtrip :: codec_test where
  "test_v1_1_sealed_member_leave_roundtrip ser de \<longleftrightarrow>
     (let ev = default_event \<lparr> ev_v := 1, ev_t := SealedMemberLeave, ev_enc := False,
       ev_enc_scheme := Some 0, ev_ts := Some 1700000001, ev_n := Some 2,
       ev_sig := Some (replicate 64 0xCC), ev_member_tag := Some test_member_tag \<rparr> in
      encode_then_parse ser de ev = Some ev)"

definition test_v1_1_key_rotate_roundtrip :: codec_test where
  "test_v1_1_key_rotate_roundtrip ser de \<longleftrightarrow>
     (let ev = default_event \<lparr> ev_v := 1, ev_t := KeyRotate, ev_enc := True, ev_enc_scheme := Some 4,
       ev_ts := Some 1700000002, ev_n := Some 3,
       ev_member_sealed := Some (ascii ''wrapped-new-key''),
       ev_match_tag := Some test_match_tag, ev_key_epoch := Some 8 \<rparr> in
      encode_then_parse ser de ev = Some ev)"

definition test_v1_1_sealed_event_roundtrip :: codec_test where
  "test_v1_1_sealed_event_roundtrip ser de \<longleftrightarrow>
     (let ev = default_event \<lparr> ev_v := 1, ev_t := SealedEvent, ev_enc := True,
       ev_enc_scheme := Some 4, ev_ts := Some 1700000003, ev_n := Some 4,
       ev_enc_t := Some (ascii ''aead-enc-inner-type-payload''),
       ev_match_tag := Some test_match_tag, ev_key_epoch := Some 9 \<rparr> in
      encode_then_parse ser de ev = Some ev)"

definition test_v1_1_enc_scheme_4_typed_message_post_roundtrip :: codec_test where
  "test_v1_1_enc_scheme_4_typed_message_post_roundtrip ser de \<longleftrightarrow>
     (let ev = default_event \<lparr> ev_v := 1, ev_t := MessagePost, ev_enc := True,
       ev_enc_scheme := Some 4, ev_ts := Some 1700000004, ev_n := Some 5,
       ev_enc_sid := Some (ascii ''aead-sid-blob''),
       ev_enc_cid := Some (ascii ''aead-cid-blob''),
       ev_enc_body_ref := Some (ascii ''aead-body-ref-blob''),
       ev_match_tag := Some test_match_tag, ev_key_epoch := Some 10 \<rparr> in
      encode_then_parse ser de ev = Some ev)"

definition test_v1_1_enc_scheme_4_missing_match_tag_rejected :: codec_test where
  "test_v1_1_enc_scheme_4_missing_match_tag_rejected ser de \<longleftrightarrow>
     (case encode_komms_payload ser
        (default_event \<lparr> ev_v := 1, ev_t := MessagePost, ev_enc := True,
       ev_enc_scheme := Some 4, ev_ts := Some 1700000005, ev_n := Some 6,
       ev_enc_sid := Some (ascii ''x''), ev_enc_cid := Some (ascii ''y''),
       ev_enc_body_ref := Some (ascii ''z''), ev_key_epoch := Some 11 \<rparr>) of
        Inl err \<Rightarrow> err = V1_1MissingField ''match_tag'' | Inr _ \<Rightarrow> False)"

definition test_v1_1_enc_scheme_4_missing_enc_counterpart_rejected :: codec_test where
  "test_v1_1_enc_scheme_4_missing_enc_counterpart_rejected ser de \<longleftrightarrow>
     (case encode_komms_payload ser
        (default_event \<lparr> ev_v := 1, ev_t := MessagePost, ev_enc := True,
       ev_enc_scheme := Some 4, ev_ts := Some 1700000006, ev_n := Some 7,
       ev_match_tag := Some test_match_tag, ev_key_epoch := Some 12 \<rparr>) of
        Inl err \<Rightarrow> err = V1_1MissingField ''enc_* counterpart'' | Inr _ \<Rightarrow> False)"

definition test_v1_1_sig_scheme_1_rejected_as_phase_3_reserved :: codec_test where
  "test_v1_1_sig_scheme_1_rejected_as_phase_3_reserved ser de \<longleftrightarrow>
     (case encode_komms_payload ser
        (default_event \<lparr> ev_v := 1, ev_t := MessagePost, ev_sid := Some (replicate 32 1),
       ev_cid := Some (replicate 32 2), ev_ref_bytes := Some (0x01 # ascii ''bagaaa''),
       ev_enc := False, ev_enc_scheme := Some 0, ev_ts := Some 1700000007, ev_n := Some 8,
       ev_sig_scheme := Some 1 \<rparr>) of
        Inl err \<Rightarrow> err = SealedSenderNotImplemented | Inr _ \<Rightarrow> False)"

definition test_v1_1_sealed_signer_field_rejected_as_phase_3_reserved :: codec_test where
  "test_v1_1_sealed_signer_field_rejected_as_phase_3_reserved ser de \<longleftrightarrow>
     (case encode_komms_payload ser
        (default_event \<lparr> ev_v := 1, ev_t := SealedEvent, ev_enc := True,
       ev_enc_scheme := Some 4, ev_ts := Some 1700000008, ev_n := Some 9,
       ev_enc_t := Some (ascii ''x''), ev_match_tag := Some test_match_tag,
       ev_key_epoch := Some 13, ev_sealed_signer := Some (ascii ''blsag-ring-sig'') \<rparr>) of
        Inl err \<Rightarrow> err = SealedSenderNotImplemented | Inr _ \<Rightarrow> False)"

definition test_v1_1_deprecated_mls_enc_scheme_rejected :: codec_test where
  "test_v1_1_deprecated_mls_enc_scheme_rejected ser de \<longleftrightarrow>
     parse_komms_payload de (v0_envelope (ser
       (Map [(Integer 0, Integer 1), (Integer 1, Integer 4), (Integer 2, Bytes test_sid),
        (Integer 3, Bytes (replicate 32 2)), (Integer 7, Bytes test_ref_cid),
        (Integer 8, Bool True), (Integer 9, Integer 1700000009), (Integer 10, Integer 10),
        (Integer 13, Integer 2)])))
       = Inl (ValidationErr DeprecatedEncSchemeMls)"

definition test_v1_1_unknown_enc_scheme_rejected :: codec_test where
  "test_v1_1_unknown_enc_scheme_rejected ser de \<longleftrightarrow>
     parse_komms_payload de (v0_envelope (ser
       (Map [(Integer 0, Integer 1), (Integer 1, Integer 4), (Integer 2, Bytes test_sid),
        (Integer 3, Bytes (replicate 32 2)), (Integer 7, Bytes test_ref_cid),
        (Integer 8, Bool True), (Integer 9, Integer 1700000010), (Integer 10, Integer 11),
        (Integer 13, Integer 42)])))
       = Inl (ValidationErr (UnknownEncScheme 42))"

definition test_v1_1_member_tag_wrong_length_rejected :: codec_test where
  "test_v1_1_member_tag_wrong_length_rejected ser de \<longleftrightarrow>
     parse_komms_payload de (v0_envelope (ser
       (Map [(Integer 0, Integer 1), (Integer 1, Integer 23), (Integer 8, Bool True),
        (Integer 9, Integer 1700000011), (Integer 10, Integer 12), (Integer 13, Integer 4),
        (Integer 21, Bytes (replicate 15 0xBB))])))
       = Inl (ParseErr (ExpectedBytes16 ''member_tag''))"

definition test_v1_1_sealed_member_join_without_group_enc_rejected :: codec_test where
  "test_v1_1_sealed_member_join_without_group_enc_rejected ser de \<longleftrightarrow>
     (case encode_komms_payload ser
        (default_event \<lparr> ev_v := 1, ev_t := SealedMemberJoin, ev_enc := False,
       ev_enc_scheme := Some 0, ev_ts := Some 1700000012, ev_n := Some 13,
       ev_member_tag := Some test_member_tag, ev_member_sealed := Some (ascii ''x''),
       ev_match_tag := Some test_match_tag, ev_key_epoch := Some 14 \<rparr>) of
        Inl err \<Rightarrow> err = MissingForType SealedMemberJoin ''enc_scheme=4'' | Inr _ \<Rightarrow> False)"

definition test_v1_1_parser_accepts_pure_v1_0_event_unchanged :: codec_test where
  "test_v1_1_parser_accepts_pure_v1_0_event_unchanged ser de \<longleftrightarrow>
     (let ev = default_event \<lparr> ev_v := 1, ev_t := MessagePost, ev_sid := Some (replicate 32 1),
       ev_cid := Some (replicate 32 2), ev_ref_bytes := Some test_ref_cid, ev_enc := False,
       ev_enc_scheme := Some 0, ev_ts := Some 1700000013, ev_n := Some 14 \<rparr> in
      case encode_then_parse ser de ev of
        None \<Rightarrow> False
      | Some parsed \<Rightarrow> parsed = ev \<and> ev_member_tag parsed = None \<and> ev_match_tag parsed = None \<and>
          ev_key_epoch parsed = None \<and> ev_enc_sid parsed = None \<and> ev_enc_t parsed = None)"

definition test_h6_role_assign_round_trip_carries_target_and_role :: codec_test where
  "test_h6_role_assign_round_trip_carries_target_and_role ser de \<longleftrightarrow>
     (case encode_then_parse ser de h6_baseline_role_assign of
        None \<Rightarrow> False
      | Some parsed \<Rightarrow> ev_role parsed = Some ROLE_MODERATOR \<and> ev_target parsed = Some h6_target_bytes \<and>
          ev_sid parsed = Some (replicate 32 0xAA))"

definition test_h6_role_assign_missing_target_rejected_at_validate :: codec_test where
  "test_h6_role_assign_missing_target_rejected_at_validate ser de \<longleftrightarrow>
     (case encode_komms_payload ser
        (h6_baseline_role_assign \<lparr> ev_target := None \<rparr>) of
        Inl err \<Rightarrow> err = MissingForType RoleAssign ''target'' | Inr _ \<Rightarrow> False)"

definition test_h6_role_assign_missing_role_rejected_at_validate :: codec_test where
  "test_h6_role_assign_missing_role_rejected_at_validate ser de \<longleftrightarrow>
     (case encode_komms_payload ser
        (h6_baseline_role_assign \<lparr> ev_role := None \<rparr>) of
        Inl err \<Rightarrow> err = MissingForType RoleAssign ''role'' | Inr _ \<Rightarrow> False)"

definition test_h6_role_assign_out_of_range_role_rejected :: codec_test where
  "test_h6_role_assign_out_of_range_role_rejected ser de \<longleftrightarrow>
     (case encode_komms_payload ser
        (h6_baseline_role_assign \<lparr> ev_role := Some 99 \<rparr>) of
        Inl err \<Rightarrow> err = UnknownRole 99 | Inr _ \<Rightarrow> False)"

definition test_h6_role_assign_short_target_rejected :: codec_test where
  "test_h6_role_assign_short_target_rejected ser de \<longleftrightarrow>
     (case encode_komms_payload ser
        (h6_baseline_role_assign \<lparr> ev_target := Some ([0]) \<rparr>) of
        Inl err \<Rightarrow> err = InvalidTargetLength 1 | Inr _ \<Rightarrow> False)"

definition test_h6_role_revoke_accepts_omitted_role :: codec_test where
  "test_h6_role_revoke_accepts_omitted_role ser de \<longleftrightarrow>
     (case encode_then_parse ser de h6_baseline_role_revoke of
        None \<Rightarrow> False
      | Some parsed \<Rightarrow> ev_role parsed = None \<and> ev_target parsed = Some h6_target_bytes)"

definition test_h6_role_revoke_requires_target :: codec_test where
  "test_h6_role_revoke_requires_target ser de \<longleftrightarrow>
     (case encode_komms_payload ser
        (h6_baseline_role_revoke \<lparr> ev_target := None \<rparr>) of
        Inl err \<Rightarrow> err = MissingForType RoleRevoke ''target'' | Inr _ \<Rightarrow> False)"

definition test_h6_role_assign_channel_scoped_round_trip :: codec_test where
  "test_h6_role_assign_channel_scoped_round_trip ser de \<longleftrightarrow>
     (case encode_then_parse ser de
        (h6_baseline_role_assign \<lparr> ev_cid := Some (replicate 32 0xCC),
       ev_role := Some ROLE_VIEWER, ev_ts := Some 1700000021, ev_n := Some 22 \<rparr>) of
        None \<Rightarrow> False
      | Some parsed \<Rightarrow> ev_cid parsed = Some (replicate 32 0xCC) \<and> ev_role parsed = Some ROLE_VIEWER)"

definition test_h6_key_31_and_32_no_longer_extension_fields :: codec_test where
  "test_h6_key_31_and_32_no_longer_extension_fields ser de \<longleftrightarrow>
     (case encode_then_parse ser de
        (h6_baseline_role_assign \<lparr> ev_role := Some ROLE_ADMIN \<rparr>) of
        None \<Rightarrow> False
      | Some parsed \<Rightarrow> om_get (ev_extension_fields parsed) 31 = None \<and>
          om_get (ev_extension_fields parsed) 32 = None)"

text \<open>All tests of the module: the version-0 and version-1 wire format, the v1.1 additions, the role events.\<close>

definition wire_tests :: codec_test where
  "wire_tests ser de \<longleftrightarrow>
     test_v0_server_create_roundtrip ser de \<and>
     test_v0_message_post_requires_ref ser de \<and>
     test_dm_must_not_have_sid ser de \<and>
     test_wrong_prefix_rejected ser de \<and>
     test_duplicate_key_rejected ser de \<and>
     test_out_of_order_keys_rejected_at_wire ser de \<and>
     test_v1_minimal_message_post ser de \<and>
     test_v1_requires_enc_scheme ser de \<and>
     test_v1_enc_scheme_must_agree_with_enc ser de \<and>
     test_ephemeral_event_types_rejected_on_chain ser de \<and>
     test_extension_keys_preserved_opaquely ser de \<and>
     test_future_version_returns_future_variant ser de \<and>
     test_opaque_event_type_returns_opaque_variant ser de"

definition v1_1_tests :: codec_test where
  "v1_1_tests ser de \<longleftrightarrow>
     test_v1_1_sealed_member_join_roundtrip ser de \<and>
     test_v1_1_sealed_member_leave_roundtrip ser de \<and>
     test_v1_1_key_rotate_roundtrip ser de \<and>
     test_v1_1_sealed_event_roundtrip ser de \<and>
     test_v1_1_enc_scheme_4_typed_message_post_roundtrip ser de \<and>
     test_v1_1_enc_scheme_4_missing_match_tag_rejected ser de \<and>
     test_v1_1_enc_scheme_4_missing_enc_counterpart_rejected ser de \<and>
     test_v1_1_sig_scheme_1_rejected_as_phase_3_reserved ser de \<and>
     test_v1_1_sealed_signer_field_rejected_as_phase_3_reserved ser de \<and>
     test_v1_1_deprecated_mls_enc_scheme_rejected ser de \<and>
     test_v1_1_unknown_enc_scheme_rejected ser de \<and>
     test_v1_1_member_tag_wrong_length_rejected ser de \<and>
     test_v1_1_sealed_member_join_without_group_enc_rejected ser de \<and>
     test_v1_1_parser_accepts_pure_v1_0_event_unchanged ser de"

definition role_tests :: codec_test where
  "role_tests ser de \<longleftrightarrow>
     test_h6_role_assign_round_trip_carries_target_and_role ser de \<and>
     test_h6_role_assign_missing_target_rejected_at_validate ser de \<and>
     test_h6_role_assign_missing_role_rejected_at_validate ser de \<and>
     test_h6_role_assign_out_of_range_role_rejected ser de \<and>
     test_h6_role_assign_short_target_rejected ser de \<and>
     test_h6_role_revoke_accepts_omitted_role ser de \<and>
     test_h6_role_revoke_requires_target ser de \<and>
     test_h6_role_assign_channel_scoped_round_trip ser de \<and>
     test_h6_key_31_and_32_no_longer_extension_fields ser de"

definition payload_tests :: codec_test where
  "payload_tests ser de \<longleftrightarrow> wire_tests ser de \<and> v1_1_tests ser de \<and> role_tests ser de"

section \<open>The tests pass\<close>

lemmas fixture_defs = test_sid_def test_ref_cid_def test_match_tag_def test_member_tag_def h6_target_bytes_def
  h6_baseline_role_assign_def h6_baseline_role_revoke_def

lemmas plain_eval = fixture_defs ascii_def plain_value_def prof_def MAX_NESTING_DEPTH_def encode_cbor_uint_header_def

lemmas event_eval = fixture_defs encodable_def wire_layout_def wire_simps encode_cbor_uint_header_def ascii_def
  prof_def MAX_NESTING_DEPTH_def EXTENSION_KEY_MIN_def

lemma small_eventI:
  "wf_event ev \<Longrightarrow> encodable ev \<Longrightarrow> validate_event ev = Inr () \<Longrightarrow> validate_event (as_parsed ev) = Inr () \<Longrightarrow>
     length (enc_item (item_of (Map (event_pairs ev)))) < 2 ^ 63 \<Longrightarrow> small_event ev"
  by (simp add: small_event_def)

context cbor_writer
begin

lemma plain_error: "plain_value v \<Longrightarrow> parse_value v = Inl e \<Longrightarrow> parse_komms_payload de (v0_envelope (ser v)) = Inl e"
  by (simp add: parse_plain)

lemma plain_then:
  "plain_value v \<Longrightarrow> case parse_value v of Inr ev \<Rightarrow> P ev | Inl _ \<Rightarrow> False \<Longrightarrow>
     case parse_komms_payload de (v0_envelope (ser v)) of Inr ev \<Rightarrow> P ev | Inl _ \<Rightarrow> False"
  by (simp add: parse_plain)

lemma roundtrip_equal: "small_event ev \<Longrightarrow> as_parsed ev = ev \<Longrightarrow> encode_then_parse ser de ev = Some ev"
  by (simp add: small_event_roundtrip)

lemma roundtrip_then:
  "small_event ev \<Longrightarrow> P (as_parsed ev) \<Longrightarrow> case encode_then_parse ser de ev of None \<Rightarrow> False | Some parsed \<Rightarrow> P parsed"
  by (simp add: small_event_roundtrip)

lemma pass_v0_server_create_roundtrip: "test_v0_server_create_roundtrip ser de"
  unfolding test_v0_server_create_roundtrip_def by (rule plain_then, simp add: plain_eval, code_simp)

lemma pass_v0_message_post_requires_ref: "test_v0_message_post_requires_ref ser de"
  unfolding test_v0_message_post_requires_ref_def by (rule plain_error, simp add: plain_eval, code_simp)

lemma pass_dm_must_not_have_sid: "test_dm_must_not_have_sid ser de"
  unfolding test_dm_must_not_have_sid_def by (rule plain_error, simp add: plain_eval, code_simp)

lemma pass_wrong_prefix_rejected: "test_wrong_prefix_rejected ser de"
  by (simp add: test_wrong_prefix_rejected_def parse_komms_payload_def strip_komms_envelope_def
      KOMMS_PAYLOAD_PREFIX_def ascii_def ok_or_def)

lemma pass_duplicate_key_rejected: "test_duplicate_key_rejected ser de"
proof -
  let ?v = "Map [(Integer 0, Integer 0), (Integer 0, Integer 0)]"
  have "de (ser ?v) = Inr ?v" using de_int_map [of "[(0, 0), (0, 0)]"] by simp
  moreover have "parse_cbor_map (\<lambda>_. Inr ?v) [] = Inl (DuplicateMapKey 0)" by code_simp
  ultimately show ?thesis
    unfolding test_duplicate_key_rejected_def using parse_cbor_map_value by metis
qed

lemma pass_out_of_order_keys_rejected_at_wire: "test_out_of_order_keys_rejected_at_wire ser de"
proof -
  have "validate_canonical [0xA3, 1, 0, 0, 0, 8, 0xF4] = Inl (KeysOutOfOrder 3)" by code_simp
  then show ?thesis
    by (simp add: test_out_of_order_keys_rejected_at_wire_def parse_komms_payload_def v0_envelope_def ok_or_def written)
qed

lemma pass_v1_minimal_message_post: "test_v1_minimal_message_post ser de"
  unfolding test_v1_minimal_message_post_def Let_def
  by (rule roundtrip_equal, rule small_eventI, code_simp, simp add: event_eval, code_simp, code_simp,
    simp add: event_eval, code_simp)

lemma pass_v1_requires_enc_scheme: "test_v1_requires_enc_scheme ser de"
  unfolding test_v1_requires_enc_scheme_def by (rule encode_refused; code_simp)

lemma pass_v1_enc_scheme_must_agree_with_enc: "test_v1_enc_scheme_must_agree_with_enc ser de"
  unfolding test_v1_enc_scheme_must_agree_with_enc_def by (rule encode_refused; code_simp)

lemma pass_ephemeral_event_types_rejected_on_chain: "test_ephemeral_event_types_rejected_on_chain ser de"
  unfolding test_ephemeral_event_types_rejected_on_chain_def by (rule plain_error, simp add: plain_eval, code_simp)

lemma pass_extension_keys_preserved_opaquely: "test_extension_keys_preserved_opaquely ser de"
  unfolding test_extension_keys_preserved_opaquely_def Let_def
  by (rule roundtrip_then, rule small_eventI, code_simp, simp add: event_eval, code_simp, code_simp,
    simp add: event_eval, code_simp)

lemma pass_future_version_returns_future_variant: "test_future_version_returns_future_variant ser de"
proof -
  let ?v = "Map [(Integer 0, Integer 2), (Integer 1, Integer 0), (Integer 2, Bytes test_sid), (Integer 8, Bool False)]"
  have plain: "plain_value ?v" by (simp add: plain_eval)
  have "parse_value ?v = Inl (UnsupportedVersion 2)" by code_simp
  then have strict: "parse_komms_payload de (v0_envelope (ser ?v)) = Inl (UnsupportedVersion 2)"
    by (rule plain_error [OF plain])
  have "mapE ev_v (parse_cbor_map (\<lambda>_. Inr ?v) []) = Inr 2" by code_simp
  then have "parse_komms_payload_with_future de (v0_envelope (ser ?v)) = Inr (Future 2 (ser ?v))"
    using plain_value_read [OF plain]
    by (auto simp: parse_komms_payload_with_future_def v0_envelope_def ok_or_def MAX_KNOWN_VERSION_def result_simps)
  with strict show ?thesis by (simp add: test_future_version_returns_future_variant_def)
qed

lemma pass_opaque_event_type_returns_opaque_variant: "test_opaque_event_type_returns_opaque_variant ser de"
proof -
  let ?v = "Map [(Integer 0, Integer 0), (Integer 1, Integer 64), (Integer 8, Bool False)]"
  let ?ev = "default_event\<lparr>ev_t := Reserved 64, ev_enc_scheme := Some 0\<rparr>"
  have plain: "plain_value ?v" by (simp add: plain_eval)
  have "parse_value ?v = Inl (ValidationErr (OpaqueEventType (Reserved 64)))" by code_simp
  then have strict: "parse_komms_payload de (v0_envelope (ser ?v)) = Inl (ValidationErr (OpaqueEventType (Reserved 64)))"
    by (rule plain_error [OF plain])
  have ev: "parse_cbor_map (\<lambda>_. Inr ?v) [] = Inr ?ev" by code_simp
  have "validate_event ?ev = Inl (OpaqueEventType (Reserved 64))" by code_simp
  then have "parse_komms_payload_with_future de (v0_envelope (ser ?v)) = Inr (Opaque ?ev (ser ?v))"
    using plain_value_read [OF plain] ev
    by (simp add: parse_komms_payload_with_future_def v0_envelope_def ok_or_def MAX_KNOWN_VERSION_def default_event_def)
  with strict show ?thesis by (simp add: test_opaque_event_type_returns_opaque_variant_def)
qed

lemma pass_v1_1_sealed_member_join_roundtrip: "test_v1_1_sealed_member_join_roundtrip ser de"
  unfolding test_v1_1_sealed_member_join_roundtrip_def Let_def
  by (rule roundtrip_equal, rule small_eventI, code_simp, simp add: event_eval, code_simp, code_simp,
    simp add: event_eval, code_simp)

lemma pass_v1_1_sealed_member_leave_roundtrip: "test_v1_1_sealed_member_leave_roundtrip ser de"
  unfolding test_v1_1_sealed_member_leave_roundtrip_def Let_def
  by (rule roundtrip_equal, rule small_eventI, code_simp, simp add: event_eval, code_simp, code_simp,
    simp add: event_eval, code_simp)

lemma pass_v1_1_key_rotate_roundtrip: "test_v1_1_key_rotate_roundtrip ser de"
  unfolding test_v1_1_key_rotate_roundtrip_def Let_def
  by (rule roundtrip_equal, rule small_eventI, code_simp, simp add: event_eval, code_simp, code_simp,
    simp add: event_eval, code_simp)

lemma pass_v1_1_sealed_event_roundtrip: "test_v1_1_sealed_event_roundtrip ser de"
  unfolding test_v1_1_sealed_event_roundtrip_def Let_def
  by (rule roundtrip_equal, rule small_eventI, code_simp, simp add: event_eval, code_simp, code_simp,
    simp add: event_eval, code_simp)

lemma pass_v1_1_enc_scheme_4_typed_message_post_roundtrip: "test_v1_1_enc_scheme_4_typed_message_post_roundtrip ser de"
  unfolding test_v1_1_enc_scheme_4_typed_message_post_roundtrip_def Let_def
  by (rule roundtrip_equal, rule small_eventI, code_simp, simp add: event_eval, code_simp, code_simp,
    simp add: event_eval, code_simp)

lemma pass_v1_1_enc_scheme_4_missing_match_tag_rejected: "test_v1_1_enc_scheme_4_missing_match_tag_rejected ser de"
  unfolding test_v1_1_enc_scheme_4_missing_match_tag_rejected_def by (rule encode_refused; code_simp)

lemma pass_v1_1_enc_scheme_4_missing_enc_counterpart_rejected: "test_v1_1_enc_scheme_4_missing_enc_counterpart_rejected ser de"
  unfolding test_v1_1_enc_scheme_4_missing_enc_counterpart_rejected_def by (rule encode_refused; code_simp)

lemma pass_v1_1_sig_scheme_1_rejected_as_phase_3_reserved: "test_v1_1_sig_scheme_1_rejected_as_phase_3_reserved ser de"
  unfolding test_v1_1_sig_scheme_1_rejected_as_phase_3_reserved_def by (rule encode_refused; code_simp)

lemma pass_v1_1_sealed_signer_field_rejected_as_phase_3_reserved: "test_v1_1_sealed_signer_field_rejected_as_phase_3_reserved ser de"
  unfolding test_v1_1_sealed_signer_field_rejected_as_phase_3_reserved_def by (rule encode_refused; code_simp)

lemma pass_v1_1_deprecated_mls_enc_scheme_rejected: "test_v1_1_deprecated_mls_enc_scheme_rejected ser de"
  unfolding test_v1_1_deprecated_mls_enc_scheme_rejected_def by (rule plain_error, simp add: plain_eval, code_simp)

lemma pass_v1_1_unknown_enc_scheme_rejected: "test_v1_1_unknown_enc_scheme_rejected ser de"
  unfolding test_v1_1_unknown_enc_scheme_rejected_def by (rule plain_error, simp add: plain_eval, code_simp)

lemma pass_v1_1_member_tag_wrong_length_rejected: "test_v1_1_member_tag_wrong_length_rejected ser de"
  unfolding test_v1_1_member_tag_wrong_length_rejected_def by (rule plain_error, simp add: plain_eval, code_simp)

lemma pass_v1_1_sealed_member_join_without_group_enc_rejected: "test_v1_1_sealed_member_join_without_group_enc_rejected ser de"
  unfolding test_v1_1_sealed_member_join_without_group_enc_rejected_def by (rule encode_refused; code_simp)

lemma pass_v1_1_parser_accepts_pure_v1_0_event_unchanged: "test_v1_1_parser_accepts_pure_v1_0_event_unchanged ser de"
  unfolding test_v1_1_parser_accepts_pure_v1_0_event_unchanged_def Let_def
  by (rule roundtrip_then, rule small_eventI, code_simp, simp add: event_eval, code_simp, code_simp,
    simp add: event_eval, code_simp)

lemma pass_h6_role_assign_round_trip_carries_target_and_role: "test_h6_role_assign_round_trip_carries_target_and_role ser de"
  unfolding test_h6_role_assign_round_trip_carries_target_and_role_def Let_def
  by (rule roundtrip_then, rule small_eventI, code_simp, simp add: event_eval, code_simp, code_simp,
    simp add: event_eval, code_simp)

lemma pass_h6_role_assign_missing_target_rejected_at_validate: "test_h6_role_assign_missing_target_rejected_at_validate ser de"
  unfolding test_h6_role_assign_missing_target_rejected_at_validate_def by (rule encode_refused; code_simp)

lemma pass_h6_role_assign_missing_role_rejected_at_validate: "test_h6_role_assign_missing_role_rejected_at_validate ser de"
  unfolding test_h6_role_assign_missing_role_rejected_at_validate_def by (rule encode_refused; code_simp)

lemma pass_h6_role_assign_out_of_range_role_rejected: "test_h6_role_assign_out_of_range_role_rejected ser de"
  unfolding test_h6_role_assign_out_of_range_role_rejected_def by (rule encode_refused; code_simp)

lemma pass_h6_role_assign_short_target_rejected: "test_h6_role_assign_short_target_rejected ser de"
  unfolding test_h6_role_assign_short_target_rejected_def by (rule encode_refused; code_simp)

lemma pass_h6_role_revoke_accepts_omitted_role: "test_h6_role_revoke_accepts_omitted_role ser de"
  unfolding test_h6_role_revoke_accepts_omitted_role_def Let_def
  by (rule roundtrip_then, rule small_eventI, code_simp, simp add: event_eval, code_simp, code_simp,
    simp add: event_eval, code_simp)

lemma pass_h6_role_revoke_requires_target: "test_h6_role_revoke_requires_target ser de"
  unfolding test_h6_role_revoke_requires_target_def by (rule encode_refused; code_simp)

lemma pass_h6_role_assign_channel_scoped_round_trip: "test_h6_role_assign_channel_scoped_round_trip ser de"
  unfolding test_h6_role_assign_channel_scoped_round_trip_def Let_def
  by (rule roundtrip_then, rule small_eventI, code_simp, simp add: event_eval, code_simp, code_simp,
    simp add: event_eval, code_simp)

lemma pass_h6_key_31_and_32_no_longer_extension_fields: "test_h6_key_31_and_32_no_longer_extension_fields ser de"
  unfolding test_h6_key_31_and_32_no_longer_extension_fields_def Let_def
  by (rule roundtrip_then, rule small_eventI, code_simp, simp add: event_eval, code_simp, code_simp,
    simp add: event_eval, code_simp)

lemma payload_tests_pass: "payload_tests ser de"
proof -
  have "wire_tests ser de" unfolding wire_tests_def
    by (intro conjI pass_v0_server_create_roundtrip pass_v0_message_post_requires_ref
      pass_dm_must_not_have_sid pass_wrong_prefix_rejected pass_duplicate_key_rejected
      pass_out_of_order_keys_rejected_at_wire pass_v1_minimal_message_post
      pass_v1_requires_enc_scheme pass_v1_enc_scheme_must_agree_with_enc
      pass_ephemeral_event_types_rejected_on_chain pass_extension_keys_preserved_opaquely
      pass_future_version_returns_future_variant pass_opaque_event_type_returns_opaque_variant)
  moreover have "v1_1_tests ser de" unfolding v1_1_tests_def
    by (intro conjI pass_v1_1_sealed_member_join_roundtrip pass_v1_1_sealed_member_leave_roundtrip
      pass_v1_1_key_rotate_roundtrip pass_v1_1_sealed_event_roundtrip
      pass_v1_1_enc_scheme_4_typed_message_post_roundtrip
      pass_v1_1_enc_scheme_4_missing_match_tag_rejected
      pass_v1_1_enc_scheme_4_missing_enc_counterpart_rejected
      pass_v1_1_sig_scheme_1_rejected_as_phase_3_reserved
      pass_v1_1_sealed_signer_field_rejected_as_phase_3_reserved
      pass_v1_1_deprecated_mls_enc_scheme_rejected pass_v1_1_unknown_enc_scheme_rejected
      pass_v1_1_member_tag_wrong_length_rejected
      pass_v1_1_sealed_member_join_without_group_enc_rejected
      pass_v1_1_parser_accepts_pure_v1_0_event_unchanged)
  moreover have "role_tests ser de" unfolding role_tests_def
    by (intro conjI pass_h6_role_assign_round_trip_carries_target_and_role
      pass_h6_role_assign_missing_target_rejected_at_validate
      pass_h6_role_assign_missing_role_rejected_at_validate
      pass_h6_role_assign_out_of_range_role_rejected pass_h6_role_assign_short_target_rejected
      pass_h6_role_revoke_accepts_omitted_role pass_h6_role_revoke_requires_target
      pass_h6_role_assign_channel_scoped_round_trip
      pass_h6_key_31_and_32_no_longer_extension_fields)
  ultimately show ?thesis by (simp add: payload_tests_def)
qed

end

end
