(* ===== verification/Canonical_Tests.thy ===== *)
theory Canonical_Tests
  imports Cbor_Write
begin

text \<open>
  The unit tests of \<open>protocol/src/canonical.rs\<close>, one definition per test function. The helper \<open>enc\<close> of
  the tests is the parameter, the writer of the CBOR library; the tests hold for every writer that
  satisfies \<open>cbor_writer\<close>.
\<close>

definition test_canonical_simple_map_ok :: "(cval \<Rightarrow> bytes) \<Rightarrow> bool" where
  "test_canonical_simple_map_ok enc \<longleftrightarrow>
     validate_canonical (enc (Map [(Integer 0, Integer 0), (Integer 1, Integer 4), (Integer 8, Bool False)])) = Inr ()"

definition test_out_of_order_keys_rejected :: "(cval \<Rightarrow> bytes) \<Rightarrow> bool" where
  "test_out_of_order_keys_rejected enc \<longleftrightarrow>
     (case validate_canonical (enc (Map [(Integer 1, Integer 0), (Integer 0, Integer 0)])) of
        Inl (KeysOutOfOrder _) \<Rightarrow> True | _ \<Rightarrow> False)"

definition test_duplicate_keys_rejected :: "(cval \<Rightarrow> bytes) \<Rightarrow> bool" where
  "test_duplicate_keys_rejected enc \<longleftrightarrow>
     (case validate_canonical (enc (Map [(Integer 0, Integer 0), (Integer 0, Integer 0)])) of
        Inl (DuplicateKey _ _) \<Rightarrow> True | _ \<Rightarrow> False)"

definition test_non_uint_key_rejected :: "(cval \<Rightarrow> bytes) \<Rightarrow> bool" where
  "test_non_uint_key_rejected enc \<longleftrightarrow>
     (case validate_canonical (enc (Map [(Text [0x78], Integer 0)])) of
        Inl (NonUintKey _) \<Rightarrow> True | _ \<Rightarrow> False)"

text \<open>\<open>0x3FF8000000000000\<close> is the double 1.5.\<close>

definition test_float_rejected :: "(cval \<Rightarrow> bytes) \<Rightarrow> bool" where
  "test_float_rejected enc \<longleftrightarrow>
     (case validate_canonical (enc (Float 0x3FF8000000000000)) of
        Inl (FloatForbidden _) \<Rightarrow> True | _ \<Rightarrow> False)"

definition test_tag_rejected :: "(cval \<Rightarrow> bytes) \<Rightarrow> bool" where
  "test_tag_rejected enc \<longleftrightarrow>
     (case validate_canonical (enc (Tag 0 (Integer 1))) of
        Inl (TaggedItem _ _) \<Rightarrow> True | _ \<Rightarrow> False)"

definition test_non_shortest_form_uint_rejected :: bool where
  "test_non_shortest_form_uint_rejected \<longleftrightarrow> validate_canonical [0x18, 0x01] = Inl (NonShortestForm 0)"

definition test_indefinite_length_rejected :: bool where
  "test_indefinite_length_rejected \<longleftrightarrow>
     (case validate_canonical [0x5F, 0x40, 0xFF] of Inl (IndefiniteLength _) \<Rightarrow> True | _ \<Rightarrow> False)"

definition test_trailing_bytes_rejected :: "(cval \<Rightarrow> bytes) \<Rightarrow> bool" where
  "test_trailing_bytes_rejected enc \<longleftrightarrow>
     (case validate_canonical (enc (Integer 0) @ [0xAA]) of Inl (TrailingBytes _) \<Rightarrow> True | _ \<Rightarrow> False)"

definition test_truncated_rejected :: bool where
  "test_truncated_rejected \<longleftrightarrow> (case validate_canonical [0x18] of Inl (Truncated _) \<Rightarrow> True | _ \<Rightarrow> False)"

text \<open>\<open>for _ in 0..n { v = Array(vec![v]) }\<close>\<close>

fun nest_arrays :: "nat \<Rightarrow> cval \<Rightarrow> cval" where
  "nest_arrays 0 v = v"
| "nest_arrays (Suc n) v = nest_arrays n (Array [v])"

definition test_deep_nesting_rejected :: "(cval \<Rightarrow> bytes) \<Rightarrow> bool" where
  "test_deep_nesting_rejected enc \<longleftrightarrow>
     (case validate_canonical (enc (nest_arrays (MAX_NESTING_DEPTH + 2) (Integer 0))) of
        Inl (NestingTooDeep _) \<Rightarrow> True | _ \<Rightarrow> False)"

definition canonical_tests :: "(cval \<Rightarrow> bytes) \<Rightarrow> bool" where
  "canonical_tests enc \<longleftrightarrow> test_canonical_simple_map_ok enc \<and> test_out_of_order_keys_rejected enc \<and>
     test_duplicate_keys_rejected enc \<and> test_non_uint_key_rejected enc \<and> test_float_rejected enc \<and>
     test_tag_rejected enc \<and> test_non_shortest_form_uint_rejected \<and> test_indefinite_length_rejected \<and>
     test_trailing_bytes_rejected enc \<and> test_truncated_rejected \<and> test_deep_nesting_rejected enc"

section \<open>The tests pass\<close>

text \<open>What the writer puts out for the inputs of the tests, as bytes.\<close>

context cbor_writer
begin

lemma nested_bytes: "ser (nest_arrays n v) = replicate n 0x81 @ ser v"
proof (induction n arbitrary: v)
  case (Suc n)
  then show ?case by (simp add: written replicate_append_same [symmetric])
qed simp

lemma float_head: "h \<in> {0xF9, 0xFA, 0xFB} \<Longrightarrow> validate_canonical (h # bs) = Inl (FloatForbidden 0)"
  unfolding validate_canonical_def
  by (subst walk_item.simps) (auto simp: read_u8_def major_of_def info_of_def MAX_NESTING_DEPTH_def)

lemma canonical_tests_pass: "canonical_tests ser"
proof -
  have "validate_canonical [0xA3, 0, 0, 1, 4, 8, 0xF4] = Inr ()" by code_simp
  then have "test_canonical_simple_map_ok ser"
    by (simp add: test_canonical_simple_map_ok_def written)
  moreover have "validate_canonical [0xA2, 1, 0, 0, 0] = Inl (KeysOutOfOrder 3)" by code_simp
  then have "test_out_of_order_keys_rejected ser"
    by (simp add: test_out_of_order_keys_rejected_def written)
  moreover have "validate_canonical [0xA2, 0, 0, 0, 0] = Inl (DuplicateKey 0 3)" by code_simp
  then have "test_duplicate_keys_rejected ser"
    by (simp add: test_duplicate_keys_rejected_def written)
  moreover have "validate_canonical [0xA1, 0x61, 0x78, 0] = Inl (NonUintKey 1)" by code_simp
  then have "test_non_uint_key_rejected ser"
    by (simp add: test_non_uint_key_rejected_def written)
  moreover have "test_float_rejected ser"
    using ser_Float [of "0x3FF8000000000000"] float_head by (fastforce simp: test_float_rejected_def)
  moreover have "validate_canonical [0xC0, 1] = Inl (TaggedItem 0 0)" by code_simp
  then have "test_tag_rejected ser"
    by (simp add: test_tag_rejected_def written)
  moreover have "validate_canonical [0, 0xAA] = Inl (TrailingBytes 1)" by code_simp
  then have "test_trailing_bytes_rejected ser"
    by (simp add: test_trailing_bytes_rejected_def written)
  moreover have "validate_canonical (replicate 10 0x81 @ [0]) = Inl (NestingTooDeep 9)" by code_simp
  then have "test_deep_nesting_rejected ser"
    by (simp add: test_deep_nesting_rejected_def nested_bytes MAX_NESTING_DEPTH_def written)
  moreover have test_non_shortest_form_uint_rejected test_indefinite_length_rejected test_truncated_rejected
    by code_simp+
  ultimately show ?thesis by (simp add: canonical_tests_def)
qed

end

end
