(* ===== verification/Encode_Tests.thy ===== *)
theory Encode_Tests
  imports Payload_Tests Canonical_Tests
begin

text \<open>
  The unit tests of \<open>protocol/src/encode.rs\<close>, one definition per test function.
\<close>

text \<open>\<open>ref_cid()\<close> is \<open>ref_from_cid_str("bagaaaa").unwrap()\<close>.\<close>

definition test_encode_ref_cid :: bytes where
  "test_encode_ref_cid = (case ref_from_cid_str (ascii ''bagaaaa'') of Inr r \<Rightarrow> r | Inl _ \<Rightarrow> [])"

definition test_encode_then_parse_v1_roundtrip :: codec_test where
  "test_encode_then_parse_v1_roundtrip ser de \<longleftrightarrow>
     (let ev = default_event \<lparr> ev_v := 1, ev_t := MessagePost, ev_sid := Some (replicate 32 1),
       ev_cid := Some (replicate 32 2), ev_ref_bytes := Some test_encode_ref_cid, ev_enc := False,
       ev_enc_scheme := Some 0, ev_ts := Some 123, ev_n := Some 1 \<rparr> in
      encode_then_parse ser de ev = Some ev)"

text \<open>The body of the loop over \<open>cases\<close>; the labels only appear in the panic messages.\<close>

definition reencodes_identically :: "(cval \<Rightarrow> bytes) \<Rightarrow> (bytes \<Rightarrow> string + cval) \<Rightarrow> ParsedKommsEvent \<Rightarrow> bool" where
  "reencodes_identically ser de ev \<longleftrightarrow>
     (case encode_komms_payload ser ev of
        Inl _ \<Rightarrow> False
      | Inr original \<Rightarrow>
          (case parse_komms_payload de original of
             Inl _ \<Rightarrow> False
           | Inr parsed \<Rightarrow>
               (case encode_komms_payload ser parsed of
                  Inl _ \<Rightarrow> False
                | Inr reenc \<Rightarrow> original = reenc \<and> ev_enc_scheme parsed \<noteq> None)))"

definition v0_cases :: "ParsedKommsEvent list" where
  "v0_cases =
     [default_event \<lparr> ev_v := 0, ev_t := ServerCreate, ev_sid := Some (replicate 32 0x11), ev_enc := False \<rparr>,
      default_event \<lparr> ev_v := 0, ev_t := MessagePost, ev_sid := Some (replicate 32 0x22),
        ev_cid := Some (replicate 32 0x33), ev_ref_bytes := Some test_encode_ref_cid, ev_enc := False \<rparr>,
      default_event \<lparr> ev_v := 0, ev_t := DmMessagePost, ev_did := Some (replicate 32 0x44),
        ev_ref_bytes := Some test_encode_ref_cid, ev_enc := True, ev_ts := Some 1700000000, ev_n := Some 7 \<rparr>,
      default_event \<lparr> ev_v := 0, ev_t := MemberJoin, ev_sid := Some (replicate 32 0x55),
        ev_pid := Some (replicate 32 0x66), ev_enc := False \<rparr>]"

definition test_v0_event_roundtrip_is_byte_identical :: codec_test where
  "test_v0_event_roundtrip_is_byte_identical ser de \<longleftrightarrow> list_all (reencodes_identically ser de) v0_cases"

definition test_signing_payload_excludes_sig :: codec_test where
  "test_signing_payload_excludes_sig ser de \<longleftrightarrow>
     (let ev = default_event \<lparr> ev_v := 1, ev_t := MessagePost, ev_sid := Some (replicate 32 1),
       ev_cid := Some (replicate 32 2), ev_ref_bytes := Some test_encode_ref_cid, ev_enc := False,
       ev_enc_scheme := Some 0, ev_ts := Some 42, ev_n := Some 2, ev_sig := Some (replicate 64 9) \<rparr>;
          without_sig = ev\<lparr>ev_sig := None\<rparr> in
      case signing_payload_cbor ser ev of
        Inl _ \<Rightarrow> False
      | Inr signing \<Rightarrow> encode_cbor_map ser without_sig = Inr signing)"

definition encode_tests :: codec_test where
  "encode_tests ser de \<longleftrightarrow> test_encode_then_parse_v1_roundtrip ser de \<and>
     test_v0_event_roundtrip_is_byte_identical ser de \<and> test_signing_payload_excludes_sig ser de"

section \<open>The tests pass\<close>

lemma encode_ref_cid: "test_encode_ref_cid = [0x01, 0x62, 0x61, 0x67, 0x61, 0x61, 0x61, 0x61]"
  by code_simp

context cbor_writer
begin

lemma reencodes_small:
  assumes "small_event ev" and "ev_v ev = 0" and "event_pairs (as_parsed ev) = event_pairs ev"
  shows "reencodes_identically ser de ev"
proof -
  have valid: "validate_event ev = Inr ()" "validate_event (as_parsed ev) = Inr ()"
    using assms(1) by (simp_all add: small_event_def)
  have enc: "encode_komms_payload ser x = Inr (KOMMS_PAYLOAD_PREFIX @ ser (Map (event_pairs ev)))"
    if "x \<in> {ev, as_parsed ev}" for x
    using valid assms(3) that by (auto simp: encode_komms_payload_def bindE_Inr_iff encode_cbor_map_Inr)
  have "parse_komms_payload de (KOMMS_PAYLOAD_PREFIX @ ser (Map (event_pairs ev))) = Inr (as_parsed ev)"
    using small_event_roundtrip [OF assms(1)] enc [of ev]
    by (auto simp: encode_then_parse_def split: sum.splits)
  then show ?thesis
    using enc assms(2) by (simp add: reencodes_identically_def) (simp add: as_parsed_def)
qed

lemma pass_v0_event_roundtrip: "test_v0_event_roundtrip_is_byte_identical ser de"
proof -
  have four: "P a \<Longrightarrow> P b \<Longrightarrow> P c \<Longrightarrow> P d \<Longrightarrow> list_all P [a, b, c, d]" for P and a b c d :: ParsedKommsEvent
    by simp
  show ?thesis
    unfolding test_v0_event_roundtrip_is_byte_identical_def v0_cases_def
    by (rule four; (rule reencodes_small, rule small_eventI, code_simp, simp add: event_eval encode_ref_cid,
        code_simp, code_simp, simp add: event_eval encode_ref_cid, code_simp, code_simp))
qed

lemma pass_encode_then_parse_v1_roundtrip: "test_encode_then_parse_v1_roundtrip ser de"
  unfolding test_encode_then_parse_v1_roundtrip_def Let_def
  by (rule roundtrip_equal, rule small_eventI, code_simp, simp add: event_eval encode_ref_cid, code_simp, code_simp,
      simp add: event_eval encode_ref_cid, code_simp)

lemma pass_signing_payload_excludes_sig: "test_signing_payload_excludes_sig ser de"
proof -
  let ?ev = "default_event \<lparr> ev_v := 1, ev_t := MessagePost, ev_sid := Some (replicate 32 1),
       ev_cid := Some (replicate 32 2), ev_ref_bytes := Some test_encode_ref_cid, ev_enc := False,
       ev_enc_scheme := Some 0, ev_ts := Some 42, ev_n := Some 2, ev_sig := Some (replicate 64 9) \<rparr>"
  have "validate_event (?ev\<lparr>ev_sig := None\<rparr>) = Inr ()" by code_simp
  then have "encode_cbor_map ser (?ev\<lparr>ev_sig := None\<rparr>) = Inr (ser (Map (event_pairs (?ev\<lparr>ev_sig := None\<rparr>))))"
    unfolding encode_cbor_map_Inr by simp
  then show ?thesis
    unfolding test_signing_payload_excludes_sig_def signing_payload_cbor_def Let_def by (simp only: sum.case)
qed

lemma encode_tests_pass: "encode_tests ser de"
  by (simp add: encode_tests_def pass_encode_then_parse_v1_roundtrip pass_v0_event_roundtrip
      pass_signing_payload_excludes_sig)

end

end
