(* ===== verification/Verify_Tests.thy ===== *)
theory Verify_Tests
  imports Verify Encode_Tests
begin

text \<open>
  The unit tests of \<open>protocol/src/verify.rs\<close>. Ed25519 is given by \<open>pubkey\<close> and \<open>sign\<close> (deterministic
  signing from a 32-byte seed) beside the parameters of \<open>Verify\<close>. The test on an invalid public
  key first asserts that the library refuses its fixture, so this is part of the test.
\<close>

record ed25519 =
  pubkey :: "bytes \<Rightarrow> bytes"
  sign_with :: "bytes \<Rightarrow> bytes \<Rightarrow> bytes"
  ed_key_ok :: "bytes \<Rightarrow> bool"
  ed_verify_strict :: "bytes \<Rightarrow> bytes \<Rightarrow> bytes \<Rightarrow> bool"

definition fixed_signing_key :: "u8 \<Rightarrow> bytes" where
  "fixed_signing_key seed_byte = replicate 32 seed_byte"

definition unsigned_message_event :: "ed25519 \<Rightarrow> bytes \<Rightarrow> ParsedKommsEvent" where
  "unsigned_message_event ed key = default_event \<lparr> ev_v := 1, ev_t := MessagePost,
     ev_sid := Some (replicate 32 0xAA), ev_cid := Some (replicate 32 0xBB),
     ev_ref_bytes := Some test_encode_ref_cid, ev_enc := False, ev_enc_scheme := Some 0,
     ev_ts := Some 1700000000, ev_n := Some 1, ev_device_pk := Some (pubkey ed key), ev_sig_scheme := Some 0 \<rparr>"

definition signed_message_event ::
  "ed25519 \<Rightarrow> (cval \<Rightarrow> bytes) \<Rightarrow> bytes \<Rightarrow> ValidationError + ParsedKommsEvent \<times> bytes" where
  "signed_message_event ed ser key =
     (let ev = unsigned_message_event ed key in
      bindE (signing_payload_cbor ser ev) (\<lambda>to_sign.
        Inr (ev\<lparr>ev_sig := Some (sign_with ed key to_sign)\<rparr>, pubkey ed key)))"

text \<open>A test on a signed event: \<open>check ev pk\<close> holds for the event and key of the fixture.\<close>

definition with_signed ::
  "ed25519 \<Rightarrow> (cval \<Rightarrow> bytes) \<Rightarrow> u8 \<Rightarrow> (ParsedKommsEvent \<Rightarrow> bytes \<Rightarrow> bool) \<Rightarrow> bool" where
  "with_signed ed ser seed check =
     (case signed_message_event ed ser (fixed_signing_key seed) of
        Inl _ \<Rightarrow> False | Inr (ev, pk) \<Rightarrow> check ev pk)"

definition ed_verify_event :: "ed25519 \<Rightarrow> (cval \<Rightarrow> bytes) \<Rightarrow> ParsedKommsEvent \<Rightarrow> bytes \<Rightarrow> VerifyError + unit" where
  "ed_verify_event ed = verify_event (ed_key_ok ed) (ed_verify_strict ed)"

definition test_verify_accepts_well_formed_sig :: "ed25519 \<Rightarrow> (cval \<Rightarrow> bytes) \<Rightarrow> bool" where
  "test_verify_accepts_well_formed_sig ed ser =
     with_signed ed ser 0xA1 (\<lambda>ev pk. ed_verify_event ed ser ev pk = Inr ())"

text \<open>\<open>bad[0] ^= 0x01\<close>\<close>

definition flip_first :: "bytes \<Rightarrow> bytes" where
  "flip_first bad = bad[0 := bad ! 0 XOR 1]"

definition test_verify_rejects_corrupted_sig :: "ed25519 \<Rightarrow> (cval \<Rightarrow> bytes) \<Rightarrow> bool" where
  "test_verify_rejects_corrupted_sig ed ser =
     with_signed ed ser 0xA2 (\<lambda>ev pk.
       case ev_sig ev of
         None \<Rightarrow> False
       | Some bad \<Rightarrow> ed_verify_event ed ser (ev\<lparr>ev_sig := Some (flip_first bad)\<rparr>) pk = Inl SignatureInvalid)"

definition test_verify_rejects_pubkey_mismatch :: "ed25519 \<Rightarrow> (cval \<Rightarrow> bytes) \<Rightarrow> bool" where
  "test_verify_rejects_pubkey_mismatch ed ser =
     with_signed ed ser 0xA3 (\<lambda>ev _.
       ed_verify_event ed ser ev (pubkey ed (fixed_signing_key 0xB4)) = Inl SignatureInvalid)"

definition test_verify_rejects_payload_tamper :: "ed25519 \<Rightarrow> (cval \<Rightarrow> bytes) \<Rightarrow> bool" where
  "test_verify_rejects_payload_tamper ed ser =
     with_signed ed ser 0xA5 (\<lambda>ev pk.
       case ev_ts ev of
         None \<Rightarrow> False
       | Some ts \<Rightarrow> ed_verify_event ed ser (ev\<lparr>ev_ts := Some (ts + 1)\<rparr>) pk = Inl SignatureInvalid)"

definition test_verify_missing_sig :: "ed25519 \<Rightarrow> (cval \<Rightarrow> bytes) \<Rightarrow> bool" where
  "test_verify_missing_sig ed ser =
     with_signed ed ser 0xA6 (\<lambda>ev pk.
       ed_verify_event ed ser (ev\<lparr>ev_sig := None\<rparr>) pk = Inl SignatureMissing)"

definition bogus_key :: bytes where
  "bogus_key = (replicate 32 0)[0 := 0x02]"

definition test_verify_invalid_pubkey :: "ed25519 \<Rightarrow> (cval \<Rightarrow> bytes) \<Rightarrow> bool" where
  "test_verify_invalid_pubkey ed ser \<longleftrightarrow> \<not> ed_key_ok ed bogus_key \<and>
     with_signed ed ser 0xA7 (\<lambda>ev _. ed_verify_event ed ser ev bogus_key = Inl InvalidPubkey)"

definition test_signer_pubkey_device_pk :: "ed25519 \<Rightarrow> (cval \<Rightarrow> bytes) \<Rightarrow> bool" where
  "test_signer_pubkey_device_pk ed ser =
     with_signed ed ser 0xA8 (\<lambda>ev pk. signer_pubkey_from_event ev = InBand pk)"

definition test_signer_pubkey_out_of_band :: bool where
  "test_signer_pubkey_out_of_band \<longleftrightarrow> signer_pubkey_from_event
     (default_event \<lparr> ev_v := 0, ev_t := MessagePost, ev_sid := Some (replicate 32 0xAA),
        ev_cid := Some (replicate 32 0xBB), ev_ref_bytes := Some test_encode_ref_cid, ev_enc := False,
        ev_ts := Some 42, ev_n := Some 1 \<rparr>) = OutOfBand"

definition test_verify_matches_direct :: "ed25519 \<Rightarrow> (cval \<Rightarrow> bytes) \<Rightarrow> bool" where
  "test_verify_matches_direct ed ser =
     with_signed ed ser 0xA9 (\<lambda>ev pk.
       ed_key_ok ed pk \<and>
       (case (ev_sig ev, signing_payload_cbor ser ev) of
          (Some sig, Inr canonical) \<Rightarrow> ed_verify_strict ed pk canonical sig
        | _ \<Rightarrow> False) \<and>
       ed_verify_event ed ser ev pk = Inr ())"

definition verify_tests :: "ed25519 \<Rightarrow> (cval \<Rightarrow> bytes) \<Rightarrow> bool" where
  "verify_tests ed ser \<longleftrightarrow> test_verify_accepts_well_formed_sig ed ser \<and>
     test_verify_rejects_corrupted_sig ed ser \<and> test_verify_rejects_pubkey_mismatch ed ser \<and>
     test_verify_rejects_payload_tamper ed ser \<and> test_verify_missing_sig ed ser \<and>
     test_verify_invalid_pubkey ed ser \<and> test_signer_pubkey_device_pk ed ser \<and>
     test_signer_pubkey_out_of_band \<and> test_verify_matches_direct ed ser"

section \<open>When the tests pass\<close>

text \<open>The bytes the fixture signs, with another timestamp for the tampering test.\<close>

definition fixture_bytes :: "ed25519 \<Rightarrow> (cval \<Rightarrow> bytes) \<Rightarrow> u8 \<Rightarrow> u64 \<Rightarrow> bytes" where
  "fixture_bytes ed ser seed ts =
     ser (Map (event_pairs ((unsigned_message_event ed (fixed_signing_key seed))\<lparr>ev_ts := Some ts\<rparr>)))"

lemma valid_fixture:
  "validate_event ((unsigned_message_event ed key)\<lparr>ev_ts := Some ts\<rparr>) = Inr ()"
  by (rule valid_I) (simp_all add: unsigned_message_event_def default_event_def row_defs encode_ref_cid)

lemma signing_fixture:
  "signing_payload_cbor ser ((unsigned_message_event ed (fixed_signing_key seed))\<lparr>ev_ts := Some ts, ev_sig := x\<rparr>)
     = Inr (fixture_bytes ed ser seed ts)"
proof -
  have "(unsigned_message_event ed (fixed_signing_key seed))\<lparr>ev_ts := Some ts, ev_sig := None\<rparr>
      = (unsigned_message_event ed (fixed_signing_key seed))\<lparr>ev_ts := Some ts\<rparr>"
    by (simp add: unsigned_message_event_def default_event_def)
  then show ?thesis
    using valid_fixture [where ed = ed and key = "fixed_signing_key seed" and ts = ts]
    by (simp add: signing_payload_cbor_def encode_cbor_map_Inr fixture_bytes_def)
qed

lemma fixture_ts: "(unsigned_message_event ed key)\<lparr>ev_ts := Some 1700000000\<rparr> = unsigned_message_event ed key"
  by (simp add: unsigned_message_event_def)

lemma fixture_fields:
  "ev_ts (unsigned_message_event ed key) = Some 1700000000"
  "ev_device_pk (unsigned_message_event ed key) = Some (pubkey ed key)"
  by (simp_all add: unsigned_message_event_def)

lemma signing_fixture_now:
  "signing_payload_cbor ser ((unsigned_message_event ed (fixed_signing_key seed))\<lparr>ev_sig := x\<rparr>)
     = Inr (fixture_bytes ed ser seed 1700000000)"
  "signing_payload_cbor ser (unsigned_message_event ed (fixed_signing_key seed))
     = Inr (fixture_bytes ed ser seed 1700000000)"
  using signing_fixture [where ts = 1700000000 and x = x and ed = ed and seed = seed and ser = ser]
    signing_fixture [where ts = 1700000000 and x = None and ed = ed and seed = seed and ser = ser]
  by (simp_all add: fixture_ts) (simp add: unsigned_message_event_def default_event_def)

lemma with_signed_iff:
  "with_signed ed ser seed check \<longleftrightarrow>
     check ((unsigned_message_event ed (fixed_signing_key seed))\<lparr>ev_sig :=
        Some (sign_with ed (fixed_signing_key seed) (fixture_bytes ed ser seed 1700000000))\<rparr>)
       (pubkey ed (fixed_signing_key seed))"
  by (simp add: with_signed_def signed_message_event_def Let_def signing_fixture_now)

lemma flip_first_ne: "bad \<noteq> [] \<Longrightarrow> flip_first bad \<noteq> bad"
proof
  assume "bad \<noteq> []" "flip_first bad = bad"
  then have "bad ! 0 XOR 1 = bad ! 0" unfolding flip_first_def by (metis length_greater_0_conv nth_list_update_eq)
  then have "bit (bad ! 0 XOR 1) 0 = bit (bad ! 0) 0" by simp
  then show False by (simp add: bit_simps)
qed

text \<open>
  The signature scheme does what the library documents: keys made from seeds decode, the fixture
  of the library's own tests does not, and the strict check accepts under a key exactly the
  signature the (deterministic) signer makes.
\<close>

definition ed25519_laws :: "ed25519 \<Rightarrow> bool" where
  "ed25519_laws ed \<longleftrightarrow> (\<forall>s. ed_key_ok ed (pubkey ed s)) \<and> \<not> ed_key_ok ed bogus_key \<and>
     (\<forall>s m. length (sign_with ed s m) = 64) \<and>
     (\<forall>s m sig. ed_verify_strict ed (pubkey ed s) m sig \<longleftrightarrow> sig = sign_with ed s m)"

lemma ed_verify_fixture:
  "ed_verify_event ed ser ((unsigned_message_event ed (fixed_signing_key seed))\<lparr>ev_ts := Some ts, ev_sig := Some sig\<rparr>) pk =
      (if \<not> ed_key_ok ed pk then Inl InvalidPubkey
       else if \<not> ed_verify_strict ed pk (fixture_bytes ed ser seed ts) sig then Inl SignatureInvalid else Inr ())"
  by (simp add: ed_verify_event_def verify_event_def signing_fixture ok_or_def)

lemmas ed_verify_now = ed_verify_fixture [where ts = 1700000000, unfolded fixture_ts]

lemma ed_verify_later:
  "ed_verify_event ed ser ((unsigned_message_event ed (fixed_signing_key seed))\<lparr>ev_sig := Some sig, ev_ts := Some ts\<rparr>) pk =
      (if \<not> ed_key_ok ed pk then Inl InvalidPubkey
       else if \<not> ed_verify_strict ed pk (fixture_bytes ed ser seed ts) sig then Inl SignatureInvalid else Inr ())"
proof -
  have "(unsigned_message_event ed (fixed_signing_key seed))\<lparr>ev_sig := Some sig, ev_ts := Some ts\<rparr>
      = (unsigned_message_event ed (fixed_signing_key seed))\<lparr>ev_ts := Some ts, ev_sig := Some sig\<rparr>" by simp
  then show ?thesis by (simp only: ed_verify_fixture)
qed

lemma ed_simps:
  assumes "ed25519_laws ed"
  shows "ed_key_ok ed (pubkey ed s)" "\<not> ed_key_ok ed bogus_key" "sign_with ed s m \<noteq> []"
    "ed_verify_strict ed (pubkey ed s) m sig \<longleftrightarrow> sig = sign_with ed s m"
  using assms by (auto simp: ed25519_laws_def) (metis length_0_conv zero_neq_numeral)

lemma pass_accepting:
  assumes "ed25519_laws ed"
  shows "test_verify_accepts_well_formed_sig ed ser" "test_verify_missing_sig ed ser"
    "test_verify_invalid_pubkey ed ser" "test_signer_pubkey_device_pk ed ser" "test_verify_matches_direct ed ser"
proof -
  note defs = with_signed_iff ed_verify_now ed_simps [OF assms]
  show "test_verify_accepts_well_formed_sig ed ser"
    by (simp add: test_verify_accepts_well_formed_sig_def defs)
  show "test_verify_missing_sig ed ser"
    by (simp add: test_verify_missing_sig_def with_signed_iff ed_verify_event_def verify_event_def ok_or_def)
  show "test_verify_invalid_pubkey ed ser"
    by (simp add: test_verify_invalid_pubkey_def defs)
  show "test_signer_pubkey_device_pk ed ser"
    by (simp add: test_signer_pubkey_device_pk_def with_signed_iff signer_pubkey_from_event_def fixture_fields)
  show "test_verify_matches_direct ed ser"
    by (simp add: test_verify_matches_direct_def defs signing_fixture_now)
qed

lemma pass_corrupted: "ed25519_laws ed \<Longrightarrow> test_verify_rejects_corrupted_sig ed ser"
  using flip_first_ne ed_simps(3)
  by (simp add: test_verify_rejects_corrupted_sig_def with_signed_iff ed_verify_now ed_simps)

lemma pass_mismatch: "ed25519_laws ed \<Longrightarrow> test_verify_rejects_pubkey_mismatch ed ser \<longleftrightarrow>
    sign_with ed (fixed_signing_key 0xA3) (fixture_bytes ed ser 0xA3 1700000000)
      \<noteq> sign_with ed (fixed_signing_key 0xB4) (fixture_bytes ed ser 0xA3 1700000000)"
  by (simp add: test_verify_rejects_pubkey_mismatch_def with_signed_iff ed_verify_now ed_simps)

lemma pass_tamper: "ed25519_laws ed \<Longrightarrow> test_verify_rejects_payload_tamper ed ser \<longleftrightarrow>
    sign_with ed (fixed_signing_key 0xA5) (fixture_bytes ed ser 0xA5 1700000000)
      \<noteq> sign_with ed (fixed_signing_key 0xA5) (fixture_bytes ed ser 0xA5 1700000001)"
  by (simp add: test_verify_rejects_payload_tamper_def with_signed_iff fixture_fields ed_verify_later ed_simps)

lemma pass_out_of_band: test_signer_pubkey_out_of_band
  by code_simp

lemma verify_tests_iff:
  assumes "ed25519_laws ed"
  shows "verify_tests ed ser \<longleftrightarrow>
    sign_with ed (fixed_signing_key 0xA3) (fixture_bytes ed ser 0xA3 1700000000)
      \<noteq> sign_with ed (fixed_signing_key 0xB4) (fixture_bytes ed ser 0xA3 1700000000) \<and>
    sign_with ed (fixed_signing_key 0xA5) (fixture_bytes ed ser 0xA5 1700000000)
      \<noteq> sign_with ed (fixed_signing_key 0xA5) (fixture_bytes ed ser 0xA5 1700000001)"
  using assms by (simp only: verify_tests_def pass_accepting pass_corrupted pass_mismatch pass_tamper
      pass_out_of_band simp_thms)

end
