(* ===== verification/Parity_Fixtures.thy ===== *)
theory Parity_Fixtures
  imports Encode_Tests Hexutil
begin

text \<open>
  The parity fixtures of \<open>protocol/tests/parity_fixtures.rs\<close>: the events whose printed encodings a
  TypeScript mirror of the encoder is compared with. \<open>dump\<close> gives the printed line, \<open>None\<close> where
  \<open>expect("encode")\<close> panics; \<open>fx_\<dots>\<close> is the event of one test function. Every fixture is encoded, and
  the printed bytes are read back as the event.
\<close>

definition ROLE_BANNED :: u8 where "ROLE_BANNED = 4"

definition dump :: "(cval \<Rightarrow> bytes) \<Rightarrow> string \<Rightarrow> ParsedKommsEvent \<Rightarrow> bytes option" where
  "dump ser name ev =
     (case encode_komms_payload ser ev of
        Inl _ \<Rightarrow> None
      | Inr bytes \<Rightarrow> Some (ascii ''FIXTURE name='' @ ascii name @ ascii '' hex='' @ base16_encode bytes))"

definition ref_hippius_cid :: bytes where
  "ref_hippius_cid = 0x01 # ascii ''bagaaiera1234567''"

definition ref_content_hash :: bytes where
  "ref_content_hash = 0x02 # replicate 32 0xAB"

definition TAG_MEMBER :: bytes where "TAG_MEMBER = replicate 16 0x71"
definition TAG_MATCH :: bytes where "TAG_MATCH = replicate 16 0x72"
definition member_sealed_bytes :: bytes where "member_sealed_bytes = replicate 64 0xC0"
definition enc_sid_bytes :: bytes where "enc_sid_bytes = replicate 48 0xC1"
definition enc_t_bytes :: bytes where "enc_t_bytes = replicate 8 0xC2"
definition target_address_bytes :: bytes where "target_address_bytes = 0 # replicate 32 0x42"

definition fx_v0_server_create :: ParsedKommsEvent where
  "fx_v0_server_create = default_event \<lparr>
    ev_v := 0, ev_t := ServerCreate, ev_sid := Some (replicate 32 0x11), ev_enc := False \<rparr>"

definition fx_v0_message_post :: ParsedKommsEvent where
  "fx_v0_message_post = default_event \<lparr>
    ev_v := 0, ev_t := MessagePost, ev_sid := Some (replicate 32 0x22),
      ev_cid := Some (replicate 32 0x33), ev_ref_bytes := Some ref_hippius_cid, ev_enc := False \<rparr>"

definition fx_v0_dm_message_post :: ParsedKommsEvent where
  "fx_v0_dm_message_post = default_event \<lparr>
    ev_v := 0, ev_t := DmMessagePost, ev_did := Some (replicate 32 0x44),
      ev_ref_bytes := Some ref_content_hash, ev_enc := True, ev_ts := Some 0x100000000000000,
      ev_n := Some 7 \<rparr>"

definition fx_v0_member_join :: ParsedKommsEvent where
  "fx_v0_member_join = default_event \<lparr>
    ev_v := 0, ev_t := MemberJoin, ev_sid := Some (replicate 32 0x55),
      ev_pid := Some (replicate 32 0x66), ev_enc := False \<rparr>"

definition fx_v1_message_post :: ParsedKommsEvent where
  "fx_v1_message_post = default_event \<lparr>
    ev_v := 1, ev_t := MessagePost, ev_sid := Some (replicate 32 0x77),
      ev_cid := Some (replicate 32 0x88), ev_ref_bytes := Some ref_hippius_cid, ev_enc := False,
      ev_ts := Some 1700000000, ev_n := Some 1, ev_enc_scheme := Some 0, ev_kind := Some 0,
      ev_sig_scheme := Some 0 \<rparr>"

definition fx_v1_reaction_add :: ParsedKommsEvent where
  "fx_v1_reaction_add = default_event \<lparr>
    ev_v := 1, ev_t := ReactionAdd, ev_sid := Some (replicate 32 0x99),
      ev_cid := Some (replicate 32 0xAA), ev_mid := Some (replicate 32 0xBB),
      ev_reaction_key := Some [0xF0, 0x9F, 0x91, 0x8D], ev_enc := False, ev_ts := Some 1700000001, ev_n := Some 2, ev_enc_scheme := Some 0 \<rparr>"

definition fx_v1_pin_message :: ParsedKommsEvent where
  "fx_v1_pin_message = default_event \<lparr>
    ev_v := 1, ev_t := PinMessage, ev_sid := Some (replicate 32 0xCC),
      ev_cid := Some (replicate 32 0xDD), ev_mid := Some (replicate 32 0xEE), ev_enc := False,
      ev_ts := Some 1700000002, ev_n := Some 3, ev_enc_scheme := Some 0 \<rparr>"

definition fx_v1_dm_image :: ParsedKommsEvent where
  "fx_v1_dm_image = default_event \<lparr>
    ev_v := 1, ev_t := DmMessagePost, ev_did := Some (replicate 32 0xFF),
      ev_ref_bytes := Some ref_content_hash, ev_enc := True, ev_ts := Some 1700000003,
      ev_n := Some 4, ev_enc_scheme := Some 1, ev_kind := Some 1, ev_mime := Some (ascii ''image/png''),
      ev_ref_type := Some 0x2 \<rparr>"

definition fx_v1_1_sealed_member_join :: ParsedKommsEvent where
  "fx_v1_1_sealed_member_join = default_event \<lparr>
    ev_v := 1, ev_t := SealedMemberJoin, ev_enc := True, ev_ts := Some 1700000010, ev_n := Some 11,
      ev_enc_scheme := Some 4, ev_member_tag := Some TAG_MEMBER,
      ev_member_sealed := Some member_sealed_bytes, ev_match_tag := Some TAG_MATCH,
      ev_key_epoch := Some 1 \<rparr>"

definition fx_v1_1_key_rotate :: ParsedKommsEvent where
  "fx_v1_1_key_rotate = default_event \<lparr>
    ev_v := 1, ev_t := KeyRotate, ev_enc := True, ev_ts := Some 1700000011, ev_n := Some 12,
      ev_enc_scheme := Some 4, ev_member_sealed := Some member_sealed_bytes,
      ev_match_tag := Some TAG_MATCH, ev_key_epoch := Some 2 \<rparr>"

definition fx_v1_1_sealed_event :: ParsedKommsEvent where
  "fx_v1_1_sealed_event = default_event \<lparr>
    ev_v := 1, ev_t := SealedEvent, ev_enc := True, ev_ts := Some 1700000012, ev_n := Some 13,
      ev_enc_scheme := Some 4, ev_enc_sid := Some enc_sid_bytes, ev_enc_t := Some enc_t_bytes,
      ev_match_tag := Some TAG_MATCH, ev_key_epoch := Some 3 \<rparr>"

definition fx_v1_2_role_assign :: ParsedKommsEvent where
  "fx_v1_2_role_assign = default_event \<lparr>
    ev_v := 1, ev_t := RoleAssign, ev_sid := Some (replicate 32 0xAA), ev_enc := False,
      ev_enc_scheme := Some 0, ev_ts := Some 1700000020, ev_n := Some 21,
      ev_role := Some ROLE_MODERATOR, ev_target := Some target_address_bytes \<rparr>"

definition fx_v1_2_role_assign_channel_scoped :: ParsedKommsEvent where
  "fx_v1_2_role_assign_channel_scoped = default_event \<lparr>
    ev_v := 1, ev_t := RoleAssign, ev_sid := Some (replicate 32 0xAA),
      ev_cid := Some (replicate 32 0xCC), ev_enc := False, ev_enc_scheme := Some 0,
      ev_ts := Some 1700000021, ev_n := Some 22, ev_role := Some ROLE_VIEWER,
      ev_target := Some target_address_bytes \<rparr>"

definition fx_v1_2_role_revoke_all :: ParsedKommsEvent where
  "fx_v1_2_role_revoke_all = default_event \<lparr>
    ev_v := 1, ev_t := RoleRevoke, ev_sid := Some (replicate 32 0xAA), ev_enc := False,
      ev_enc_scheme := Some 0, ev_ts := Some 1700000022, ev_n := Some 23, ev_role := None,
      ev_target := Some target_address_bytes \<rparr>"

definition fx_v1_2_role_revoke_specific :: ParsedKommsEvent where
  "fx_v1_2_role_revoke_specific = default_event \<lparr>
    ev_v := 1, ev_t := RoleRevoke, ev_sid := Some (replicate 32 0xAA), ev_enc := False,
      ev_enc_scheme := Some 0, ev_ts := Some 1700000023, ev_n := Some 24,
      ev_role := Some ROLE_BANNED, ev_target := Some target_address_bytes \<rparr>"

definition parity_fixtures :: "(string \<times> ParsedKommsEvent) list" where
  "parity_fixtures =
     [(''v0_server_create'', fx_v0_server_create),
      (''v0_message_post'', fx_v0_message_post),
      (''v0_dm_message_post'', fx_v0_dm_message_post),
      (''v0_member_join'', fx_v0_member_join),
      (''v1_message_post'', fx_v1_message_post),
      (''v1_reaction_add'', fx_v1_reaction_add),
      (''v1_pin_message'', fx_v1_pin_message),
      (''v1_dm_image'', fx_v1_dm_image),
      (''v1_1_sealed_member_join'', fx_v1_1_sealed_member_join),
      (''v1_1_key_rotate'', fx_v1_1_key_rotate),
      (''v1_1_sealed_event'', fx_v1_1_sealed_event),
      (''v1_2_role_assign'', fx_v1_2_role_assign),
      (''v1_2_role_assign_channel_scoped'', fx_v1_2_role_assign_channel_scoped),
      (''v1_2_role_revoke_all'', fx_v1_2_role_revoke_all),
      (''v1_2_role_revoke_specific'', fx_v1_2_role_revoke_specific)]"

section \<open>The fixtures are read back\<close>

lemmas fx_eval = ref_hippius_cid_def ref_content_hash_def TAG_MEMBER_def TAG_MATCH_def member_sealed_bytes_def
  enc_sid_bytes_def enc_t_bytes_def target_address_bytes_def event_eval

lemma small_fx_v0_server_create: "small_event fx_v0_server_create"
  unfolding fx_v0_server_create_def
  by (rule small_eventI, code_simp, simp add: fx_eval, code_simp, code_simp, simp add: fx_eval)

lemma small_fx_v0_message_post: "small_event fx_v0_message_post"
  unfolding fx_v0_message_post_def
  by (rule small_eventI, code_simp, simp add: fx_eval, code_simp, code_simp, simp add: fx_eval)

lemma small_fx_v0_dm_message_post: "small_event fx_v0_dm_message_post"
  unfolding fx_v0_dm_message_post_def
  by (rule small_eventI, code_simp, simp add: fx_eval, code_simp, code_simp, simp add: fx_eval)

lemma small_fx_v0_member_join: "small_event fx_v0_member_join"
  unfolding fx_v0_member_join_def
  by (rule small_eventI, code_simp, simp add: fx_eval, code_simp, code_simp, simp add: fx_eval)

lemma small_fx_v1_message_post: "small_event fx_v1_message_post"
  unfolding fx_v1_message_post_def
  by (rule small_eventI, code_simp, simp add: fx_eval, code_simp, code_simp, simp add: fx_eval)

lemma small_fx_v1_reaction_add: "small_event fx_v1_reaction_add"
  unfolding fx_v1_reaction_add_def
  by (rule small_eventI, code_simp, simp add: fx_eval, code_simp, code_simp, simp add: fx_eval)

lemma small_fx_v1_pin_message: "small_event fx_v1_pin_message"
  unfolding fx_v1_pin_message_def
  by (rule small_eventI, code_simp, simp add: fx_eval, code_simp, code_simp, simp add: fx_eval)

lemma small_fx_v1_dm_image: "small_event fx_v1_dm_image"
  unfolding fx_v1_dm_image_def
  by (rule small_eventI, code_simp, simp add: fx_eval, code_simp, code_simp, simp add: fx_eval)

lemma small_fx_v1_1_sealed_member_join: "small_event fx_v1_1_sealed_member_join"
  unfolding fx_v1_1_sealed_member_join_def
  by (rule small_eventI, code_simp, simp add: fx_eval, code_simp, code_simp, simp add: fx_eval)

lemma small_fx_v1_1_key_rotate: "small_event fx_v1_1_key_rotate"
  unfolding fx_v1_1_key_rotate_def
  by (rule small_eventI, code_simp, simp add: fx_eval, code_simp, code_simp, simp add: fx_eval)

lemma small_fx_v1_1_sealed_event: "small_event fx_v1_1_sealed_event"
  unfolding fx_v1_1_sealed_event_def
  by (rule small_eventI, code_simp, simp add: fx_eval, code_simp, code_simp, simp add: fx_eval)

lemma small_fx_v1_2_role_assign: "small_event fx_v1_2_role_assign"
  unfolding fx_v1_2_role_assign_def
  by (rule small_eventI, code_simp, simp add: fx_eval, code_simp, code_simp, simp add: fx_eval)

lemma small_fx_v1_2_role_assign_channel_scoped: "small_event fx_v1_2_role_assign_channel_scoped"
  unfolding fx_v1_2_role_assign_channel_scoped_def
  by (rule small_eventI, code_simp, simp add: fx_eval, code_simp, code_simp, simp add: fx_eval)

lemma small_fx_v1_2_role_revoke_all: "small_event fx_v1_2_role_revoke_all"
  unfolding fx_v1_2_role_revoke_all_def
  by (rule small_eventI, code_simp, simp add: fx_eval, code_simp, code_simp, simp add: fx_eval)

lemma small_fx_v1_2_role_revoke_specific: "small_event fx_v1_2_role_revoke_specific"
  unfolding fx_v1_2_role_revoke_specific_def
  by (rule small_eventI, code_simp, simp add: fx_eval, code_simp, code_simp, simp add: fx_eval)

lemmas small_fixtures =
  small_fx_v0_server_create small_fx_v0_message_post small_fx_v0_dm_message_post
  small_fx_v0_member_join small_fx_v1_message_post small_fx_v1_reaction_add
  small_fx_v1_pin_message small_fx_v1_dm_image small_fx_v1_1_sealed_member_join
  small_fx_v1_1_key_rotate small_fx_v1_1_sealed_event small_fx_v1_2_role_assign
  small_fx_v1_2_role_assign_channel_scoped small_fx_v1_2_role_revoke_all
  small_fx_v1_2_role_revoke_specific

lemma fixtures_small: "(name, ev) \<in> set parity_fixtures \<Longrightarrow> small_event ev"
  by (auto simp: parity_fixtures_def small_fixtures)

lemma dump_small:
  assumes "small_event ev"
  shows "dump ser name ev = Some (ascii ''FIXTURE name='' @ ascii name @ ascii '' hex='' @
    base16_encode (KOMMS_PAYLOAD_PREFIX @ ser (Map (event_pairs ev))))"
proof -
  have "validate_event ev = Inr ()" using assms by (simp add: small_event_def)
  then have "encode_komms_payload ser ev = Inr (KOMMS_PAYLOAD_PREFIX @ ser (Map (event_pairs ev)))"
    by (simp add: encode_komms_payload_def bindE_Inr_iff encode_cbor_map_Inr)
  then show ?thesis by (simp add: dump_def)
qed

text \<open>No test panics, and the bytes of every printed line decode to the event of the test.\<close>

context cbor_writer
begin

lemma fixtures_roundtrip:
  assumes "(name, ev) \<in> set parity_fixtures"
  shows "\<exists>raw. dump ser name ev = Some (ascii ''FIXTURE name='' @ ascii name @ ascii '' hex='' @ base16_encode raw) \<and>
    base16_decode (base16_encode raw) (length raw) = Some raw \<and> parse_komms_payload de raw = Inr (as_parsed ev)"
proof -
  note small = fixtures_small [OF assms]
  have enc: "encode_komms_payload ser ev = Inr (KOMMS_PAYLOAD_PREFIX @ ser (Map (event_pairs ev)))"
    using small by (simp add: small_event_def encode_komms_payload_def bindE_Inr_iff encode_cbor_map_Inr)
  have "parse_komms_payload de (KOMMS_PAYLOAD_PREFIX @ ser (Map (event_pairs ev))) = Inr (as_parsed ev)"
    using small_event_roundtrip [OF small] enc by (auto simp: encode_then_parse_def split: sum.splits)
  with dump_small [OF small] base16.decode_encode show ?thesis by blast
qed

end

text \<open>
  The tests of the wire format pass in the model, for every CBOR library that satisfies
  \<open>cbor_writer\<close>: all unit tests of \<open>canonical.rs\<close>, \<open>lib.rs\<close> and \<open>encode.rs\<close> in the protocol crate, each
  translated assertion by assertion, hold, and every parity fixture is printed as the hex of a
  payload that parses back to the fixture's event (with the scheme the parser fills in for v0).
\<close>
lemma protocol_tests_pass:
  assumes "cbor_writer ser de"
  shows "canonical_tests ser \<and> payload_tests ser de \<and> encode_tests ser de \<and>
    (\<forall>name ev. (name, ev) \<in> set parity_fixtures \<longrightarrow>
       (\<exists>raw. dump ser name ev = Some (ascii ''FIXTURE name='' @ ascii name @ ascii '' hex='' @ base16_encode raw) \<and>
          parse_komms_payload de raw = Inr (as_parsed ev)))"
  using cbor_writer.canonical_tests_pass [OF assms] cbor_writer.payload_tests_pass [OF assms]
    cbor_writer.encode_tests_pass [OF assms] cbor_writer.fixtures_roundtrip [OF assms] by blast

lemma protocol_tests_pass_example:
  "canonical_tests write_val \<and> payload_tests write_val rfc_de \<and> encode_tests write_val rfc_de \<and>
   (\<exists>raw. dump write_val ''v1_2_role_revoke_all'' fx_v1_2_role_revoke_all
        = Some (ascii ''FIXTURE name='' @ ascii ''v1_2_role_revoke_all'' @ ascii '' hex='' @ base16_encode raw) \<and>
      parse_komms_payload rfc_de raw = Inr (as_parsed fx_v1_2_role_revoke_all))"
proof -
  have "(''v1_2_role_revoke_all'', fx_v1_2_role_revoke_all) \<in> set parity_fixtures"
    by (simp add: parity_fixtures_def)
  with protocol_tests_pass [OF rfcw.cbor_writer_axioms] show ?thesis by blast
qed

end
