(* ===== verification/Cli_Tests.thy ===== *)
theory Cli_Tests
  imports Cli_Decode Encode_Tests
begin

text \<open>
  The unit test of \<open>src/lib.rs\<close>: an encoded event goes through \<open>decode_payload\<close> in strict mode. It
  passes for every CBOR library that satisfies \<open>cbor_writer\<close>, whatever the other parameters are.
\<close>

definition test_decode_fixture_server_create ::
  "(bytes \<Rightarrow> bytes) \<Rightarrow> (bytes \<Rightarrow> nat \<Rightarrow> bytes option) \<Rightarrow> (cval \<Rightarrow> bytes) \<Rightarrow> (bytes \<Rightarrow> string + cval) \<Rightarrow>
     (cval \<Rightarrow> bytes) \<Rightarrow> (bytes \<Rightarrow> bool) \<Rightarrow> (bytes \<Rightarrow> bytes \<Rightarrow> bytes \<Rightarrow> bool) \<Rightarrow> bool" where
  "test_decode_fixture_server_create hex_string hex_decode ser de debug_cval key_ok verify_strict \<longleftrightarrow>
     (let ev = default_event \<lparr> ev_v := 0, ev_t := ServerCreate, ev_sid := Some (replicate 32 7), ev_enc := False \<rparr> in
      case encode_komms_payload ser ev of
        Inl _ \<Rightarrow> False
      | Inr raw \<Rightarrow>
          (case decode_payload hex_string hex_decode ser de debug_cval key_ok verify_strict raw True False False None of
             Inl _ \<Rightarrow> False
           | Inr j \<Rightarrow> json_get j ''t'' = JNum 0))"

text \<open>Strict decoding prints the document of the parsed event, when no option asks for more.\<close>

lemma decode_plain:
  assumes "encode_then_parse ser de ev = Some parsed"
  shows "\<exists>raw. encode_komms_payload ser ev = Inr raw \<and>
    decode_payload hex_string hex_decode ser de debug_cval key_ok verify_strict raw True False False None
      = Inr (event_to_json hex_string parsed)"
  using assms by (auto simp: encode_then_parse_def decode_payload_def decode_event_def split: sum.splits)

context cbor_writer
begin

lemma decode_fixture_passes:
  "test_decode_fixture_server_create hex_string hex_decode ser de debug_cval key_ok verify_strict"
proof -
  let ?ev = "default_event \<lparr> ev_v := 0, ev_t := ServerCreate, ev_sid := Some (replicate 32 7), ev_enc := False \<rparr>"
  have "small_event ?ev"
    by (rule small_eventI, code_simp, simp add: event_eval, code_simp, code_simp, simp add: event_eval)
  then have "encode_then_parse ser de ?ev = Some (as_parsed ?ev)" by (rule small_event_roundtrip)
  then obtain raw where raw: "encode_komms_payload ser ?ev = Inr raw"
    and doc: "decode_payload hex_string hex_decode ser de debug_cval key_ok verify_strict raw True False False None
      = Inr (event_to_json hex_string (as_parsed ?ev))"
    using decode_plain by blast
  have "ev_t (as_parsed ?ev) = ServerCreate" by (simp add: as_parsed_def)
  then have "json_get (event_to_json hex_string (as_parsed ?ev)) ''t'' = JNum 0"
    by (simp add: event_to_json_def j_u8_def)
  with raw doc show ?thesis by (simp add: test_decode_fixture_server_create_def Let_def)
qed

end

end
