(* ===== verification/Key_Derivation.thy ===== *)
theory Key_Derivation
  imports Prelude
begin

text \<open>
  Key derivation and HMAC tags of v1.1 (\<open>crypto/src/kdf.rs\<close>, \<open>crypto/src/tags.rs\<close>). The
  primitives are parameters: \<open>hkdf ikm info\<close> is HKDF-SHA-256 without salt, expanded to 32 bytes,
  and \<open>hmac key msg\<close> is HMAC-SHA-256 of everything written to the MAC in order.
\<close>

datatype KdfDomain = ChannelDek | MatchTagKey | MemberTagKey | MemberSealedKey

fun domain_as_bytes :: "KdfDomain \<Rightarrow> bytes" where
  "domain_as_bytes ChannelDek = map of_char ''komms/v1.1/channel-dek''"
| "domain_as_bytes MatchTagKey = map of_char ''komms/v1.1/match-tag-key''"
| "domain_as_bytes MemberTagKey = map of_char ''komms/v1.1/member-tag-key''"
| "domain_as_bytes MemberSealedKey = map of_char ''komms/v1.1/member-sealed-key''"

definition hkdf_32 :: "(bytes \<Rightarrow> bytes \<Rightarrow> bytes) \<Rightarrow> bytes \<Rightarrow> KdfDomain \<Rightarrow> bytes \<Rightarrow> bytes" where
  "hkdf_32 hkdf mvk domain binding = hkdf mvk (domain_as_bytes domain @ [0x00] @ binding)"

definition derive_channel_dek :: "(bytes \<Rightarrow> bytes \<Rightarrow> bytes) \<Rightarrow> bytes \<Rightarrow> bytes \<Rightarrow> bytes \<Rightarrow> u64 \<Rightarrow> bytes" where
  "derive_channel_dek hkdf mvk server_id channel_id key_epoch =
     hkdf_32 hkdf mvk ChannelDek (server_id @ channel_id @ u64_to_be_bytes key_epoch)"

definition derive_match_tag_key :: "(bytes \<Rightarrow> bytes \<Rightarrow> bytes) \<Rightarrow> bytes \<Rightarrow> bytes \<Rightarrow> u64 \<Rightarrow> bytes" where
  "derive_match_tag_key hkdf mvk server_id key_epoch =
     hkdf_32 hkdf mvk MatchTagKey (server_id @ u64_to_be_bytes key_epoch)"

definition derive_member_tag_key :: "(bytes \<Rightarrow> bytes \<Rightarrow> bytes) \<Rightarrow> bytes \<Rightarrow> bytes \<Rightarrow> u64 \<Rightarrow> bytes" where
  "derive_member_tag_key hkdf mvk server_id key_epoch =
     hkdf_32 hkdf mvk MemberTagKey (server_id @ u64_to_be_bytes key_epoch)"

definition derive_member_sealed_key :: "(bytes \<Rightarrow> bytes \<Rightarrow> bytes) \<Rightarrow> bytes \<Rightarrow> bytes \<Rightarrow> u64 \<Rightarrow> bytes" where
  "derive_member_sealed_key hkdf mvk server_id key_epoch =
     hkdf_32 hkdf mvk MemberSealedKey (server_id @ u64_to_be_bytes key_epoch)"

definition TAG_LEN :: nat where
  "TAG_LEN = 16"

definition MATCH_TAG_DOMAIN :: bytes where
  "MATCH_TAG_DOMAIN = map of_char ''komms/v1.1/match-tag''"

definition MEMBER_TAG_DOMAIN :: bytes where
  "MEMBER_TAG_DOMAIN = map of_char ''komms/v1.1/member-tag''"

definition compute_match_tag :: "(bytes \<Rightarrow> bytes \<Rightarrow> bytes) \<Rightarrow> bytes \<Rightarrow> bytes \<Rightarrow> u64 \<Rightarrow> bytes" where
  "compute_match_tag hmac match_tag_key channel_id key_epoch =
     take TAG_LEN (hmac match_tag_key (MATCH_TAG_DOMAIN @ channel_id @ u64_to_be_bytes key_epoch))"

definition compute_member_tag :: "(bytes \<Rightarrow> bytes \<Rightarrow> bytes) \<Rightarrow> bytes \<Rightarrow> bytes \<Rightarrow> u64 \<Rightarrow> bytes" where
  "compute_member_tag hmac member_tag_key member_pubkey key_epoch =
     take TAG_LEN (hmac member_tag_key (MEMBER_TAG_DOMAIN @ member_pubkey @ u64_to_be_bytes key_epoch))"

section \<open>Domain separation\<close>

text \<open>A key request: which of the four derivations is asked for, with its binding.\<close>

datatype key_request =
    ChannelKey bytes bytes u64
  | MatchKey bytes u64
  | MemberKey bytes u64
  | SealKey bytes u64

fun derive :: "(bytes \<Rightarrow> bytes \<Rightarrow> bytes) \<Rightarrow> bytes \<Rightarrow> key_request \<Rightarrow> bytes" where
  "derive hkdf mvk (ChannelKey sid cid e) = derive_channel_dek hkdf mvk sid cid e"
| "derive hkdf mvk (MatchKey sid e) = derive_match_tag_key hkdf mvk sid e"
| "derive hkdf mvk (MemberKey sid e) = derive_member_tag_key hkdf mvk sid e"
| "derive hkdf mvk (SealKey sid e) = derive_member_sealed_key hkdf mvk sid e"

fun wf_request :: "key_request \<Rightarrow> bool" where
  "wf_request (ChannelKey sid cid e) = (length sid = 32 \<and> length cid = 32)"
| "wf_request (MatchKey sid e) = (length sid = 32)"
| "wf_request (MemberKey sid e) = (length sid = 32)"
| "wf_request (SealKey sid e) = (length sid = 32)"

fun request_info :: "key_request \<Rightarrow> bytes" where
  "request_info (ChannelKey sid cid e) = domain_as_bytes ChannelDek @ [0x00] @ sid @ cid @ u64_to_be_bytes e"
| "request_info (MatchKey sid e) = domain_as_bytes MatchTagKey @ [0x00] @ sid @ u64_to_be_bytes e"
| "request_info (MemberKey sid e) = domain_as_bytes MemberTagKey @ [0x00] @ sid @ u64_to_be_bytes e"
| "request_info (SealKey sid e) = domain_as_bytes MemberSealedKey @ [0x00] @ sid @ u64_to_be_bytes e"

lemma derive_request: "derive hkdf mvk r = hkdf mvk (request_info r)"
  by (cases r) (simp_all add: derive_channel_dek_def derive_match_tag_key_def
      derive_member_tag_key_def derive_member_sealed_key_def hkdf_32_def)

lemma request_info_inject:
  "wf_request r \<Longrightarrow> wf_request s \<Longrightarrow> request_info r = request_info s \<longleftrightarrow> r = s"
  by (cases r; cases s) (auto simp: append_eq_append_conv)

lemma derive_comp: "derive hkdf mvk = hkdf mvk \<circ> request_info"
  by (rule ext) (simp add: derive_request)

text \<open>
  C30: the four derivations never share an HKDF input. For any set of derivation requests (for
  channel keys, match-tag keys, member-tag keys and sealing keys, of any servers, channels and
  epochs; identifiers of 32 bytes) under one master viewing key, the derived keys are pairwise
  different exactly when HKDF-SHA-256 is injective on the \<open>info\<close> strings of these requests: any
  two keys that coincide are a collision of HKDF itself, never the same string hashed for two
  purposes.
\<close>
theorem derived_keys_separated:
  assumes "\<forall>r\<in>R. wf_request r"
  shows "inj_on (derive hkdf mvk) R \<longleftrightarrow> inj_on (hkdf mvk) (request_info ` R)"
proof -
  have "inj_on request_info R"
    using assms by (intro inj_onI) (simp add: request_info_inject)
  then show ?thesis unfolding derive_comp by (rule comp_inj_on_iff [symmetric])
qed

text \<open>A checksum in the place of HKDF, and the four keys of one server, channel and epoch.\<close>

definition checksum_kdf :: "bytes \<Rightarrow> bytes \<Rightarrow> bytes" where
  "checksum_kdf mvk info = replicate 32 (foldl (\<lambda>h b. 33 * h + b) 7 (mvk @ info))"

definition sample_requests :: "key_request list" where
  "sample_requests = [ChannelKey (replicate 32 1) (replicate 32 2) 5, MatchKey (replicate 32 1) 5,
     MemberKey (replicate 32 1) 5, SealKey (replicate 32 1) 5]"

theorem derived_keys_separated_witness:
  "distinct (map (derive checksum_kdf []) sample_requests)"
proof -
  have "distinct (map (checksum_kdf []) (map request_info sample_requests))"
    and req: "distinct sample_requests" by code_simp+
  then have "inj_on (checksum_kdf []) (request_info ` set sample_requests)"
    by (simp only: distinct_map set_map)
  moreover have "\<forall>r\<in>set sample_requests. wf_request r" by (simp add: sample_requests_def)
  ultimately have "inj_on (derive checksum_kdf []) (set sample_requests)"
    by (simp only: derived_keys_separated)
  with req show ?thesis by (simp only: distinct_map)
qed

section \<open>Tags\<close>

text \<open>A tag request: a match tag of a channel or a member tag of a public key, for an epoch.\<close>

datatype tag_request = MatchTag bytes u64 | MemberTag bytes u64

fun compute_tag :: "(bytes \<Rightarrow> bytes \<Rightarrow> bytes) \<Rightarrow> bytes \<Rightarrow> tag_request \<Rightarrow> bytes" where
  "compute_tag hmac key (MatchTag channel e) = compute_match_tag hmac key channel e"
| "compute_tag hmac key (MemberTag pk e) = compute_member_tag hmac key pk e"

fun tag_message :: "tag_request \<Rightarrow> bytes" where
  "tag_message (MatchTag channel e) = MATCH_TAG_DOMAIN @ channel @ u64_to_be_bytes e"
| "tag_message (MemberTag pk e) = MEMBER_TAG_DOMAIN @ pk @ u64_to_be_bytes e"

fun wf_tag_request :: "tag_request \<Rightarrow> bool" where
  "wf_tag_request (MatchTag channel e) = (length channel = 32)"
| "wf_tag_request (MemberTag pk e) = (length pk = 32)"

lemma compute_tag_message: "compute_tag hmac key = (\<lambda>m. take TAG_LEN (hmac key m)) \<circ> tag_message"
proof
  show "compute_tag hmac key r = ((\<lambda>m. take TAG_LEN (hmac key m)) \<circ> tag_message) r" for r
    by (cases r) (simp_all add: compute_match_tag_def compute_member_tag_def)
qed

lemma tag_message_inject:
  "wf_tag_request r \<Longrightarrow> wf_tag_request s \<Longrightarrow> tag_message r = tag_message s \<longleftrightarrow> r = s"
  by (cases r; cases s) (auto simp: MATCH_TAG_DOMAIN_def MEMBER_TAG_DOMAIN_def append_eq_append_conv)

text \<open>
  Both tags are sixteen bytes, and even under one HMAC key they are unambiguous: the tags of any
  set of requests are pairwise different exactly when the HMACs of their messages differ in the
  sixteen bytes that are kept.
\<close>
lemma tags_separated:
  assumes "\<forall>r\<in>R. wf_tag_request r" and "\<And>m. length (hmac key m) = 32"
  shows "(\<forall>r\<in>R. length (compute_tag hmac key r) = 16) \<and>
    (inj_on (compute_tag hmac key) R \<longleftrightarrow> inj_on (\<lambda>m. take TAG_LEN (hmac key m)) (tag_message ` R))"
proof -
  have "inj_on tag_message R"
    using assms(1) by (intro inj_onI) (simp add: tag_message_inject)
  from comp_inj_on_iff [OF this] show ?thesis
    unfolding compute_tag_message by (auto simp: assms(2) TAG_LEN_def)
qed

end
