(* ===== verification/State_Hash.thy ===== *)
theory State_Hash
  imports Cbor_Item "HOL-Library.List_Lexorder" "HOL-Library.Multiset"
begin

text \<open>
  The cumulative state hash of \<open>crypto/src/state_hash.rs\<close>. BLAKE2b-256 is the parameter
  \<open>blake2b\<close> (the hash of everything written to the hasher, in order); the order of transaction
  ids is the lexicographic order of byte strings; \<open>sort_by\<close> is stable, as \<open>sort_key\<close> is.
  The head of the array is \<open>encode_cbor_uint_header\<close>, defined in \<open>Cbor_Head\<close>.
\<close>

definition STATE_HASH_LEN :: nat where
  "STATE_HASH_LEN = 32"

definition GENESIS_DOMAIN :: bytes where
  "GENESIS_DOMAIN = map of_char ''KOMMS_STATE_GENESIS_v1.1''"

record ProjectedEvent =
  pe_tx_id :: bytes
  pe_canonical_cbor :: bytes

definition state_hash_genesis :: "(bytes \<Rightarrow> bytes) \<Rightarrow> bytes" where
  "state_hash_genesis blake2b = blake2b (GENESIS_DOMAIN @ replicate STATE_HASH_LEN 0)"

definition state_hash_next :: "(bytes \<Rightarrow> bytes) \<Rightarrow> bytes \<Rightarrow> ProjectedEvent list \<Rightarrow> bytes" where
  "state_hash_next blake2b prior events =
     (let indices = sort_key (\<lambda>i. pe_tx_id (events ! i)) [0..<length events];
          header = encode_cbor_uint_header 0x80 (word_of_nat (length events)) in
      blake2b (prior @ header @ concat (map (\<lambda>i. pe_canonical_cbor (events ! i)) indices)))"

text \<open>Sorting the indices is sorting the events.\<close>

lemma map_insort_key: "map g (insort_key (\<lambda>x. f (g x)) x xs) = insort_key f (g x) (map g xs)"
  by (induction xs) auto

lemma map_sort_key: "map g (sort_key (\<lambda>x. f (g x)) xs) = sort_key f (map g xs)"
  by (induction xs) (auto simp: map_insort_key)

definition sorted_events :: "ProjectedEvent list \<Rightarrow> ProjectedEvent list" where
  "sorted_events events = sort_key pe_tx_id events"

lemma state_hash_next_alt:
  "state_hash_next blake2b prior events =
     blake2b (prior @ encode_cbor_uint_header 0x80 (word_of_nat (length events)) @
       concat (map pe_canonical_cbor (sorted_events events)))"
proof -
  have "map (\<lambda>i. pe_canonical_cbor (events ! i))
        (sort_key (\<lambda>i. pe_tx_id (events ! i)) [0..<length events])
      = map pe_canonical_cbor (map (nth events) (sort_key (\<lambda>i. pe_tx_id (events ! i)) [0..<length events]))"
    by simp
  also have "\<dots> = map pe_canonical_cbor (sorted_events events)"
    by (simp only: map_sort_key map_nth sorted_events_def)
  finally show ?thesis by (simp add: state_hash_next_def Let_def)
qed

text \<open>
  The state hash does not depend on the order in which the events of a block are handed
  over, as long as their transaction ids are distinct.
\<close>
lemma state_hash_order_independent:
  assumes "mset events = mset events'" and "distinct (map pe_tx_id events)"
  shows "state_hash_next blake2b prior events = state_hash_next blake2b prior events'"
proof -
  have "inj_on pe_tx_id (set events)" using assms(2) by (simp add: distinct_map)
  then have s: "sorted_events events = sorted_events events'"
    unfolding sorted_events_def using assms(1)
    by (intro sort_key_inj_key_eq) simp_all
  have l: "length events = length events'" using assms(1) by (rule mset_eq_length)
  show ?thesis unfolding state_hash_next_alt s l ..
qed

lemma state_hash_order_independent_example:
  "state_hash_next (\<lambda>x. x) (replicate 32 0)
     [\<lparr> pe_tx_id = [2], pe_canonical_cbor = [0x01] \<rparr>, \<lparr> pe_tx_id = [1], pe_canonical_cbor = [0x02] \<rparr>]
   = state_hash_next (\<lambda>x. x) (replicate 32 0)
     [\<lparr> pe_tx_id = [1], pe_canonical_cbor = [0x02] \<rparr>, \<lparr> pe_tx_id = [2], pe_canonical_cbor = [0x01] \<rparr>]"
  by (rule state_hash_order_independent) simp_all

text \<open>The array body is uniquely readable.\<close>

lemma concat_items_inject:
  "length xs = length ys \<Longrightarrow> \<forall>x\<in>set xs. wf_item 0 x \<Longrightarrow> \<forall>y\<in>set ys. wf_item 0 y \<Longrightarrow>
     concat (map enc_item xs) = concat (map enc_item ys) \<Longrightarrow> xs = ys"
proof (induction xs ys rule: list_induct2)
  case (Cons x xs y ys)
  then show ?case using enc_item_prefix_free [of x y "concat (map enc_item xs)" "concat (map enc_item ys)"]
    by auto
qed simp

lemma canonical_bodies:
  assumes "\<forall>b\<in>set bs. validate_canonical b = Inr ()"
  obtains its where "bs = map enc_item its" and "\<forall>it\<in>set its. wf_item 0 it"
proof -
  have "\<exists>its. bs = map enc_item its \<and> (\<forall>it\<in>set its. wf_item 0 it)"
    using assms
  proof (induction bs)
    case (Cons b bs)
    then obtain it its where "wf_item 0 it" "b = enc_item it" "bs = map enc_item its"
        "\<forall>it\<in>set its. wf_item 0 it"
      by (auto elim: validate_canonical_item)
    then show ?case by (intro exI [of _ "it # its"]) simp
  qed simp
  with that show thesis by blast
qed

lemma bodies_inject:
  assumes "\<forall>b\<in>set bs. validate_canonical b = Inr ()" and "\<forall>b\<in>set cs. validate_canonical b = Inr ()"
    and "length bs < 2 ^ 64" and "length cs < 2 ^ 64"
    and eq: "encode_cbor_uint_header 0x80 (word_of_nat (length bs)) @ concat bs =
      encode_cbor_uint_header 0x80 (word_of_nat (length cs)) @ concat cs"
  shows "bs = cs"
proof -
  have "(word_of_nat (length bs) :: u64) = word_of_nat (length cs)" and body: "concat bs = concat cs"
    using arg_cong [OF eq, of dec_head] by (simp_all add: dec_head_major)
  then have "unat (word_of_nat (length bs) :: u64) = unat (word_of_nat (length cs) :: u64)" by simp
  then have "length bs = length cs" using assms(3,4) by (simp add: unat_of_nat)
  with body show ?thesis
    using assms(1,2) by (metis canonical_bodies concat_items_inject length_map)
qed

section \<open>The chain\<close>

text \<open>The hash after a sequence of blocks, from genesis on, and what it is meant to commit to: the
  canonical projections of every block in order of transaction id.\<close>

definition chain_hash :: "(bytes \<Rightarrow> bytes) \<Rightarrow> ProjectedEvent list list \<Rightarrow> bytes" where
  "chain_hash blake2b blocks = foldl (state_hash_next blake2b) (state_hash_genesis blake2b) blocks"

definition block_view :: "ProjectedEvent list \<Rightarrow> bytes list" where
  "block_view events = map pe_canonical_cbor (sorted_events events)"

definition block_ok :: "ProjectedEvent list \<Rightarrow> bool" where
  "block_ok events \<longleftrightarrow> length events < 2 ^ 64 \<and>
     (\<forall>e\<in>set events. validate_canonical (pe_canonical_cbor e) = Inr ())"

lemma array_head_first: "\<exists>b r. encode_cbor_uint_header 0x80 v = b # r \<and> b \<noteq> 0"
  by (auto simp: encode_cbor_uint_header_def Let_def or_eq_0_iff)

lemma genesis_not_next:
  assumes "length prior = STATE_HASH_LEN"
  shows "GENESIS_DOMAIN @ replicate STATE_HASH_LEN 0 \<noteq> prior @ encode_cbor_uint_header 0x80 v @ body"
proof
  assume eq: "GENESIS_DOMAIN @ replicate STATE_HASH_LEN 0 = prior @ encode_cbor_uint_header 0x80 v @ body"
  obtain b r where b: "encode_cbor_uint_header 0x80 v = b # r" "b \<noteq> 0" using array_head_first by blast
  have "(GENESIS_DOMAIN @ replicate STATE_HASH_LEN 0) ! 32 = b"
    unfolding eq b(1) using assms by (simp add: nth_append STATE_HASH_LEN_def)
  with b(2) show False by (simp add: GENESIS_DOMAIN_def STATE_HASH_LEN_def nth_append)
qed

lemma chain_hash_simps [simp]:
  "chain_hash blake2b [] = state_hash_genesis blake2b"
  "chain_hash blake2b (blocks @ [b]) = state_hash_next blake2b (chain_hash blake2b blocks) b"
  by (simp_all add: chain_hash_def)

lemma length_chain_hash:
  "\<forall>x. length (blake2b x) = STATE_HASH_LEN \<Longrightarrow> length (chain_hash blake2b blocks) = STATE_HASH_LEN"
  by (cases blocks rule: rev_cases) (simp_all add: state_hash_genesis_def state_hash_next_alt)

text \<open>What is written to the hasher for one block, and for a whole chain: the genesis string, then
  for every block the hash so far, the array head and the projections in order of transaction id.\<close>

definition block_input :: "bytes \<Rightarrow> ProjectedEvent list \<Rightarrow> bytes" where
  "block_input prior events =
     prior @ encode_cbor_uint_header 0x80 (word_of_nat (length events)) @ concat (block_view events)"

fun block_inputs :: "(bytes \<Rightarrow> bytes) \<Rightarrow> bytes \<Rightarrow> ProjectedEvent list list \<Rightarrow> bytes list" where
  "block_inputs blake2b prior [] = []"
| "block_inputs blake2b prior (b # blocks) =
     block_input prior b # block_inputs blake2b (blake2b (block_input prior b)) blocks"

definition hashed_inputs :: "(bytes \<Rightarrow> bytes) \<Rightarrow> ProjectedEvent list list \<Rightarrow> bytes set" where
  "hashed_inputs blake2b blocks =
     insert (GENESIS_DOMAIN @ replicate STATE_HASH_LEN 0)
       (set (block_inputs blake2b (state_hash_genesis blake2b) blocks))"

lemma state_hash_next_input: "state_hash_next blake2b prior events = blake2b (block_input prior events)"
  by (simp add: state_hash_next_alt block_input_def block_view_def)

lemma block_inputs_append:
  "block_inputs blake2b prior (blocks @ [b]) =
     block_inputs blake2b prior blocks @ [block_input (foldl (state_hash_next blake2b) prior blocks) b]"
  by (induction blocks arbitrary: prior) (simp_all add: state_hash_next_input)

lemma hashed_inputs_simps [simp]:
  "hashed_inputs blake2b [] = {GENESIS_DOMAIN @ replicate STATE_HASH_LEN 0}"
  "hashed_inputs blake2b (blocks @ [b]) =
     insert (block_input (chain_hash blake2b blocks) b) (hashed_inputs blake2b blocks)"
  by (auto simp: hashed_inputs_def block_inputs_append chain_hash_def)

text \<open>The last string written, whose hash is the hash of the chain.\<close>

definition last_input :: "(bytes \<Rightarrow> bytes) \<Rightarrow> ProjectedEvent list list \<Rightarrow> bytes" where
  "last_input blake2b blocks =
     (if blocks = [] then GENESIS_DOMAIN @ replicate STATE_HASH_LEN 0
      else block_input (chain_hash blake2b (butlast blocks)) (last blocks))"

lemma last_input_hash: "chain_hash blake2b blocks = blake2b (last_input blake2b blocks)"
  by (cases blocks rule: rev_cases) (simp_all add: last_input_def state_hash_genesis_def state_hash_next_input)

lemma last_input_hashed: "last_input blake2b blocks \<in> hashed_inputs blake2b blocks"
  by (cases blocks rule: rev_cases) (simp_all add: last_input_def)

lemma same_last_input:
  assumes "inj_on blake2b (hashed_inputs blake2b blocks \<union> hashed_inputs blake2b blocks')"
    and "chain_hash blake2b blocks = chain_hash blake2b blocks'"
  shows "last_input blake2b blocks = last_input blake2b blocks'"
  using assms last_input_hashed unfolding last_input_hash by (blast dest: inj_onD)

lemma block_input_inject:
  assumes "length prior = STATE_HASH_LEN" and "length prior' = STATE_HASH_LEN"
    and "block_ok b" and "block_ok b'" and "block_input prior b = block_input prior' b'"
  shows "prior = prior' \<and> block_view b = block_view b'"
proof -
  have p: "prior = prior'" and
    v: "encode_cbor_uint_header 0x80 (word_of_nat (length (block_view b))) @ concat (block_view b)
      = encode_cbor_uint_header 0x80 (word_of_nat (length (block_view b'))) @ concat (block_view b')"
    using assms(1,2,5) by (simp_all add: block_input_def append_eq_append_conv block_view_def sorted_events_def)
  have "block_view b = block_view b'"
    using assms(3,4) by (intro bodies_inject v) (auto simp: block_ok_def block_view_def sorted_events_def)
  with p show ?thesis by blast
qed

lemma block_input_view: "block_view b = block_view b' \<Longrightarrow> block_input prior b = block_input prior b'"
  unfolding block_input_def
  by (metis block_view_def length_map length_sort sorted_events_def)

lemma chain_hash_view:
  "map block_view blocks = map block_view blocks' \<Longrightarrow> chain_hash blake2b blocks = chain_hash blake2b blocks'"
proof (induction blocks arbitrary: blocks' rule: rev_induct)
  case (snoc b blocks)
  from snoc.prems obtain bs b' where bs: "blocks' = bs @ [b']"
    by (cases blocks' rule: rev_cases) simp_all
  with snoc.prems have "map block_view blocks = map block_view bs" and b: "block_view b = block_view b'" by simp_all
  from snoc.IH [OF this(1)] show ?case
    unfolding bs by (simp only: chain_hash_simps state_hash_next_input block_input_view [OF b])
qed simp

text \<open>
  C18: the state hash commits to the history of canonical projections, and to nothing else. Take
  two indexers that have processed any two sequences of blocks (fewer than \<open>2 ^ 64\<close> events each,
  every projection canonical CBOR), and suppose BLAKE2b does not collide on the strings these two
  chains write to it. Then they hold the same state hash exactly when they processed the same
  number of blocks and, block by block, the same canonical projections in order of transaction
  id. (The transaction ids themselves are not hashed: they only order the projections.)
\<close>
theorem state_hash_commits:
  assumes len: "\<And>x. length (blake2b x) = STATE_HASH_LEN"
    and "\<forall>b\<in>set blocks. block_ok b" and "\<forall>b\<in>set blocks'. block_ok b"
    and inj: "inj_on blake2b (hashed_inputs blake2b blocks \<union> hashed_inputs blake2b blocks')"
  shows "chain_hash blake2b blocks = chain_hash blake2b blocks' \<longleftrightarrow>
    map block_view blocks = map block_view blocks'"
proof
  have hash_len: "length (chain_hash blake2b bs) = STATE_HASH_LEN" for bs
    using len by (simp add: length_chain_hash)
  assume "chain_hash blake2b blocks = chain_hash blake2b blocks'"
  with assms(2-4) show "map block_view blocks = map block_view blocks'"
  proof (induction blocks arbitrary: blocks' rule: rev_induct)
    case Nil
    then have "last_input blake2b [] = last_input blake2b blocks'" by (intro same_last_input)
    then show ?case
      using genesis_not_next [OF hash_len] by (auto simp: last_input_def block_input_def split: if_splits)
  next
    case (snoc b blocks)
    then have l: "last_input blake2b (blocks @ [b]) = last_input blake2b blocks'" by (intro same_last_input)
    then obtain bs b' where bs: "blocks' = bs @ [b']"
      using genesis_not_next [OF hash_len, symmetric]
      by (cases blocks' rule: rev_cases) (auto simp: last_input_def block_input_def)
    with l snoc.prems(1,2) have "chain_hash blake2b blocks = chain_hash blake2b bs \<and> block_view b = block_view b'"
      by (intro block_input_inject hash_len) (simp_all add: last_input_def)
    moreover have "inj_on blake2b (hashed_inputs blake2b blocks \<union> hashed_inputs blake2b bs)"
      by (rule inj_on_subset [OF snoc.prems(3)]) (use bs in auto)
    ultimately show ?case using snoc.IH [of bs] snoc.prems(1,2) bs by simp
  qed
next
  assume "map block_view blocks = map block_view blocks'"
  then show "chain_hash blake2b blocks = chain_hash blake2b blocks'" by (rule chain_hash_view)
qed

text \<open>A checksum in the place of BLAKE2b, which does not collide on the blocks below, and two blocks
  in either order.\<close>

definition checksum :: "bytes \<Rightarrow> bytes" where
  "checksum m = replicate 32 (foldl (\<lambda>h b. 33 * h + b) 7 m)"

definition sample_block :: "u8 \<Rightarrow> ProjectedEvent list" where
  "sample_block n = [\<lparr> pe_tx_id = [n], pe_canonical_cbor = [n] \<rparr>]"

lemma sample_blocks_ok: "\<forall>b\<in>set [sample_block 1, sample_block 2]. block_ok b"
proof -
  have "validate_canonical [1] = Inr ()" "validate_canonical [2] = Inr ()" by code_simp+
  then show ?thesis by (simp add: sample_block_def block_ok_def)
qed

lemma checksum_separates:
  "inj_on checksum (hashed_inputs checksum [sample_block 1, sample_block 2] \<union>
     hashed_inputs checksum [sample_block 2, sample_block 1])"
proof -
  let ?is = "(GENESIS_DOMAIN @ replicate STATE_HASH_LEN 0) #
    block_inputs checksum (state_hash_genesis checksum) [sample_block 1, sample_block 2] @
    block_inputs checksum (state_hash_genesis checksum) [sample_block 2, sample_block 1]"
  have "distinct (map checksum ?is)" by code_simp
  then have "inj_on checksum (set ?is)" by (simp only: distinct_map)
  moreover have "set ?is = hashed_inputs checksum [sample_block 1, sample_block 2] \<union>
     hashed_inputs checksum [sample_block 2, sample_block 1]"
    by (simp only: hashed_inputs_def set_append list.set) blast
  ultimately show ?thesis by (simp only:)
qed

theorem state_hash_commits_witness:
  "chain_hash checksum [sample_block 1, sample_block 2] \<noteq> chain_hash checksum [sample_block 2, sample_block 1]"
proof -
  have "chain_hash checksum [sample_block 1, sample_block 2] = chain_hash checksum [sample_block 2, sample_block 1]
    \<longleftrightarrow> map block_view [sample_block 1, sample_block 2] = map block_view [sample_block 2, sample_block 1]"
    using sample_blocks_ok checksum_separates
    by (intro state_hash_commits) (simp_all add: checksum_def STATE_HASH_LEN_def)
  then show ?thesis by (simp add: block_view_def sorted_events_def sample_block_def)
qed

end
