(* ===== verification/Crypto_Tests.thy ===== *)
theory Crypto_Tests
  imports Sealed Key_Derivation State_Hash Request_Auth
begin

text \<open>
  The unit tests of the \<open>crypto\<close> crate, one definition per test function, over the parameters of the
  components. A test that two outputs differ holds when the primitive does not map the two inputs
  of the test to one output, and a golden vector when the primitive has that value at one input;
  the lemmas say which inputs these are.
\<close>

section \<open>Sealed fields (\<open>sealed.rs\<close>)\<close>

definition wire_roundtrips :: "SealedField \<Rightarrow> nat \<Rightarrow> bool" where
  "wire_roundtrips sf n \<longleftrightarrow> length (to_wire sf) = n \<and> from_wire (to_wire sf) = Inr sf"

definition sealed_fixture :: SealedField where
  "sealed_fixture = \<lparr> sf_nonce = replicate NONCE_LEN 0xAA, sf_ciphertext = [1, 2, 3, 4, 5],
     sf_aead_tag = replicate AEAD_TAG_LEN 0xCC \<rparr>"

definition test_wire_roundtrip :: bool where
  "test_wire_roundtrip \<longleftrightarrow> (let sf = sealed_fixture in wire_roundtrips sf (wire_len sf))"

definition test_empty_ciphertext_roundtrips :: bool where
  "test_empty_ciphertext_roundtrips \<longleftrightarrow>
     wire_roundtrips \<lparr> sf_nonce = replicate NONCE_LEN 0, sf_ciphertext = [],
       sf_aead_tag = replicate AEAD_TAG_LEN 0 \<rparr> MIN_SEALED_LEN"

definition test_too_short_rejected :: bool where
  "test_too_short_rejected \<longleftrightarrow>
     list_all (\<lambda>len. from_wire (replicate len 0) = Inl (TooShortSealed len)) [0..<MIN_SEALED_LEN]"

definition test_wire_layout_is_stable :: bool where
  "test_wire_layout_is_stable \<longleftrightarrow>
     (let sf = \<lparr> sf_nonce = replicate NONCE_LEN 0x11, sf_ciphertext = replicate 4 0x22,
            sf_aead_tag = replicate AEAD_TAG_LEN 0x33 \<rparr>;
          bytes = to_wire sf in
      take NONCE_LEN bytes = replicate NONCE_LEN 0x11 \<and>
      take 4 (drop NONCE_LEN bytes) = replicate 4 0x22 \<and>
      drop (NONCE_LEN + 4) bytes = replicate AEAD_TAG_LEN 0x33)"

definition sealed_tests :: bool where
  "sealed_tests \<longleftrightarrow> test_wire_roundtrip \<and> test_empty_ciphertext_roundtrips \<and> test_too_short_rejected \<and>
     test_wire_layout_is_stable"

lemma sealed_tests_pass: sealed_tests
  by code_simp

section \<open>AEAD (\<open>aead.rs\<close>)\<close>

text \<open>AES-256-GCM with the nonce of each \<open>seal_field\<close> call as an argument of the test.\<close>

record aead =
  aead_encrypt :: "bytes \<Rightarrow> bytes \<Rightarrow> bytes \<Rightarrow> bytes \<Rightarrow> bytes"
  aead_decrypt :: "bytes \<Rightarrow> bytes \<Rightarrow> bytes \<Rightarrow> bytes \<Rightarrow> bytes option"

definition test_aead_key :: bytes where
  "test_aead_key = replicate 32 0x11"

definition test_aad :: "bytes \<Rightarrow> AadContext" where
  "test_aad extra = \<lparr> aad_cbor_key = 23, aad_server_id = replicate 32 0x01, aad_key_epoch = 7, aad_extra = extra \<rparr>"

text \<open>Seal under one context, open under another.\<close>

definition seal_then_open :: "aead \<Rightarrow> bytes \<Rightarrow> AadContext \<Rightarrow> AadContext \<Rightarrow> bytes \<Rightarrow> AeadError + bytes" where
  "seal_then_open a nonce seal_aad open_aad plaintext =
     open_field (aead_decrypt a) test_aead_key open_aad
       (seal_field (aead_encrypt a) nonce test_aead_key seal_aad plaintext)"

definition test_seal_open_roundtrip :: "aead \<Rightarrow> bytes \<Rightarrow> bool" where
  "test_seal_open_roundtrip a nonce \<longleftrightarrow>
     (let pt = map of_char ''hello world'' in seal_then_open a nonce (test_aad []) (test_aad []) pt = Inr pt)"

definition test_empty_plaintext_roundtrips :: "aead \<Rightarrow> bytes \<Rightarrow> bool" where
  "test_empty_plaintext_roundtrips a nonce \<longleftrightarrow>
     sf_ciphertext (seal_field (aead_encrypt a) nonce test_aead_key (test_aad []) []) = [] \<and>
     seal_then_open a nonce (test_aad []) (test_aad []) [] = Inr []"

definition test_wrong_aad_field_byte_rejected :: "aead \<Rightarrow> bytes \<Rightarrow> bool" where
  "test_wrong_aad_field_byte_rejected a nonce \<longleftrightarrow>
     seal_then_open a nonce (test_aad []) ((test_aad [])\<lparr>aad_cbor_key := 24\<rparr>) (map of_char ''secret'') = Inl TagMismatch"

definition test_wrong_aad_epoch_rejected :: "aead \<Rightarrow> bytes \<Rightarrow> bool" where
  "test_wrong_aad_epoch_rejected a nonce \<longleftrightarrow>
     seal_then_open a nonce (test_aad []) ((test_aad [])\<lparr>aad_key_epoch := 8\<rparr>) (map of_char ''secret'') = Inl TagMismatch"

definition test_extra_aad_binding_is_authenticated :: "aead \<Rightarrow> bytes \<Rightarrow> bool" where
  "test_extra_aad_binding_is_authenticated a nonce \<longleftrightarrow>
     seal_then_open a nonce (test_aad (map of_char ''v=1,n=2'')) (test_aad (map of_char ''v=1,n=3''))
       (map of_char ''ok'') = Inl TagMismatch"

definition test_aad_encoding_separates_field_bytes :: bool where
  "test_aad_encoding_separates_field_bytes \<longleftrightarrow>
     aad_encode ((test_aad [])\<lparr>aad_cbor_key := 23\<rparr>) \<noteq> aad_encode ((test_aad [])\<lparr>aad_cbor_key := 24\<rparr>)"

definition test_aad_encoding_separates_servers :: bool where
  "test_aad_encoding_separates_servers \<longleftrightarrow>
     aad_encode \<lparr> aad_cbor_key = 23, aad_server_id = replicate 32 0x01, aad_key_epoch = 7, aad_extra = [] \<rparr>
       \<noteq> aad_encode \<lparr> aad_cbor_key = 23, aad_server_id = replicate 32 0x02, aad_key_epoch = 7, aad_extra = [] \<rparr>"

definition test_cross_server_replay_rejected :: "aead \<Rightarrow> bytes \<Rightarrow> bool" where
  "test_cross_server_replay_rejected a nonce \<longleftrightarrow>
     seal_then_open a nonce
       \<lparr> aad_cbor_key = 23, aad_server_id = replicate 32 0x01, aad_key_epoch = 7, aad_extra = [] \<rparr>
       \<lparr> aad_cbor_key = 23, aad_server_id = replicate 32 0x02, aad_key_epoch = 7, aad_extra = [] \<rparr>
       (map of_char ''private payload'') = Inl TagMismatch"

definition aead_tests :: "aead \<Rightarrow> bytes \<Rightarrow> bool" where
  "aead_tests a nonce \<longleftrightarrow> test_seal_open_roundtrip a nonce \<and> test_empty_plaintext_roundtrips a nonce \<and>
     test_wrong_aad_field_byte_rejected a nonce \<and> test_wrong_aad_epoch_rejected a nonce \<and>
     test_extra_aad_binding_is_authenticated a nonce \<and> test_aad_encoding_separates_field_bytes \<and>
     test_aad_encoding_separates_servers \<and> test_cross_server_replay_rejected a nonce"

text \<open>
  The cipher at one key and nonce: the ciphertext is the message longer by the tag, decryption
  inverts it, and no ciphertext belongs to two associated data strings.
\<close>

definition aead_laws :: "aead \<Rightarrow> bytes \<Rightarrow> bool" where
  "aead_laws a nonce \<longleftrightarrow> length nonce = NONCE_LEN \<and>
     (\<forall>d m. length (aead_encrypt a test_aead_key nonce d m) = length m + AEAD_TAG_LEN) \<and>
     (\<forall>d c m. aead_decrypt a test_aead_key nonce d c = Some m \<longleftrightarrow> c = aead_encrypt a test_aead_key nonce d m)"

text \<open>No message sealed under \<open>aad'\<close> has the ciphertext of \<open>pt\<close> sealed under \<open>aad\<close>.\<close>

definition aead_separates :: "aead \<Rightarrow> bytes \<Rightarrow> AadContext \<Rightarrow> AadContext \<Rightarrow> bytes \<Rightarrow> bool" where
  "aead_separates a nonce aad aad' pt \<longleftrightarrow>
     (\<forall>m. aead_encrypt a test_aead_key nonce (aad_encode aad) pt
        \<noteq> aead_encrypt a test_aead_key nonce (aad_encode aad') m)"

lemma seal_then_open_iff:
  assumes "aead_laws a nonce"
  shows "seal_then_open a nonce aad aad' pt = Inr m \<longleftrightarrow>
    aead_encrypt a test_aead_key nonce (aad_encode aad) pt
      = aead_encrypt a test_aead_key nonce (aad_encode aad') m"
proof -
  have laws: "length nonce = NONCE_LEN"
    "\<And>d m. length (aead_encrypt a test_aead_key nonce d m) = length m + AEAD_TAG_LEN"
    "\<And>d c m. aead_decrypt a test_aead_key nonce d c = Some m \<longleftrightarrow> c = aead_encrypt a test_aead_key nonce d m"
    using assms by (simp_all only: aead_laws_def simp_thms)
  note parts = seal_field_parts [of "aead_encrypt a" test_aead_key nonce aad pt, OF laws(2,1)]
  show ?thesis
    by (simp only: seal_then_open_def open_field_def parts(2,3) ok_or_Inr_iff laws(3))
qed

lemma seal_then_open_same: "aead_laws a nonce \<Longrightarrow> seal_then_open a nonce aad aad pt = Inr pt"
  by (simp add: seal_then_open_iff)

lemma seal_then_open_other:
  assumes "aead_laws a nonce"
  shows "seal_then_open a nonce aad aad' pt = Inl TagMismatch \<longleftrightarrow> aead_separates a nonce aad aad' pt"
proof -
  have "seal_then_open a nonce aad aad' pt = Inl TagMismatch \<longleftrightarrow>
      (\<forall>m. seal_then_open a nonce aad aad' pt \<noteq> Inr m)"
    by (cases "seal_then_open a nonce aad aad' pt") (simp_all add: seal_then_open_def open_field_def result_simps)
  then show ?thesis by (simp add: seal_then_open_iff [OF assms] aead_separates_def)
qed

lemma aad_encodings_separate:
  test_aad_encoding_separates_field_bytes test_aad_encoding_separates_servers
  unfolding test_aad_encoding_separates_field_bytes_def test_aad_encoding_separates_servers_def
  by (auto dest!: aad_encode_inject [rotated 2] simp: wf_aad_def test_aad_def)

lemma sealed_empty:
  "aead_laws a nonce \<Longrightarrow> sf_ciphertext (seal_field (aead_encrypt a) nonce test_aead_key aad []) = []"
  by (simp add: aead_laws_def seal_field_def Let_def)

text \<open>The AEAD tests pass exactly when the cipher separates the four pairs of contexts they name.\<close>

lemma aead_tests_iff:
  assumes "aead_laws a nonce"
  shows "aead_tests a nonce \<longleftrightarrow>
    aead_separates a nonce (test_aad []) ((test_aad [])\<lparr>aad_cbor_key := 24\<rparr>) (map of_char ''secret'') \<and>
    aead_separates a nonce (test_aad []) ((test_aad [])\<lparr>aad_key_epoch := 8\<rparr>) (map of_char ''secret'') \<and>
    aead_separates a nonce (test_aad (map of_char ''v=1,n=2'')) (test_aad (map of_char ''v=1,n=3''))
      (map of_char ''ok'') \<and>
    aead_separates a nonce (test_aad []) ((test_aad [])\<lparr>aad_server_id := replicate 32 0x02\<rparr>)
      (map of_char ''private payload'')"
proof -
  have server_b: "\<lparr> aad_cbor_key = 23, aad_server_id = replicate 32 0x01, aad_key_epoch = 7, aad_extra = [] \<rparr>
      = test_aad []"
    "\<lparr> aad_cbor_key = 23, aad_server_id = replicate 32 0x02, aad_key_epoch = 7, aad_extra = [] \<rparr>
      = (test_aad [])\<lparr>aad_server_id := replicate 32 0x02\<rparr>"
    by (simp_all add: test_aad_def)
  show ?thesis
    by (simp only: aead_tests_def aad_encodings_separate test_seal_open_roundtrip_def
        test_empty_plaintext_roundtrips_def test_wrong_aad_field_byte_rejected_def
        test_wrong_aad_epoch_rejected_def test_extra_aad_binding_is_authenticated_def
        test_cross_server_replay_rejected_def server_b seal_then_open_same [OF assms]
        seal_then_open_other [OF assms] sealed_empty [OF assms] Let_def simp_thms)
qed

text \<open>The tests of the cipher and the random source: fresh nonces, a wrong key, a flipped bit.\<close>

definition test_nonce_freshness_yields_distinct_ciphertexts :: "aead \<Rightarrow> bytes \<Rightarrow> bytes \<Rightarrow> bool" where
  "test_nonce_freshness_yields_distinct_ciphertexts a nonce nonce' \<longleftrightarrow>
     (let pt = map of_char ''hello world'';
          x = seal_field (aead_encrypt a) nonce test_aead_key (test_aad []) pt;
          y = seal_field (aead_encrypt a) nonce' test_aead_key (test_aad []) pt in
      sf_nonce x \<noteq> sf_nonce y \<and> sf_ciphertext x \<noteq> sf_ciphertext y)"

definition test_wrong_key_rejected :: "aead \<Rightarrow> bytes \<Rightarrow> bool" where
  "test_wrong_key_rejected a nonce \<longleftrightarrow>
     (let sealed = seal_field (aead_encrypt a) nonce test_aead_key (test_aad []) (map of_char ''secret'') in
      open_field (aead_decrypt a) (replicate 32 0xFF) (test_aad []) sealed = Inl TagMismatch)"

text \<open>\<open>if let Some(first) = xs.first_mut() { *first ^= 0x01 }\<close>\<close>

fun flip_first_bit :: "bytes \<Rightarrow> bytes" where
  "flip_first_bit [] = []"
| "flip_first_bit (b # bs) = xor b 1 # bs"

definition test_sealed_body :: "aead \<Rightarrow> bytes \<Rightarrow> SealedField" where
  "test_sealed_body a nonce =
     seal_field (aead_encrypt a) nonce test_aead_key (test_aad []) (map of_char ''secret message body'')"

definition test_tampered_ciphertext_rejected :: "aead \<Rightarrow> bytes \<Rightarrow> bool" where
  "test_tampered_ciphertext_rejected a nonce \<longleftrightarrow>
     (let sealed = test_sealed_body a nonce in
      open_field (aead_decrypt a) test_aead_key (test_aad [])
        (sealed\<lparr>sf_ciphertext := flip_first_bit (sf_ciphertext sealed)\<rparr>) = Inl TagMismatch)"

definition test_tampered_aead_tag_rejected :: "aead \<Rightarrow> bytes \<Rightarrow> bool" where
  "test_tampered_aead_tag_rejected a nonce \<longleftrightarrow>
     (let sealed = test_sealed_body a nonce in
      open_field (aead_decrypt a) test_aead_key (test_aad [])
        (sealed\<lparr>sf_aead_tag := (sf_aead_tag sealed)[0 := xor (sf_aead_tag sealed ! 0) 1]\<rparr>) = Inl TagMismatch)"

definition aead_cipher_tests :: "aead \<Rightarrow> bytes \<Rightarrow> bytes \<Rightarrow> bool" where
  "aead_cipher_tests a nonce nonce' \<longleftrightarrow> test_nonce_freshness_yields_distinct_ciphertexts a nonce nonce' \<and>
     test_wrong_key_rejected a nonce \<and> test_tampered_ciphertext_rejected a nonce \<and>
     test_tampered_aead_tag_rejected a nonce"

text \<open>What the cipher must do: two nonces, a key and two flipped bits apart, there is no message.\<close>

definition flip_at :: "nat \<Rightarrow> bytes \<Rightarrow> bytes" where
  "flip_at i bs = bs[i := xor (bs ! i) 1]"

lemma flip_first_bit_at: "bs \<noteq> [] \<Longrightarrow> flip_first_bit bs = flip_at 0 bs"
  by (cases bs) (simp_all add: flip_at_def)

lemma flip_at_append: "flip_at i xs @ ys = flip_at i (xs @ ys)" if "i < length xs"
  using that by (simp add: flip_at_def list_update_append nth_append)

lemma append_flip_at: "xs @ flip_at 0 ys = flip_at (length xs) (xs @ ys)"
  by (cases ys) (simp_all add: flip_at_def list_update_append list_update_beyond)

definition never_encrypted :: "aead \<Rightarrow> bytes \<Rightarrow> bytes \<Rightarrow> bool" where
  "never_encrypted a nonce c \<longleftrightarrow> (\<forall>m. aead_encrypt a test_aead_key nonce (aad_encode (test_aad [])) m \<noteq> c)"

lemma open_never_encrypted:
  assumes "aead_laws a nonce" and "sf_nonce s = nonce"
  shows "open_field (aead_decrypt a) test_aead_key (test_aad []) s = Inl TagMismatch \<longleftrightarrow>
     never_encrypted a nonce (sf_ciphertext s @ sf_aead_tag s)"
proof -
  let ?d = "aead_decrypt a test_aead_key nonce (aad_encode (test_aad [])) (sf_ciphertext s @ sf_aead_tag s)"
  have "?d = Some m \<longleftrightarrow> sf_ciphertext s @ sf_aead_tag s = aead_encrypt a test_aead_key nonce (aad_encode (test_aad [])) m" for m
    using assms(1) by (simp only: aead_laws_def)
  then have "?d = None \<longleftrightarrow> never_encrypted a nonce (sf_ciphertext s @ sf_aead_tag s)"
    unfolding never_encrypted_def by (metis option.exhaust option.distinct(1))
  then show ?thesis by (simp add: open_field_def assms(2) ok_or_Inl_iff)
qed

lemma aead_cipher_tests_iff:
  assumes laws: "aead_laws a nonce" and nonce': "length nonce' = NONCE_LEN"
    and len': "\<And>d m. length (aead_encrypt a test_aead_key nonce' d m) = length m + AEAD_TAG_LEN"
  shows "aead_cipher_tests a nonce nonce' \<longleftrightarrow>
    (let enc = \<lambda>nonce pt. aead_encrypt a test_aead_key nonce (aad_encode (test_aad [])) (map of_char pt) in
     nonce \<noteq> nonce' \<and> take 11 (enc nonce ''hello world'') \<noteq> take 11 (enc nonce' ''hello world'') \<and>
     aead_decrypt a (replicate 32 0xFF) nonce (aad_encode (test_aad [])) (enc nonce ''secret'') = None \<and>
     never_encrypted a nonce (flip_at 0 (enc nonce ''secret message body'')) \<and>
     never_encrypted a nonce (flip_at 19 (enc nonce ''secret message body'')))"
proof -
  have len: "\<And>d m. length (aead_encrypt a test_aead_key nonce d m) = length m + AEAD_TAG_LEN"
    and n: "length nonce = NONCE_LEN" using laws by (simp_all only: aead_laws_def simp_thms)
  note parts = seal_field_parts [of "aead_encrypt a" test_aead_key nonce "test_aad []", OF len n]
  let ?c = "aead_encrypt a test_aead_key nonce (aad_encode (test_aad [])) (map of_char ''secret message body'')"
  let ?s = "test_sealed_body a nonce"
  have s: "sf_nonce ?s = nonce" "sf_ciphertext ?s @ sf_aead_tag ?s = ?c"
    by (simp_all only: test_sealed_body_def parts)
  have "length (sf_ciphertext ?s) = 19" "length (sf_aead_tag ?s) = 16"
    by (simp_all add: test_sealed_body_def seal_field_def Let_def len AEAD_TAG_LEN_def)
  then have ne: "sf_ciphertext ?s \<noteq> []" "length (sf_ciphertext ?s) = 19" "0 < length (sf_ciphertext ?s)" by auto
  have flip1: "flip_first_bit (sf_ciphertext ?s) @ sf_aead_tag ?s = flip_at 0 ?c"
    by (simp only: flip_first_bit_at [OF ne(1)] flip_at_append [OF ne(3)] s(2))
  have flip2: "sf_ciphertext ?s @ (sf_aead_tag ?s)[0 := xor (sf_aead_tag ?s ! 0) 1] = flip_at 19 ?c"
    by (simp only: flip_at_def [symmetric] append_flip_at ne(2) s(2))
  have tests: "test_tampered_ciphertext_rejected a nonce \<longleftrightarrow> never_encrypted a nonce (flip_at 0 ?c)"
    "test_tampered_aead_tag_rejected a nonce \<longleftrightarrow> never_encrypted a nonce (flip_at 19 ?c)"
    by (simp_all add: test_tampered_ciphertext_rejected_def test_tampered_aead_tag_rejected_def Let_def
        open_never_encrypted [OF laws] s(1) flip1 flip2)
  have fresh: "test_nonce_freshness_yields_distinct_ciphertexts a nonce nonce' \<longleftrightarrow> nonce \<noteq> nonce' \<and>
      take 11 (aead_encrypt a test_aead_key nonce (aad_encode (test_aad [])) (map of_char ''hello world''))
        \<noteq> take 11 (aead_encrypt a test_aead_key nonce' (aad_encode (test_aad [])) (map of_char ''hello world''))"
  proof -
    have "length ''hello world'' = 11" by simp
    then show ?thesis
      by (simp only: test_nonce_freshness_yields_distinct_ciphertexts_def seal_field_def Let_def
          SealedField.select_convs len len' length_map diff_add_inverse2)
  qed
  show ?thesis
    by (simp only: aead_cipher_tests_def tests fresh test_wrong_key_rejected_def Let_def open_field_def
        parts(2,3) ok_or_Inl_iff simp_thms conj_assoc)
qed

section \<open>Key derivation (\<open>kdf.rs\<close>)\<close>

lemma be_bytes_numeral:
  "be_bytes (numeral k) v = be_bytes (pred_numeral k) (v div 256) @ [word_of_nat v]"
  by (simp only: numeral_eq_Suc [of k] be_bytes.simps)

definition kdf_mvk :: bytes where "kdf_mvk = replicate 32 0x42"
definition kdf_sid :: bytes where "kdf_sid = replicate 32 0x01"
definition kdf_cid :: bytes where "kdf_cid = replicate 32 0x02"

definition test_channel_dek_is_deterministic :: "(bytes \<Rightarrow> bytes \<Rightarrow> bytes) \<Rightarrow> bool" where
  "test_channel_dek_is_deterministic hkdf \<longleftrightarrow>
     derive_channel_dek hkdf kdf_mvk kdf_sid kdf_cid 7 = derive_channel_dek hkdf kdf_mvk kdf_sid kdf_cid 7"

definition test_channel_dek_changes_per_epoch :: "(bytes \<Rightarrow> bytes \<Rightarrow> bytes) \<Rightarrow> bool" where
  "test_channel_dek_changes_per_epoch hkdf \<longleftrightarrow>
     derive_channel_dek hkdf kdf_mvk kdf_sid kdf_cid 1 \<noteq> derive_channel_dek hkdf kdf_mvk kdf_sid kdf_cid 2"

definition test_domains_are_separated :: "(bytes \<Rightarrow> bytes \<Rightarrow> bytes) \<Rightarrow> bool" where
  "test_domains_are_separated hkdf \<longleftrightarrow>
     (let match_key = derive_match_tag_key hkdf kdf_mvk kdf_sid 0;
          member_key = derive_member_tag_key hkdf kdf_mvk kdf_sid 0;
          sealed_key = derive_member_sealed_key hkdf kdf_mvk kdf_sid 0 in
      match_key \<noteq> member_key \<and> match_key \<noteq> sealed_key \<and> member_key \<noteq> sealed_key)"

definition test_server_id_binding_is_honored :: "(bytes \<Rightarrow> bytes \<Rightarrow> bytes) \<Rightarrow> bool" where
  "test_server_id_binding_is_honored hkdf \<longleftrightarrow>
     derive_match_tag_key hkdf kdf_mvk (replicate 32 0xAA) 5 \<noteq> derive_match_tag_key hkdf kdf_mvk (replicate 32 0xBB) 5"

definition test_channel_id_binding_is_honored :: "(bytes \<Rightarrow> bytes \<Rightarrow> bytes) \<Rightarrow> bool" where
  "test_channel_id_binding_is_honored hkdf \<longleftrightarrow>
     derive_channel_dek hkdf kdf_mvk kdf_sid (replicate 32 0x10) 0
       \<noteq> derive_channel_dek hkdf kdf_mvk kdf_sid (replicate 32 0x11) 0"

definition test_channel_dek_golden_vector :: "(bytes \<Rightarrow> bytes \<Rightarrow> bytes) \<Rightarrow> bool" where
  "test_channel_dek_golden_vector hkdf \<longleftrightarrow>
     derive_channel_dek hkdf (replicate 32 0) (replicate 32 0) (replicate 32 0) 0 =
       [0x5C, 0x29, 0xE4, 0xE0, 0xFA, 0x14, 0x26, 0xF1, 0xDE, 0x02, 0x23, 0xE9, 0x90, 0x80, 0x55, 0x52,
        0x9D, 0x70, 0xA9, 0x6C, 0x53, 0x87, 0xF0, 0x00, 0xE5, 0x4F, 0x6B, 0x6F, 0xFD, 0x99, 0xD2, 0xA9]"

text \<open>The vector passes exactly when HKDF maps this info to it.\<close>

lemma channel_dek_golden_iff:
  "test_channel_dek_golden_vector hkdf \<longleftrightarrow>
     hkdf (replicate 32 0) (map of_char ''komms/v1.1/channel-dek'' @ replicate 73 0) =
       [0x5C, 0x29, 0xE4, 0xE0, 0xFA, 0x14, 0x26, 0xF1, 0xDE, 0x02, 0x23, 0xE9, 0x90, 0x80, 0x55, 0x52,
        0x9D, 0x70, 0xA9, 0x6C, 0x53, 0x87, 0xF0, 0x00, 0xE5, 0x4F, 0x6B, 0x6F, 0xFD, 0x99, 0xD2, 0xA9]"
proof -
  have "[0x00] @ replicate 32 0 @ replicate 32 0 @ u64_to_be_bytes 0 = (replicate 73 0 :: bytes)"
    by code_simp
  then show ?thesis
    by (simp only: test_channel_dek_golden_vector_def derive_channel_dek_def hkdf_32_def domain_as_bytes.simps append_assoc)
qed

definition kdf_tests :: "(bytes \<Rightarrow> bytes \<Rightarrow> bytes) \<Rightarrow> bool" where
  "kdf_tests hkdf \<longleftrightarrow> test_channel_dek_is_deterministic hkdf \<and> test_channel_dek_changes_per_epoch hkdf \<and>
     test_domains_are_separated hkdf \<and> test_server_id_binding_is_honored hkdf \<and>
     test_channel_id_binding_is_honored hkdf"

definition kdf_test_requests :: "key_request list" where
  "kdf_test_requests =
     [ChannelKey kdf_sid kdf_cid 1, ChannelKey kdf_sid kdf_cid 2, MatchKey kdf_sid 0, MemberKey kdf_sid 0,
      SealKey kdf_sid 0, MatchKey (replicate 32 0xAA) 5, MatchKey (replicate 32 0xBB) 5,
      ChannelKey kdf_sid (replicate 32 0x10) 0, ChannelKey kdf_sid (replicate 32 0x11) 0]"

lemma kdf_requests_wf: "list_all wf_request kdf_test_requests"
  by (simp add: kdf_test_requests_def kdf_sid_def kdf_cid_def)

text \<open>The derivation tests pass when HKDF has no collision among their nine info strings.\<close>

lemma kdf_tests_pass:
  assumes "inj_on (hkdf kdf_mvk) (request_info ` set kdf_test_requests)"
  shows "kdf_tests hkdf"
proof -
  have ne: "derive hkdf kdf_mvk r \<noteq> derive hkdf kdf_mvk s"
    if "r \<in> set kdf_test_requests" "s \<in> set kdf_test_requests" "r \<noteq> s" for r s
  proof -
    have "wf_request r" "wf_request s" using kdf_requests_wf that by (auto simp: list_all_iff)
    with \<open>r \<noteq> s\<close> have "request_info r \<noteq> request_info s" by (simp add: request_info_inject)
    with assms that show ?thesis unfolding derive_request inj_on_def by blast
  qed
  note pairs =
    ne [of "ChannelKey kdf_sid kdf_cid 1" "ChannelKey kdf_sid kdf_cid 2"]
    ne [of "MatchKey kdf_sid 0" "MemberKey kdf_sid 0"] ne [of "MatchKey kdf_sid 0" "SealKey kdf_sid 0"]
    ne [of "MemberKey kdf_sid 0" "SealKey kdf_sid 0"]
    ne [of "MatchKey (replicate 32 0xAA) 5" "MatchKey (replicate 32 0xBB) 5"]
    ne [of "ChannelKey kdf_sid (replicate 32 0x10) 0" "ChannelKey kdf_sid (replicate 32 0x11) 0"]
  show ?thesis
    using pairs by (simp add: kdf_tests_def test_channel_dek_is_deterministic_def
        test_channel_dek_changes_per_epoch_def test_domains_are_separated_def
        test_server_id_binding_is_honored_def test_channel_id_binding_is_honored_def
        kdf_test_requests_def Let_def)
qed

section \<open>Tags (\<open>tags.rs\<close>)\<close>

record tag_prims =
  tp_hkdf :: "bytes \<Rightarrow> bytes \<Rightarrow> bytes"
  tp_hmac :: "bytes \<Rightarrow> bytes \<Rightarrow> bytes"

definition test_match_tag_is_deterministic :: "tag_prims \<Rightarrow> bool" where
  "test_match_tag_is_deterministic p \<longleftrightarrow>
     (let k = derive_match_tag_key (tp_hkdf p) kdf_mvk kdf_sid 0;
          a = compute_match_tag (tp_hmac p) k kdf_cid 0;
          b = compute_match_tag (tp_hmac p) k kdf_cid 0 in
      a = b \<and> length a = TAG_LEN)"

definition test_match_tag_changes_per_epoch :: "tag_prims \<Rightarrow> bool" where
  "test_match_tag_changes_per_epoch p \<longleftrightarrow>
     (let k1 = derive_match_tag_key (tp_hkdf p) kdf_mvk kdf_sid 1;
          k2 = derive_match_tag_key (tp_hkdf p) kdf_mvk kdf_sid 2 in
      compute_match_tag (tp_hmac p) k1 kdf_cid 1 \<noteq> compute_match_tag (tp_hmac p) k2 kdf_cid 2)"

definition test_match_tag_separates_channels :: "tag_prims \<Rightarrow> bool" where
  "test_match_tag_separates_channels p \<longleftrightarrow>
     (let k = derive_match_tag_key (tp_hkdf p) kdf_mvk kdf_sid 0 in
      compute_match_tag (tp_hmac p) k (replicate 32 0x10) 0 \<noteq> compute_match_tag (tp_hmac p) k (replicate 32 0x11) 0)"

definition test_match_and_member_domains_are_separated :: "tag_prims \<Rightarrow> bool" where
  "test_match_and_member_domains_are_separated p \<longleftrightarrow>
     compute_match_tag (tp_hmac p) (replicate 32 0x99) (replicate 32 0x02) 0
       \<noteq> compute_member_tag (tp_hmac p) (replicate 32 0x99) (replicate 32 0x02) 0"

definition test_member_tag_separates_members :: "tag_prims \<Rightarrow> bool" where
  "test_member_tag_separates_members p \<longleftrightarrow>
     (let k = derive_member_tag_key (tp_hkdf p) kdf_mvk kdf_sid 0 in
      compute_member_tag (tp_hmac p) k (replicate 32 0x21) 0 \<noteq> compute_member_tag (tp_hmac p) k (replicate 32 0x22) 0)"

definition test_match_tag_golden_vector :: "tag_prims \<Rightarrow> bool" where
  "test_match_tag_golden_vector p \<longleftrightarrow>
     compute_match_tag (tp_hmac p) (replicate 32 0) (replicate 32 0) 0 =
       [0xBD, 0x86, 0x72, 0x35, 0x3C, 0x3F, 0x21, 0x1F, 0x26, 0x39, 0x56, 0xC4, 0xA2, 0xC0, 0xF8, 0x48]"

lemma match_tag_golden_iff:
  "test_match_tag_golden_vector p \<longleftrightarrow>
     take 16 (tp_hmac p (replicate 32 0) (map of_char ''komms/v1.1/match-tag'' @ replicate 40 0)) =
       [0xBD, 0x86, 0x72, 0x35, 0x3C, 0x3F, 0x21, 0x1F, 0x26, 0x39, 0x56, 0xC4, 0xA2, 0xC0, 0xF8, 0x48]"
proof -
  have "replicate 32 0 @ u64_to_be_bytes 0 = (replicate 40 0 :: bytes)" by code_simp
  then show ?thesis
    by (simp only: test_match_tag_golden_vector_def compute_match_tag_def TAG_LEN_def MATCH_TAG_DOMAIN_def append_assoc)
qed

definition tag_tests :: "tag_prims \<Rightarrow> bool" where
  "tag_tests p \<longleftrightarrow> test_match_tag_is_deterministic p \<and> test_match_tag_changes_per_epoch p \<and>
     test_match_tag_separates_channels p \<and> test_match_and_member_domains_are_separated p \<and>
     test_member_tag_separates_members p"

text \<open>The key and message of the eight HMACs the tests compare.\<close>

definition match_input :: "bytes \<Rightarrow> bytes \<Rightarrow> u64 \<Rightarrow> bytes \<times> bytes" where
  "match_input k cid e = (k, MATCH_TAG_DOMAIN @ cid @ u64_to_be_bytes e)"

definition member_input :: "bytes \<Rightarrow> bytes \<Rightarrow> u64 \<Rightarrow> bytes \<times> bytes" where
  "member_input k pk e = (k, MEMBER_TAG_DOMAIN @ pk @ u64_to_be_bytes e)"

definition tag_test_inputs :: "tag_prims \<Rightarrow> (bytes \<times> bytes) list" where
  "tag_test_inputs p =
     (let mk = derive_match_tag_key (tp_hkdf p) kdf_mvk kdf_sid;
          bk = derive_member_tag_key (tp_hkdf p) kdf_mvk kdf_sid 0 in
      [match_input (mk 1) kdf_cid 1, match_input (mk 2) kdf_cid 2,
       match_input (mk 0) (replicate 32 0x10) 0, match_input (mk 0) (replicate 32 0x11) 0,
       match_input (replicate 32 0x99) (replicate 32 0x02) 0, member_input (replicate 32 0x99) (replicate 32 0x02) 0,
       member_input bk (replicate 32 0x21) 0, member_input bk (replicate 32 0x22) 0])"

lemma tag_input_simps:
  "length c = 32 \<Longrightarrow> length c' = 32 \<Longrightarrow> match_input k c e = match_input k' c' e' \<longleftrightarrow> k = k' \<and> c = c' \<and> e = e'"
  "length c = 32 \<Longrightarrow> length c' = 32 \<Longrightarrow> member_input k c e = member_input k' c' e' \<longleftrightarrow> k = k' \<and> c = c' \<and> e = e'"
  "length c = 32 \<Longrightarrow> length c' = 32 \<Longrightarrow> match_input k c e \<noteq> member_input k' c' e'"
  by (auto simp: match_input_def member_input_def append_eq_append_conv MATCH_TAG_DOMAIN_def
      MEMBER_TAG_DOMAIN_def dest: arg_cong [where f = length])

lemma tag_tests_pass:
  assumes inj: "inj_on (\<lambda>(k, m). take TAG_LEN (tp_hmac p k m)) (set (tag_test_inputs p))"
    and len: "\<And>k m. length (tp_hmac p k m) = 32"
  shows "tag_tests p"
proof -
  have tags: "compute_match_tag (tp_hmac p) k c e = (\<lambda>(k, m). take TAG_LEN (tp_hmac p k m)) (match_input k c e)"
    "compute_member_tag (tp_hmac p) k c e = (\<lambda>(k, m). take TAG_LEN (tp_hmac p k m)) (member_input k c e)" for k c e
    by (simp_all add: compute_match_tag_def compute_member_tag_def match_input_def member_input_def)
  have "test_match_tag_is_deterministic p"
    by (simp add: test_match_tag_is_deterministic_def Let_def compute_match_tag_def len TAG_LEN_def)
  moreover have "test_match_tag_changes_per_epoch p" "test_match_tag_separates_channels p"
    "test_match_and_member_domains_are_separated p" "test_member_tag_separates_members p"
    by (simp_all add: test_match_tag_changes_per_epoch_def test_match_tag_separates_channels_def
        test_match_and_member_domains_are_separated_def test_member_tag_separates_members_def Let_def tags
        inj_on_eq_iff [OF inj] tag_test_inputs_def tag_input_simps kdf_cid_def del: replicate.simps)
  ultimately show ?thesis by (simp add: tag_tests_def)
qed

section \<open>State hash (\<open>state_hash.rs\<close>)\<close>

definition test_pe :: "bytes \<Rightarrow> bytes \<Rightarrow> ProjectedEvent" where
  "test_pe tx_id body = \<lparr> pe_tx_id = tx_id, pe_canonical_cbor = body \<rparr>"

definition test_next_is_deterministic :: "(bytes \<Rightarrow> bytes) \<Rightarrow> bool" where
  "test_next_is_deterministic blake2b \<longleftrightarrow>
     (let prior = state_hash_genesis blake2b;
          events = [test_pe (replicate 32 0x01) (map of_char ''event-a''),
                    test_pe (replicate 32 0x02) (map of_char ''event-b'')] in
      state_hash_next blake2b prior events = state_hash_next blake2b prior events)"

definition test_sort_order_is_normalised :: "(bytes \<Rightarrow> bytes) \<Rightarrow> bool" where
  "test_sort_order_is_normalised blake2b \<longleftrightarrow>
     (let prior = state_hash_genesis blake2b;
          a = test_pe (replicate 32 0x01) (map of_char ''a'');
          b = test_pe (replicate 32 0x02) (map of_char ''b'');
          c = test_pe (replicate 32 0x03) (map of_char ''c'') in
      state_hash_next blake2b prior [a, b, c] = state_hash_next blake2b prior [b, c, a])"

definition test_prior_hash_propagates :: "(bytes \<Rightarrow> bytes) \<Rightarrow> bool" where
  "test_prior_hash_propagates blake2b \<longleftrightarrow>
     (let events = [test_pe (replicate 32 0x01) (map of_char ''x'')] in
      state_hash_next blake2b (replicate 32 0xAA) events \<noteq> state_hash_next blake2b (replicate 32 0xBB) events)"

definition test_empty_block_advances_chain :: "(bytes \<Rightarrow> bytes) \<Rightarrow> bool" where
  "test_empty_block_advances_chain blake2b \<longleftrightarrow>
     (let prior = state_hash_genesis blake2b; h = state_hash_next blake2b prior [] in
      h \<noteq> prior \<and> h = blake2b (prior @ [0x80]))"

definition test_projection_bit_flip_diverges :: "(bytes \<Rightarrow> bytes) \<Rightarrow> bool" where
  "test_projection_bit_flip_diverges blake2b \<longleftrightarrow>
     (let prior = state_hash_genesis blake2b in
      state_hash_next blake2b prior [test_pe (replicate 32 0x01) (map of_char ''version_a_payload'')]
        \<noteq> state_hash_next blake2b prior [test_pe (replicate 32 0x01) (map of_char ''version_b_payload'')])"

definition test_cbor_array_header_canonical_lengths :: bool where
  "test_cbor_array_header_canonical_lengths \<longleftrightarrow>
     encode_cbor_uint_header 0x80 0 = [0x80] \<and>
     encode_cbor_uint_header 0x80 23 = [0x97] \<and>
     encode_cbor_uint_header 0x80 24 = [0x98, 24] \<and>
     encode_cbor_uint_header 0x80 255 = [0x98, 255] \<and>
     encode_cbor_uint_header 0x80 256 = [0x99, 0x01, 0x00] \<and>
     encode_cbor_uint_header 0x80 0xFFFF = [0x99, 0xFF, 0xFF] \<and>
     encode_cbor_uint_header 0x80 0x10000 = [0x9A, 0x00, 0x01, 0x00, 0x00] \<and>
     encode_cbor_uint_header 0x80 0xFFFFFFFFFFFFFFFF = [0x9B, 0xFF, 0xFF, 0xFF, 0xFF, 0xFF, 0xFF, 0xFF, 0xFF]"

definition test_genesis_golden_vector :: "(bytes \<Rightarrow> bytes) \<Rightarrow> bool" where
  "test_genesis_golden_vector blake2b \<longleftrightarrow>
     state_hash_genesis blake2b =
       [0xDD, 0x7E, 0xF7, 0x6D, 0xD5, 0x2E, 0x04, 0xEC, 0xE3, 0xC5, 0x0D, 0x23, 0x8B, 0xCA, 0x09, 0x46,
        0xED, 0xEE, 0x68, 0x7E, 0xF7, 0xE3, 0xD2, 0x97, 0x1F, 0x33, 0x90, 0xE4, 0x72, 0x52, 0x40, 0x4E]"

definition test_next_block_golden_vector :: "(bytes \<Rightarrow> bytes) \<Rightarrow> bool" where
  "test_next_block_golden_vector blake2b \<longleftrightarrow>
     (let prior = state_hash_genesis blake2b;
          events = [test_pe (replicate 32 0x01) [0xA1, 0x00, 0x01], test_pe (replicate 32 0x02) [0xA1, 0x00, 0x02],
                    test_pe (replicate 32 0x03) [0xA1, 0x00, 0x03]] in
      state_hash_next blake2b prior events =
       [0xD5, 0x5C, 0x7C, 0x5F, 0x47, 0x74, 0xBF, 0xA8, 0x1A, 0xEB, 0x68, 0x70, 0xAD, 0x5E, 0x1D, 0x7A,
        0x53, 0x98, 0x82, 0x05, 0x10, 0xD0, 0x96, 0x81, 0x2D, 0xD5, 0x42, 0x5A, 0x3D, 0xE9, 0xFF, 0xBD])"

definition state_hash_tests :: "(bytes \<Rightarrow> bytes) \<Rightarrow> bool" where
  "state_hash_tests blake2b \<longleftrightarrow> test_next_is_deterministic blake2b \<and> test_sort_order_is_normalised blake2b \<and>
     test_prior_hash_propagates blake2b \<and> test_empty_block_advances_chain blake2b \<and>
     test_projection_bit_flip_diverges blake2b \<and> test_cbor_array_header_canonical_lengths"

lemma cbor_header_test_passes: test_cbor_array_header_canonical_lengths
  by (simp add: test_cbor_array_header_canonical_lengths_def encode_cbor_uint_header_def
      u16_to_be_bytes_def u32_to_be_bytes_def u64_to_be_bytes_def be_bytes_numeral)

lemma replicate_32: "replicate 32 x = x # replicate 31 x"
  using replicate_Suc [of 31 x] by simp

lemma sort_test_passes: "test_sort_order_is_normalised blake2b"
  by (simp add: test_sort_order_is_normalised_def state_hash_next_alt sorted_events_def Let_def
      test_pe_def sort_key_def replicate_32 del: replicate.simps)

lemma one_event_hash:
  "state_hash_next blake2b prior [test_pe i b] = blake2b (prior @ [0x81] @ b)"
proof -
  have "encode_cbor_uint_header 0x80 1 = [0x81]" by code_simp
  then show ?thesis by (simp add: state_hash_next_alt sorted_events_def test_pe_def)
qed

lemma no_event_hash: "state_hash_next blake2b prior [] = blake2b (prior @ [0x80])"
proof -
  have "encode_cbor_uint_header 0x80 0 = [0x80]" by code_simp
  then show ?thesis by (simp add: state_hash_next_alt sorted_events_def)
qed

text \<open>The tests pass exactly when BLAKE2b separates the three pairs of strings they hash.\<close>

lemma state_hash_tests_iff:
  "state_hash_tests blake2b \<longleftrightarrow>
     blake2b (replicate 32 0xAA @ [0x81] @ map of_char ''x'') \<noteq> blake2b (replicate 32 0xBB @ [0x81] @ map of_char ''x'') \<and>
     blake2b (state_hash_genesis blake2b @ [0x80]) \<noteq> state_hash_genesis blake2b \<and>
     blake2b (state_hash_genesis blake2b @ [0x81] @ map of_char ''version_a_payload'')
       \<noteq> blake2b (state_hash_genesis blake2b @ [0x81] @ map of_char ''version_b_payload'')"
  by (simp only: state_hash_tests_def test_next_is_deterministic_def sort_test_passes
      test_prior_hash_propagates_def test_empty_block_advances_chain_def
      test_projection_bit_flip_diverges_def cbor_header_test_passes one_event_hash no_event_hash
      Let_def simp_thms)

text \<open>The bytes that the two golden vectors hash.\<close>

lemma state_hash_golden_iff:
  "test_genesis_golden_vector blake2b \<longleftrightarrow>
     blake2b (map of_char ''KOMMS_STATE_GENESIS_v1.1'' @ replicate 32 0) =
       [0xDD, 0x7E, 0xF7, 0x6D, 0xD5, 0x2E, 0x04, 0xEC, 0xE3, 0xC5, 0x0D, 0x23, 0x8B, 0xCA, 0x09, 0x46,
        0xED, 0xEE, 0x68, 0x7E, 0xF7, 0xE3, 0xD2, 0x97, 0x1F, 0x33, 0x90, 0xE4, 0x72, 0x52, 0x40, 0x4E]"
  "test_next_block_golden_vector blake2b \<longleftrightarrow>
     blake2b (state_hash_genesis blake2b @ [0x83, 0xA1, 0x00, 0x01, 0xA1, 0x00, 0x02, 0xA1, 0x00, 0x03]) =
       [0xD5, 0x5C, 0x7C, 0x5F, 0x47, 0x74, 0xBF, 0xA8, 0x1A, 0xEB, 0x68, 0x70, 0xAD, 0x5E, 0x1D, 0x7A,
        0x53, 0x98, 0x82, 0x05, 0x10, 0xD0, 0x96, 0x81, 0x2D, 0xD5, 0x42, 0x5A, 0x3D, 0xE9, 0xFF, 0xBD]"
proof -
  have "encode_cbor_uint_header 0x80 3 = [0x83]" by code_simp
  then show "test_next_block_golden_vector blake2b \<longleftrightarrow>
     blake2b (state_hash_genesis blake2b @ [0x83, 0xA1, 0x00, 0x01, 0xA1, 0x00, 0x02, 0xA1, 0x00, 0x03]) =
       [0xD5, 0x5C, 0x7C, 0x5F, 0x47, 0x74, 0xBF, 0xA8, 0x1A, 0xEB, 0x68, 0x70, 0xAD, 0x5E, 0x1D, 0x7A,
        0x53, 0x98, 0x82, 0x05, 0x10, 0xD0, 0x96, 0x81, 0x2D, 0xD5, 0x42, 0x5A, 0x3D, 0xE9, 0xFF, 0xBD]"
    by (simp add: test_next_block_golden_vector_def state_hash_next_alt sorted_events_def Let_def
        test_pe_def sort_key_def replicate_32 del: replicate.simps)
qed (simp only: test_genesis_golden_vector_def state_hash_genesis_def GENESIS_DOMAIN_def STATE_HASH_LEN_def)

end
