(* ===== verification/Auth_Tests.thy ===== *)
theory Auth_Tests
  imports Decimal
begin

text \<open>
  The unit tests of \<open>crypto/src/request_auth.rs\<close>, one definition per test function, over HMAC, the
  hex functions and the clock. A request signed at the clock's own time is never refused for its
  timestamp, because the decimal timestamp reads back (\<open>Decimal\<close>); the tests then pass exactly when the two
  HMACs that the forging tests compare differ.
\<close>

section \<open>The tests\<close>

record auth_env =
  auth_hmac :: "bytes \<Rightarrow> bytes \<Rightarrow> bytes"
  auth_hex_string :: "bytes \<Rightarrow> bytes"
  auth_hex_decode :: "bytes \<Rightarrow> nat \<Rightarrow> bytes option"
  auth_now :: u64

definition test_secrets :: "(bytes, bytes) btree_map" where
  "test_secrets = om_insert (ascii ''validator:5G'') (replicate 32 0x22)
     (om_insert (ascii ''gateway'') (replicate 32 0x11) [])"

definition now_ts :: "auth_env \<Rightarrow> int" where
  "now_ts p = sint (auth_now p)"

text \<open>The calls of the tests: sign with the entry of \<open>signer\<close>, verify as \<open>caller\<close> with 300 s of skew.\<close>

definition test_sign :: "auth_env \<Rightarrow> bytes \<Rightarrow> bytes \<Rightarrow> int \<Rightarrow> bytes \<Rightarrow> bytes \<Rightarrow> bytes \<Rightarrow> bytes" where
  "test_sign p signer caller ts method path body =
     sign (auth_hmac p) (auth_hex_string p) (the (om_get test_secrets signer)) caller (i64_to_string ts)
       method path body"

definition test_verify ::
  "auth_env \<Rightarrow> bytes \<Rightarrow> bytes \<Rightarrow> bytes \<Rightarrow> bytes \<Rightarrow> int \<Rightarrow> bytes \<Rightarrow> RequestAuthError + bytes" where
  "test_verify p method path body caller ts sig =
     verify (auth_hmac p) (auth_hex_decode p) (Some (auth_now p)) test_secrets method path body
       (Some caller) (Some (i64_to_string ts)) (Some sig) 300"

definition test_canonical_input_layout_is_documented :: bool where
  "test_canonical_input_layout_is_documented \<longleftrightarrow>
     canonical_input (ascii ''gw'') (ascii ''100'') (ascii ''POST'') (ascii ''/v1/submit'') (ascii ''body'')
     = ascii ''gw'' @ [0x0A] @ ascii ''100'' @ [0x0A] @ ascii ''POST'' @ [0x0A] @ ascii ''/v1/submit'' @
       [0x0A] @ ascii ''body''"

definition test_sign_verify_roundtrip_under_gateway_secret :: "auth_env \<Rightarrow> bool" where
  "test_sign_verify_roundtrip_under_gateway_secret p \<longleftrightarrow>
     (let ts = now_ts p; body = [0x7B, 0x22] @ ascii ''hello'' @ [0x22, 0x3A, 0x22] @ ascii ''world'' @ [0x22, 0x7D];
          sig = test_sign p (ascii ''gateway'') (ascii ''gateway'') ts (ascii ''POST'') (ascii ''/v1/submit'') body in
      test_verify p (ascii ''POST'') (ascii ''/v1/submit'') body (ascii ''gateway'') ts sig
        = Inr (ascii ''gateway''))"

definition test_validator_secret_cannot_forge_gateway_caller :: "auth_env \<Rightarrow> bool" where
  "test_validator_secret_cannot_forge_gateway_caller p \<longleftrightarrow>
     (let ts = now_ts p; body = ascii ''{}'';
          sig = test_sign p (ascii ''validator:5G'') (ascii ''gateway'') ts (ascii ''POST'') (ascii ''/v1/submit'') body in
      test_verify p (ascii ''POST'') (ascii ''/v1/submit'') body (ascii ''gateway'') ts sig = Inl HmacMismatch)"

definition test_submit_signature_does_not_authenticate_ws_upgrade :: "auth_env \<Rightarrow> bool" where
  "test_submit_signature_does_not_authenticate_ws_upgrade p \<longleftrightarrow>
     (let ts = now_ts p;
          sig = test_sign p (ascii ''gateway'') (ascii ''gateway'') ts (ascii ''POST'') (ascii ''/v1/submit'') [] in
      test_verify p (ascii ''GET'') (ascii ''/komms/events/stream'') [] (ascii ''gateway'') ts sig
        = Inl HmacMismatch)"

definition test_rejects_unknown_caller :: "auth_env \<Rightarrow> bool" where
  "test_rejects_unknown_caller p \<longleftrightarrow>
     test_verify p (ascii ''POST'') (ascii ''/v1/submit'') [] (ascii ''attacker'') (now_ts p)
       (concat (replicate 32 (ascii ''00''))) = Inl UnknownCaller"

definition test_rejects_skewed_timestamp :: "auth_env \<Rightarrow> bool" where
  "test_rejects_skewed_timestamp p \<longleftrightarrow>
     (let ts = now_ts p - 10000;
          sig = test_sign p (ascii ''gateway'') (ascii ''gateway'') ts (ascii ''POST'') (ascii ''/x'') [] in
      case test_verify p (ascii ''POST'') (ascii ''/x'') [] (ascii ''gateway'') ts sig of
        Inl (TimestampDrift _ _) \<Rightarrow> True
      | _ \<Rightarrow> False)"

definition auth_tests :: "auth_env \<Rightarrow> bool" where
  "auth_tests p \<longleftrightarrow> test_canonical_input_layout_is_documented \<and>
     test_sign_verify_roundtrip_under_gateway_secret p \<and> test_validator_secret_cannot_forge_gateway_caller p \<and>
     test_submit_signature_does_not_authenticate_ws_upgrade p \<and> test_rejects_unknown_caller p \<and>
     test_rejects_skewed_timestamp p"

section \<open>When they pass\<close>

definition auth_laws :: "auth_env \<Rightarrow> bool" where
  "auth_laws p \<longleftrightarrow> uint (auth_now p) < 2 ^ 63 \<and> (\<forall>k m. length (auth_hmac p k m) = 32) \<and>
     (\<forall>mac. length mac = 32 \<longrightarrow> auth_hex_decode p (trim (auth_hex_string p mac)) 32 = Some mac)"

lemma now_ts_bounds:
  assumes "auth_laws p"
  shows "0 \<le> now_ts p" and "now_ts p < 2 ^ 63" and "word_of_int (now_ts p) = auth_now p"
proof -
  have "sint (word_of_int (uint (auth_now p)) :: u64) = uint (auth_now p)"
    using assms by (intro sint_u64_small order_trans [OF _ unsigned_greater_eq]) (simp_all add: auth_laws_def)
  then have "now_ts p = uint (auth_now p)" by (simp add: now_ts_def)
  with assms show "0 \<le> now_ts p" "now_ts p < 2 ^ 63" "word_of_int (now_ts p) = auth_now p"
    by (simp_all add: auth_laws_def)
qed

lemma test_callers:
  "om_get test_secrets (ascii ''gateway'') = Some (replicate 32 0x11)"
  "om_get test_secrets (ascii ''validator:5G'') = Some (replicate 32 0x22)"
  "om_get test_secrets (ascii ''attacker'') = None"
  by code_simp+

lemma test_names:
  "trim (ascii ''gateway'') = ascii ''gateway''" "trim (ascii ''attacker'') = ascii ''attacker''"
  "ascii ''gateway'' \<noteq> []" "ascii ''attacker'' \<noteq> []"
  by code_simp+

text \<open>A request of the gateway with the HMAC \<open>mac\<close> in its signature header.\<close>

lemma test_verify_now:
  assumes "auth_laws p" and "length mac = 32"
  shows "test_verify p method path body (ascii ''gateway'') (now_ts p) (auth_hex_string p mac) =
    (if auth_hmac p (replicate 32 0x11)
          (canonical_input (ascii ''gateway'') (i64_to_string (now_ts p)) method path body) = mac
     then Inr (ascii ''gateway'') else Inl HmacMismatch)"
proof -
  note now = now_ts_bounds [OF assms(1)]
  have p: "parse_i64 (i64_to_string (now_ts p)) = Some (now_ts p)"
    using now by (intro parse_i64_to_string) simp_all
  have d: "clock_drift (auth_now p) (now_ts p) = 0" using now(3) by (simp add: clock_drift_def)
  show ?thesis
    using assms by (simp add: test_verify_def verify_def p d test_names test_callers auth_laws_def Let_def)
qed

lemma test_sign_length:
  "auth_laws p \<Longrightarrow> \<exists>mac. length mac = 32 \<and> test_sign p signer caller ts method path body = auth_hex_string p mac \<and>
     mac = auth_hmac p (the (om_get test_secrets signer)) (canonical_input caller (i64_to_string ts) method path body)"
  by (simp add: test_sign_def sign_def auth_laws_def)

lemma test_roundtrip_iff:
  assumes "auth_laws p"
  shows "test_verify p method path body (ascii ''gateway'') (now_ts p)
      (test_sign p signer (ascii ''gateway'') (now_ts p) method' path' body') =
    (if auth_hmac p (replicate 32 0x11)
          (canonical_input (ascii ''gateway'') (i64_to_string (now_ts p)) method path body)
        = auth_hmac p (the (om_get test_secrets signer))
          (canonical_input (ascii ''gateway'') (i64_to_string (now_ts p)) method' path' body')
     then Inr (ascii ''gateway'') else Inl HmacMismatch)"
  using test_sign_length [OF assms] test_verify_now [OF assms] by metis

lemma test_skewed:
  assumes "auth_laws p"
  shows "test_verify p method path body (ascii ''gateway'') (now_ts p - 10000) sig
    = Inl (TimestampDrift 10000 300)"
proof -
  note now = now_ts_bounds [OF assms]
  have p: "parse_i64 (i64_to_string (now_ts p - 10000)) = Some (now_ts p - 10000)"
    using now(1,2) by (intro parse_i64_to_string) simp_all
  have "auth_now p - word_of_int (now_ts p - 10000) = 10000"
    unfolding now(3) [symmetric] of_int_diff by simp
  then have d: "clock_drift (auth_now p) (now_ts p - 10000) = 10000"
    by (simp add: clock_drift_def)
  show ?thesis by (simp add: test_verify_def verify_def p d test_names Let_def)
qed

lemma test_unknown:
  assumes "auth_laws p"
  shows "test_verify p method path body (ascii ''attacker'') (now_ts p) sig = Inl UnknownCaller"
proof -
  note now = now_ts_bounds [OF assms]
  have p: "parse_i64 (i64_to_string (now_ts p)) = Some (now_ts p)"
    using now by (intro parse_i64_to_string) simp_all
  have d: "clock_drift (auth_now p) (now_ts p) = 0" using now(3) by (simp add: clock_drift_def)
  show ?thesis by (simp add: test_verify_def verify_def p d test_names test_callers Let_def)
qed

lemma auth_tests_iff:
  assumes "auth_laws p"
  shows "auth_tests p \<longleftrightarrow>
    auth_hmac p (replicate 32 0x11) (canonical_input (ascii ''gateway'') (i64_to_string (now_ts p))
        (ascii ''POST'') (ascii ''/v1/submit'') (ascii ''{}''))
      \<noteq> auth_hmac p (replicate 32 0x22) (canonical_input (ascii ''gateway'') (i64_to_string (now_ts p))
        (ascii ''POST'') (ascii ''/v1/submit'') (ascii ''{}'')) \<and>
    auth_hmac p (replicate 32 0x11) (canonical_input (ascii ''gateway'') (i64_to_string (now_ts p))
        (ascii ''GET'') (ascii ''/komms/events/stream'') [])
      \<noteq> auth_hmac p (replicate 32 0x11) (canonical_input (ascii ''gateway'') (i64_to_string (now_ts p))
        (ascii ''POST'') (ascii ''/v1/submit'') [])"
proof -
  have "test_canonical_input_layout_is_documented"
    by (simp add: test_canonical_input_layout_is_documented_def canonical_input_def)
  then show ?thesis
    by (simp add: auth_tests_def test_sign_verify_roundtrip_under_gateway_secret_def
        test_validator_secret_cannot_forge_gateway_caller_def
        test_submit_signature_does_not_authenticate_ws_upgrade_def test_rejects_unknown_caller_def
        test_rejects_skewed_timestamp_def test_roundtrip_iff [OF assms] test_callers
        test_skewed [OF assms] test_unknown [OF assms] Let_def)
qed

end
