(* ===== verification/Encode_Limits.thy ===== *)
theory Encode_Limits
  imports Payload Cbor_Write
begin

text \<open>
  What \<open>encode_cbor_map\<close> (\<open>protocol/src/encode.rs\<close>) does not check. It writes the extension fields
  as they stand (encode.rs:231-236): neither that their keys are extension keys nor that their
  values belong to the CBOR profile. This is the reason for the hypothesis \<open>encodable\<close> of the
  properties in \<open>Payload\<close> and \<open>Verify\<close>; an event that was parsed always satisfies it
  (\<open>Payload.parsed_encodable\<close>). The writer of the CBOR library is the one of \<open>cbor_writer\<close>, which
  also fixes what is written outside the profile.
\<close>

section \<open>The gate on a map with a good beginning\<close>

lemma drop_entry:
  assumes "drop pos cbor = encode_cbor_uint_header 0x00 k @ enc_item it @ rest"
  shows "head_at cbor pos 0 k"
    and "drop (pos + length (encode_cbor_uint_header 0x00 k)) cbor = enc_item it @ rest"
    and "drop (pos + length (encode_cbor_uint_header 0x00 k) + length (enc_item it)) cbor = rest"
proof -
  show h: "head_at cbor pos 0 k"
    using assms by (intro head_at_encode) (simp_all add: major_bytes)
  then have "pos \<le> length cbor" by (simp add: head_at_def)
  with assms show d: "drop (pos + length (encode_cbor_uint_header 0x00 k)) cbor = enc_item it @ rest"
    by (rule drop_eq_append(2))
  show "drop (pos + length (encode_cbor_uint_header 0x00 k) + length (enc_item it)) cbor = rest"
    by (rule drop_enc_item [OF d])
qed

lemma walk_map_prefix:
  assumes "item_complete cbor d"
  shows "\<forall>(k, v)\<in>set kvs. wf_item d v \<Longrightarrow> sorted_wrt (<) (map fst kvs @ [j]) \<Longrightarrow>
    \<forall>q. prev = Some q \<longrightarrow> (\<forall>k\<in>set (map fst kvs @ [j]). q < k) \<Longrightarrow>
    drop pos cbor = concat (map enc_entry kvs) @ rest \<Longrightarrow>
    \<exists>prev'. walk_map cbor pos d prev (length kvs + n)
        = walk_map cbor (pos + length (concat (map enc_entry kvs))) d prev' n \<and>
      (\<forall>q. prev' = Some q \<longrightarrow> q < j)"
proof (induction kvs arbitrary: pos prev)
  case Nil
  then show ?case by auto
next
  case (Cons kv kvs)
  obtain k it where kv: "kv = (k, it)" by (cases kv)
  have d: "drop pos cbor = encode_cbor_uint_header 0x00 k @ enc_item it @ (concat (map enc_entry kvs) @ rest)"
    using Cons.prems(4) kv by simp
  let ?p1 = "pos + length (encode_cbor_uint_header 0x00 k)"
  let ?p2 = "?p1 + length (enc_item it)"
  note e = drop_entry [OF d]
  have it: "walk_item cbor ?p1 d = Inr ?p2"
    using assms Cons.prems(1) kv e(2) unfolding item_complete_def by simp
  have k: "\<forall>q. prev = Some q \<longrightarrow> q < k"
    using Cons.prems(3) kv by auto
  have "\<exists>prev'. walk_map cbor ?p2 d (Some k) (length kvs + n)
        = walk_map cbor (?p2 + length (concat (map enc_entry kvs))) d prev' n \<and>
      (\<forall>q. prev' = Some q \<longrightarrow> q < j)"
    using Cons.prems(1,2) kv e(3) by (intro Cons.IH) auto
  then show ?case
    using walk_map_Suc [OF read_uint_key_head [OF e(1)] k it, of "length kvs + n"] kv
    by (simp add: add.assoc)
qed

lemma walk_float:
  assumes d: "drop pos cbor = h # rest" and h: "h \<in> {0xF9, 0xFA, 0xFB}" and depth: "d \<le> MAX_NESTING_DEPTH"
  shows "walk_item cbor pos d = Inl (FloatForbidden pos)"
proof -
  have "read_u8 cbor pos = Inr (h, pos + 1)" using d by (rule drop_Cons_read)
  then have "walk_item cbor pos d = (if d > MAX_NESTING_DEPTH then Inl (NestingTooDeep pos)
      else Inl (FloatForbidden pos))"
    using h by (subst walk_item.simps) (elim insertE emptyE, simp_all add: major_of_def info_of_def)
  with depth show ?thesis by simp
qed

lemma gate_refuses_float:
  assumes wf: "\<forall>(k, v)\<in>set kvs. wf_item 1 v" and s: "sorted_wrt (<) (map fst kvs @ [k])"
    and n: "length kvs < n" "n < 2 ^ 64" and h: "h \<in> {0xF9, 0xFA, 0xFB}"
    and cbor: "cbor = encode_cbor_uint_header 0xA0 (word_of_nat n) @ concat (map enc_entry kvs) @
      encode_cbor_uint_header 0x00 k @ h # rest"
    and len: "length cbor < 2 ^ 64"
  shows "\<exists>p. validate_canonical cbor = Inl (FloatForbidden p)"
proof -
  let ?p0 = "length (encode_cbor_uint_header 0xA0 (word_of_nat n))"
  let ?p1 = "?p0 + length (concat (map enc_entry kvs))"
  let ?p2 = "?p1 + length (encode_cbor_uint_header 0x00 k)"
  have top: "head_at cbor 0 5 (word_of_nat n)"
    using cbor by (intro head_at_encode) (simp_all add: major_bytes)
  have key: "head_at cbor ?p1 0 k"
    unfolding cbor by (intro head_at_encode) (simp_all add: major_bytes)
  obtain m where m: "n = length kvs + Suc m" using n(1) less_iff_Suc_add by auto
  have "drop ?p0 cbor = concat (map enc_entry kvs) @ encode_cbor_uint_header 0x00 k @ h # rest"
    unfolding cbor by simp
  from walk_map_prefix [OF walk_item_complete [OF len] wf s _ this, of None "Suc m"]
  obtain prev where walk: "walk_map cbor ?p0 1 None n = walk_map cbor ?p1 1 prev (Suc m)"
    and prev: "\<forall>q. prev = Some q \<longrightarrow> q < k" unfolding m by auto
  have "drop ?p2 cbor = h # rest" unfolding cbor by simp
  from walk_float [OF this h] have "walk_item cbor ?p2 1 = Inl (FloatForbidden ?p2)"
    by (simp add: MAX_NESTING_DEPTH_def)
  with prev have "walk_map cbor ?p1 1 prev (Suc m) = Inl (FloatForbidden ?p2)"
    by (subst walk_map.simps) (auto simp: read_uint_key_head [OF key] not_le split: option.split)
  then show ?thesis
    using walk_item_map [OF _ top, of 0] n(2) walk by (simp add: validate_canonical_def unat_of_nat)
qed

section \<open>Extension fields the encoder should not write\<close>

lemma wf_item_shallower: "wf_item (Suc d) it \<Longrightarrow> wf_item d it"
proof (induction it arbitrary: d)
  case (Dict kvs)
  then show ?case by (fastforce simp: Basic_BNFs.snds.simps)
qed auto

lemma prof_shallower: "prof 1 v \<Longrightarrow> prof 0 v"
  by (auto simp: prof_def Let_def intro: wf_item_shallower)

context cbor_writer
begin

text \<open>The entries of a good beginning, as the writer puts them out.\<close>

lemma ser_entries:
  assumes "\<And>k v. (k, v) \<in> set kvs \<Longrightarrow> prof 1 v"
  shows "concat (map (\<lambda>(k, v). ser k @ ser v) (map (\<lambda>(k, v). (bk k, v)) kvs))
    = concat (map enc_entry (map (\<lambda>(k, v). (ucast k, item_of v)) kvs))"
  using assms
proof (induction kvs)
  case (Cons kv kvs)
  obtain k v where kv: "kv = (k, v)" by (cases kv)
  have "prof 1 v" using Cons.prems [of k v] kv by simp
  then have "ser v = enc_item (item_of v)" by (intro ser_prof prof_shallower)
  moreover have "ser (bk k) = encode_cbor_uint_header 0x00 (ucast k)"
    using uint_u64_bound [of "ucast k"] by (simp add: bk_def ser_Integer)
  moreover have "concat (map (\<lambda>(k, v). ser k @ ser v) (map (\<lambda>(k, v). (bk k, v)) kvs))
      = concat (map enc_entry (map (\<lambda>(k, v). (ucast k, item_of v)) kvs))"
    using Cons.prems by (intro Cons.IH) auto
  ultimately show ?case using kv by simp
qed simp

end

lemma event_entries_split:
  assumes "ev_extension_fields ev = good @ (k, x) # bad"
  shows "event_entries ev = event_entries (ev\<lparr>ev_extension_fields := good\<rparr>) @ (k, x) # bad"
  using assms by (simp add: event_entries_def om_entries_def wire_layout_def)

lemma length_event_entries:
  assumes "om_ok (ev_extension_fields ev)"
  shows "length (event_entries ev) < 2 ^ 64"
  using distinct_u8_length [of "map fst (ev_extension_fields ev)"] assms
    length_present_entries [of "wire_layout ev"]
  by (auto simp: event_entries_def om_entries_def om_ok_def strict_sorted_iff wire_layout_def)

lemma sorted_up_to:
  assumes "om_ok (ev_extension_fields ev)" and "ev_extension_fields ev = good @ (k, x) # bad"
    and "EXTENSION_KEY_MIN \<le> k" and "ext_keys_ok (ev\<lparr>ev_extension_fields := good\<rparr>)"
  shows "sorted_wrt (<) (map fst (map (\<lambda>(k, v). (ucast k :: u64, item_of v))
    (event_entries (ev\<lparr>ev_extension_fields := good\<rparr>))) @ [ucast k])"
proof -
  have "sorted_wrt (<) (map fst (event_entries (ev\<lparr>ev_extension_fields := good @ [(k, x)]\<rparr>)))"
    using assms by (intro sorted_event_entries) (auto simp: om_ok_def sorted_wrt_append ext_keys_ok_def)
  then have "sorted_wrt (<) (map fst (event_entries (ev\<lparr>ev_extension_fields := good\<rparr>)) @ [k])"
    by (simp add: event_entries_split [where bad = "[]"])
  then show ?thesis
    by (auto simp: sorted_wrt_append sorted_wrt_map comp_def case_prod_beta elim!: sorted_wrt_mono_rel [rotated] intro: ucast_less)
qed

text \<open>
  C40: the encoder emits payloads this crate refuses, although it validates before it writes. If
  the first extension field of a valid event that is outside the CBOR profile is a floating-point
  number, under whatever extension key, then the event is encoded and the wire parser refuses
  the bytes at its canonical gate.
\<close>
theorem float_extension_refused:
  assumes "cbor_writer ser de" and "wf_event ev" and "validate_event ev = Inr ()"
    and ext: "ev_extension_fields ev = good @ (k, Float f) # bad" and k: "EXTENSION_KEY_MIN \<le> k"
    and good: "encodable (ev\<lparr>ev_extension_fields := good\<rparr>)"
    and len: "\<And>raw. encode_komms_payload ser ev = Inr raw \<Longrightarrow> length raw < 2 ^ 64"
  shows "\<exists>raw p. encode_komms_payload ser ev = Inr raw \<and>
    parse_komms_payload de raw = Inl (NonCanonical (FloatForbidden p))"
proof -
  let ?ev = "ev\<lparr>ev_extension_fields := good\<rparr>"
  let ?kvs = "map (\<lambda>(k, v). (ucast k :: u64, item_of v)) (event_entries ?ev)"
  let ?cbor = "ser (Map (event_pairs ev))"
  have enc: "encode_komms_payload ser ev = Inr (KOMMS_PAYLOAD_PREFIX @ ?cbor)"
    using assms(3) by (simp add: encode_komms_payload_def bindE_Inr_iff encode_cbor_map_Inr)
  have prof: "prof 1 v" if "(j, v) \<in> set (event_entries ?ev)" for j v
    using prof_entry [OF _ good that] valid_mime [OF assms(3)] by simp
  have ok: "om_ok (ev_extension_fields ev)" using assms(2) by (simp add: wf_event_def)
  note s = sorted_up_to [OF ok ext k encodable_keys [OF good]]
  obtain h bs where h: "ser (Float f) = h # bs" "h \<in> {0xF9, 0xFA, 0xFB}"
    using cbor_writer.ser_Float [OF assms(1)] by blast
  have n: "length ?kvs < length (event_pairs ev)" "length (event_pairs ev) < 2 ^ 64"
    using event_entries_split [OF ext] length_event_entries [OF ok] by (simp_all add: event_pairs_entries)
  have pairs: "event_pairs ev = map (\<lambda>(k, v). (bk k, v)) (event_entries ?ev) @ (bk k, Float f) #
      map (\<lambda>(k, v). (bk k, v)) bad"
    by (simp add: event_pairs_entries event_entries_split [OF ext])
  have key: "ser (bk k) = encode_cbor_uint_header 0x00 (ucast k)"
    using uint_u64_bound [of "ucast k"] by (simp add: bk_def cbor_writer.ser_Integer [OF assms(1)])
  have "?cbor = encode_cbor_uint_header 0xA0 (word_of_nat (length (event_pairs ev))) @
      concat (map enc_entry ?kvs) @ encode_cbor_uint_header 0x00 (ucast k) @ h #
      (bs @ concat (map (\<lambda>(k, v). ser k @ ser v) (map (\<lambda>(k, v). (bk k, v)) bad)))"
    unfolding cbor_writer.ser_Map [OF assms(1)]
    using cbor_writer.ser_entries [OF assms(1) prof] by (simp add: pairs key h(1))
  then have "\<exists>p. validate_canonical ?cbor = Inl (FloatForbidden p)"
    using prof len [OF enc] h(2) n
    by (intro gate_refuses_float [OF _ s]) (auto simp: prof_def Let_def)
  with enc show ?thesis by (auto simp: parse_komms_payload_def)
qed

text \<open>A server event with an extension field 1.5.\<close>

definition sample_server :: ParsedKommsEvent where
  "sample_server = default_event \<lparr> ev_sid := Some (replicate 32 7) \<rparr>"

definition float_server :: ParsedKommsEvent where
  "float_server = sample_server \<lparr> ev_extension_fields := [(33, Float 0x3FF8000000000000)] \<rparr>"

lemma valid_servers:
  "validate_event float_server = Inr ()"
  "validate_event (sample_server \<lparr> ev_target := Some [1, 2] \<rparr>) = Inr ()"
  "validate_event (sample_server \<lparr> ev_extension_fields := [(32, Bytes [1, 2])] \<rparr>) = Inr ()"
  by (rule valid_I; simp add: float_server_def sample_server_def default_event_def
      default_EventType_def row_defs)+

theorem float_extension_refused_witness:
  "\<exists>raw p. encode_komms_payload write_val float_server = Inr raw \<and>
    parse_komms_payload rfc_de raw = Inl (NonCanonical (FloatForbidden p))"
proof (rule float_extension_refused [OF rfcw.cbor_writer_axioms _ valid_servers(1)])
  show "wf_event float_server" "encodable (float_server\<lparr>ev_extension_fields := []\<rparr>)"
    by (simp_all add: float_server_def sample_server_def default_event_def wf_event_def encodable_def
        wire_layout_def om_ok_def uint_val_def)
  show "ev_extension_fields float_server = [] @ (33, Float 0x3FF8000000000000) # []"
    by (simp add: float_server_def)
  show "EXTENSION_KEY_MIN \<le> 33" by (simp add: EXTENSION_KEY_MIN_def)
  fix raw
  assume "encode_komms_payload write_val float_server = Inr raw"
  then show "length raw < 2 ^ 64"
    by (auto simp: encode_komms_payload_def bindE_Inr_iff encode_cbor_map_Inr float_server_def
        sample_server_def wire_simps encode_cbor_uint_header_def default_EventType_def)
qed

text \<open>An extension entry under a core key is written like the field of that key: two valid events,
  one with a target and one with an extension entry in its place, have one signing payload.\<close>

lemma extension_forges_target:
  "sample_server \<lparr> ev_target := Some [1, 2] \<rparr> \<noteq>
     sample_server \<lparr> ev_extension_fields := [(32, Bytes [1, 2])] \<rparr> \<and>
   signing_payload_cbor ser (sample_server \<lparr> ev_target := Some [1, 2] \<rparr>) =
     signing_payload_cbor ser (sample_server \<lparr> ev_extension_fields := [(32, Bytes [1, 2])] \<rparr>)"
proof -
  let ?a = "sample_server \<lparr> ev_target := Some [1, 2] \<rparr>"
  let ?b = "sample_server \<lparr> ev_extension_fields := [(32, Bytes [1, 2])] \<rparr>"
  have "?a\<lparr>ev_sig := None\<rparr> = ?a" "?b\<lparr>ev_sig := None\<rparr> = ?b"
    by (simp_all add: sample_server_def default_event_def)
  moreover have "event_pairs ?a = event_pairs ?b"
    by (simp add: sample_server_def wire_simps)
  ultimately have "signing_payload_cbor ser ?a = signing_payload_cbor ser ?b"
    using valid_servers(2,3) by (simp add: signing_payload_cbor_def encode_cbor_map_def
        sample_server_def default_event_def)
  then show ?thesis by (simp add: sample_server_def default_event_def om_empty_def)
qed

end
