(* ===== verification/Request_Roundtrip.thy ===== *)
theory Request_Roundtrip
  imports Decimal Hexutil
begin

text \<open>
  A signed request between \<open>sign\<close> and \<open>verify\<close> of \<open>crypto/src/request_auth.rs\<close>, with the decimal
  timestamp as \<open>to_string\<close> prints it and the hex functions as \<open>hex_codec\<close> describes them.
\<close>

lemma i64_to_string_inject:
  assumes "- (2 ^ 63) \<le> i" "i < 2 ^ 63" "- (2 ^ 63) \<le> j" "j < 2 ^ 63"
  shows "i64_to_string i = i64_to_string j \<longleftrightarrow> i = j"
  using parse_i64_to_string [of i] parse_i64_to_string [of j] assms by (metis option.inject)

lemma i64_to_string_line: "0x0A \<notin> set (i64_to_string i)"
proof -
  have "\<not> is_digit 0x0A" by (simp add: is_digit_def)
  then show ?thesis using decimal_digits [of "nat i"] decimal_digits [of "nat (- i)"]
    by (auto simp: i64_to_string_def)
qed

context hex_codec
begin

lemma trim_encode: "trim (hex_string b) = hex_string b"
  by (rule trim_visible) (use encode_digits hex_digit_visible in blast)

lemma decode_trimmed: "length b = n \<Longrightarrow> hex_decode (trim (hex_string b)) n = Some b"
  using decode_encode [of b] by (simp add: trim_encode)

end

text \<open>
  C37: a signature is good for the signed request and for no other. A request is signed with
  \<open>sign\<close> under the caller's registered secret and its timestamp in decimal; then \<open>verify\<close> is given
  that signature with any method, path, body and timestamp. Outside the allowed skew it reports
  the drift; within it, it accepts exactly if method, path, body and timestamp are the signed
  ones, and reports a mismatch otherwise, provided the HMAC does not collide on the two canonical
  inputs. (The clock and the skew are below \<open>2 ^ 62\<close> seconds; the caller's name is of visible
  characters, and method and path hold no newline.)
\<close>
theorem sign_verifies:
  assumes hex: "hex_codec hex_string hex_decode"
    and caller: "caller \<noteq> []" "\<forall>b\<in>set caller. 0x20 < b \<and> b < 0x80"
    and secret: "om_get secrets caller = Some secret"
    and bounds: "uint now < 2 ^ 62" "uint skew < 2 ^ 62"
    and ts: "- (2 ^ 63) \<le> ts" "ts < 2 ^ 63" and ts': "- (2 ^ 63) \<le> ts'" "ts' < 2 ^ 63"
    and lines: "0x0A \<notin> set (method @ path)" "0x0A \<notin> set (method' @ path')"
    and mac_len: "\<And>m. length (hmac secret m) = 32"
    and mac: "inj_on (hmac secret) {canonical_input caller (i64_to_string ts) method path body,
      canonical_input caller (i64_to_string ts') method' path' body'}"
  shows "verify hmac hex_decode (Some now) secrets method' path' body' (Some caller) (Some (i64_to_string ts'))
      (Some (sign hmac hex_string secret caller (i64_to_string ts) method path body)) skew
    = (if \<bar>uint now - ts'\<bar> > uint skew then Inl (TimestampDrift (clock_drift now ts') skew)
       else if ts' = ts \<and> method' = method \<and> path' = path \<and> body' = body then Inr caller
       else Inl HmacMismatch)"
proof -
  let ?in = "canonical_input caller (i64_to_string ts) method path body"
  let ?in' = "canonical_input caller (i64_to_string ts') method' path' body'"
  have "0x0A \<notin> set caller" using caller(2) by (auto simp: word_less_nat_alt)
  then have "?in' = ?in \<longleftrightarrow> ts' = ts \<and> method' = method \<and> path' = path \<and> body' = body"
    using lines i64_to_string_line
      canonical_input_inject [of "caller" "i64_to_string ts'" "method'" "path'" "caller"
        "i64_to_string ts" "method" "path" "body'" "body"]
    by (auto simp: i64_to_string_inject [OF ts' ts])
  moreover have "hmac secret ?in' = hmac secret ?in \<longleftrightarrow> ?in' = ?in"
    using mac by (auto dest: inj_onD)
  moreover have "hex_decode (trim (hex_string (hmac secret ?in))) (length (hmac secret ?in')) = Some (hmac secret ?in)"
    by (intro hex_codec.decode_trimmed [OF hex]) (simp add: mac_len)
  moreover have "clock_drift now ts' > skew \<longleftrightarrow> \<bar>uint now - ts'\<bar> > uint skew"
    using clock_drift_iff [OF bounds(1) ts' bounds(2)] by (simp only: not_le [symmetric])
  ultimately show ?thesis
    using caller(1) secret trim_visible [OF caller(2)] parse_i64_to_string [OF ts']
    by (simp add: verify_def sign_def Let_def del: not_less)
qed

text \<open>A checksum in the place of HMAC: the request as signed, with another body, and too late.\<close>

definition checksum_mac :: "bytes \<Rightarrow> bytes \<Rightarrow> bytes" where
  "checksum_mac key msg = replicate 32 (foldl (\<lambda>h b. 33 * h + b) 7 (key @ msg))"

definition sample_signature :: bytes where
  "sample_signature = sign checksum_mac base16_encode [1, 2, 3] [0x67, 0x77] (i64_to_string 100) [0x47] [0x2F] [5]"

definition sample_verify :: "int \<Rightarrow> bytes \<Rightarrow> RequestAuthError + bytes" where
  "sample_verify ts body = verify checksum_mac base16_decode (Some 100) [([0x67, 0x77], [1, 2, 3])] [0x47] [0x2F] body
     (Some [0x67, 0x77]) (Some (i64_to_string ts)) (Some sample_signature) 30"

theorem sign_verifies_witness:
  "sample_verify 100 [5] = Inr [0x67, 0x77] \<and> sample_verify 100 [6] = Inl HmacMismatch \<and>
   sample_verify 10 [5] = Inl (TimestampDrift 90 30)"
proof -
  let ?in = "\<lambda>ts body. canonical_input [0x67, 0x77] (i64_to_string ts) [0x47] [0x2F] body"
  have res: "sample_verify ts body = (if \<bar>100 - ts\<bar> > 30 then Inl (TimestampDrift (clock_drift 100 ts) 30)
      else if ts = 100 \<and> body = [5] then Inr [0x67, 0x77] else Inl HmacMismatch)"
    if "inj_on (checksum_mac [1, 2, 3]) {?in 100 [5], ?in ts body}" "0 \<le> ts" "ts \<le> 100" for ts body
    using sign_verifies [OF base16.hex_codec_axioms, of "[0x67, 0x77]" "[([0x67, 0x77], [1, 2, 3])]" "[1, 2, 3]"
        100 30 100 ts "[0x47]" "[0x2F]" "[0x47]" "[0x2F]" checksum_mac "[5]" body] that
    by (simp add: sample_verify_def sample_signature_def checksum_mac_def word_less_nat_alt)
  have "checksum_mac [1, 2, 3] (?in 100 [5]) \<noteq> checksum_mac [1, 2, 3] (?in 100 [6])"
    "checksum_mac [1, 2, 3] (?in 100 [5]) \<noteq> checksum_mac [1, 2, 3] (?in 10 [5])" by code_simp+
  then have "inj_on (checksum_mac [1, 2, 3]) {?in 100 [5], ?in 100 [6]}"
    "inj_on (checksum_mac [1, 2, 3]) {?in 100 [5], ?in 10 [5]}" by (auto simp: inj_on_def)
  moreover have "clock_drift 100 10 = 90" by (simp add: clock_drift_def)
  ultimately show ?thesis by (simp add: res)
qed

end
