(* ===== verification/Spec2Isabelle.thy ===== *)
theory Spec2Isabelle
  imports Cli_Env Cli_Live Cli_Schema Payload_Errors Canonical_Prefix Messages Verify_Tests Parity_Fixtures Cli_Tests Crypto_Tests Auth_Tests Encode_Limits Request_Roundtrip
begin

text \<open>
  A verification library for the Komms command line: the wire format of Komms events
  (\<open>protocol/\<close>), the v1.1 encryption primitives (\<open>crypto/\<close>) and the \<open>komms\<close> program built on
  them (\<open>src/\<close>). Paths are relative to the repository.

  \<^bold>\<open>The program.\<close> A Komms event is a record of some thirty optional fields. On the wire it is the
  prefix \<open>KOMM\<close> followed by a canonical CBOR map from small integers to values. Reading it runs
  through a gate that accepts canonical CBOR only, a CBOR decoder, a parser from the decoded map to
  the record, and a validator; writing it runs the validator and an encoder. Signatures cover the
  encoding of the event without its signature. The \<open>crypto\<close> crate derives keys and tags, seals
  single fields, chains the indexers' state hashes and authenticates HTTP requests. The program
  builds events from arguments (\<open>post\<close>), decodes payloads from arguments, files, a Kaspa node or
  the indexer's database (\<open>decode\<close>, \<open>read\<close>), derives identifiers (\<open>id\<close>), and can pay for and submit a
  transaction with a payload.

  \<^bold>\<open>Theories.\<close>
  \<^item> \<open>Prelude\<close>, \<open>Ordered_Map\<close>, \<open>Utf8\<close>: results as sums with the operator \<open>?\<close>, big-endian bytes,
    \<open>BTreeMap\<close> (locale \<open>ordered_map\<close>, interpreted on sorted association lists), UTF-8 validity and
    \<open>str::trim\<close>.
  \<^item> \<open>Cbor_Head\<close>, \<open>Canonical\<close>, \<open>Cbor_Item\<close>: \<open>protocol/src/canonical.rs\<close>. The walker with its three
    mutually recursive loops; items of the Komms profile as a datatype with their canonical
    encoding; the walker accepts exactly the encodings of well-formed items, and each has one reading.
    \<open>Canonical_Cost\<close>: the calls of the walker, linear in the length of the input. \<open>Canonical_Prefix\<close>: what
    the gate says of a prefix or an extension of its input, and where its errors point.
  \<^item> \<open>Event_Type\<close>, \<open>Event_Record\<close>, \<open>Event_Parse\<close>, \<open>Validate\<close>, \<open>Payload\<close>: \<open>protocol/src/lib.rs\<close>. The
    parser is characterised by a table from keys to fields, the validator by a table from event
    types to required and forbidden fields. \<open>Parse_Errors\<close>: which error the parser returns, from a table
    of the fields in the order in which the source takes them; \<open>Payload_Errors\<close>: the parse errors that
    are left behind the gate.
  \<^item> \<open>Cbor_Value\<close>: \<open>ciborium::Value\<close> and the interface \<open>cbor_codec\<close> of its reader and writer,
    interpreted on the encoding of \<open>Cbor_Item\<close> and the decoder proved there. \<open>Cbor_Write\<close>: the interface
    \<open>cbor_writer\<close>, an extension for bytes that are not canonical, with a writer that satisfies it.
  \<^item> \<open>Encode\<close>, \<open>Verify\<close>: \<open>protocol/src/encode.rs\<close> and \<open>verify.rs\<close>. The round trips in both directions
    (their conditions are in the statements), what a signature binds, that a received event is
    verified over its received bytes, and the event types whose signatures can never be verified.
    \<open>encodable\<close> (in \<open>Payload\<close>) is the condition that the extension fields are extension keys with
    values of the CBOR profile; parsed events satisfy it, and \<open>Encode_Limits\<close> shows what the encoder,
    which does not check it, does to other events.
  \<^item> \<open>Sealed\<close> (\<open>sealed.rs\<close>, \<open>aead.rs\<close>), \<open>Key_Derivation\<close> (\<open>kdf.rs\<close>, \<open>tags.rs\<close>), \<open>State_Hash\<close>,
    \<open>Request_Auth\<close>, \<open>Request_Roundtrip\<close>: the \<open>crypto\<close> crate. Encodings are shown unambiguous, so that
    keys, tags, state hashes, sealed fields and request signatures tell their inputs apart as far as
    the primitive does on the strings at hand: the hypotheses on HKDF, HMAC, BLAKE2b, AES-GCM and
    Ed25519 are injectivity (\<open>inj_on\<close>) or authenticity on the finitely many inputs the statement is
    about, never on all strings, which no function with outputs of fixed length satisfies. The
    state hash commits to the canonical projections of all blocks, in order of transaction id, and
    not to the transaction ids themselves.
  \<^item> \<open>Hexutil\<close>, \<open>Output\<close>: \<open>src/hexutil.rs\<close> and \<open>src/output.rs\<close>; the interface \<open>hex_codec\<close> of the hex
    library, interpreted on base 16.
  \<^item> \<open>Cli_Post\<close>, \<open>Cli_Post_Valid\<close>: the fifteen \<open>post\<close> commands, which of them pass validation, and what
    their payloads parse to. \<open>Cli_Decode\<close>: strict and lenient decoding and \<open>--verify-sig\<close>.
  \<^item> \<open>Index_Scan\<close> (\<open>src/index_scan.rs\<close> and \<open>read index\<close>), \<open>Read_Rpc\<close> (\<open>src/read_rpc.rs\<close>): which rows and
    which transaction a query finds.
  \<^item> \<open>Submit\<close>, \<open>Submit_Tx\<close>: \<open>src/submit.rs\<close>. The fee in 64-bit arithmetic and when it is exact, the
    optimality of the coin selection, the shape of the submitted transaction and what each of its
    inputs is signed over.
  \<^item> \<open>Cli_Run\<close>: the match of \<open>run\<close> in \<open>src/lib.rs\<close> over a record \<open>cli_env\<close> of everything outside the
    program. \<open>Cli_Env\<close>: the laws of that record, a sample of it, and lemmas on commands that read what
    another wrote; this theory holds the properties that span commands.
  \<^item> \<open>Cli_Io\<close>: the same commands with the calls they make to the outside, in the order of the source: reads,
    \<open>make_client\<close>, \<open>connect_rpc\<close>, every RPC request and the line of \<open>print_json\<close>, up to \<open>main\<close>
    (\<open>src/main.rs\<close>); a computation is the list of its calls with its result, and forgetting the calls
    gives \<open>run\<close>. \<open>Cli_Protocol\<close>: the protocol of the calls as a transition system, a logic of triples
    (\<open>obeys\<close>) with a rule per construct, and its consequences: what is printed and when, how many
    requests a command makes, and what can be submitted. \<open>Cli_Live\<close>: when \<open>post --submit\<close> goes through.
  \<^item> \<open>Cli_Schema\<close>: a type system for the printed documents; every command prints a document of its type.
  \<^item> \<open>Decimal\<close>, \<open>Messages\<close>: decimal numbers and the Display texts of the error types of both crates.
  \<^item> \<open>Canonical_Tests\<close>, \<open>Payload_Tests\<close>, \<open>Encode_Tests\<close>, \<open>Verify_Tests\<close>, \<open>Parity_Fixtures\<close>
    (\<open>protocol/tests/parity_fixtures.rs\<close>), \<open>Cli_Tests\<close>, \<open>Crypto_Tests\<close>, \<open>Auth_Tests\<close>: the tests of the
    repository, one definition per test function. Those of the wire format pass for every CBOR
    library with the laws of \<open>cbor_writer\<close>; a test that two hashes, tags or ciphertexts differ passes
    exactly when (or as soon as) the primitive separates the inputs of the test, which the lemmas list.

  \<^bold>\<open>Conventions.\<close> Byte strings, strings (as UTF-8) and fixed arrays are \<open>u8 list\<close>; array lengths are the
  invariant \<open>wf_event\<close>. \<open>u8\<close> to \<open>u64\<close> are machine words; \<open>usize\<close> is a natural number with the checked
  additions of the walker at 64 bits. Arithmetic that the source does not check wraps, as in a
  build without overflow checks: the clock drift of \<open>Request_Auth\<close> (its theorems assume clock and
  skew below \<open>2 ^ 62\<close>) and the fees and sums of \<open>Submit\<close> (the predicate \<open>no_overflow\<close>). Errors are
  constructors; the texts of the error types of the two crates are in \<open>Messages\<close> and \<open>Cli_Decode\<close>.

  \<^bold>\<open>Bounds.\<close> The nesting depth is the source's 8; the walker terminates because a recursive
  call either goes one level deeper, up to the limit, or has one entry of its loop less, which the
  \<open>termination\<close> proof states; the
  page scan of \<open>Read_Rpc\<close> counts its 250 rounds down. There is no fuel that the source does not have.

  \<^bold>\<open>Parameters.\<close> Third-party code is an argument of the definitions: the CBOR reader and writer, SHA-256,
  HMAC, HKDF, AES-GCM, BLAKE2b, Ed25519, the hex and postcard codecs, the bech32 parser, the
  secp256k1 signatures, the mass calculator, the node, the database, the clock and the random
  nonce. What a theorem needs of them is among its hypotheses.

  \<^bold>\<open>Not modelled.\<close> Argument parsing by \<open>clap\<close> (a command starts from the parsed \<open>Commands\<close> value), the
  layout of printed JSON (\<open>io_json_text\<close>, a parameter: \<open>serde_json\<close>) and the text \<open>anyhow\<close> makes of a failed
  command, a standard output that cannot be written (\<open>println!\<close> panics), memory clearing and
  constant-time comparison (not observable in the values). The values of the primitives are not
  computed: a golden vector is a statement about the parameter, the lemma beside it names the bytes
  hashed.
\<close>

section \<open>Properties that span components\<close>

text \<open>
  C6: what \<open>post\<close> prints, \<open>decode\<close> understands: the \<open>payload_hex\<close> of a successful \<open>post\<close> command
  (without \<open>--submit\<close>), given to \<open>decode --strict\<close>, prints exactly the document that \<open>post\<close>
  showed under \<open>event\<close>.
\<close>
theorem post_then_decode:
  assumes "env_laws env" and "refs_sized env cmd"
    and "run env (Cmd_Post cmd False url network change key fee) = Inr j"
    and "json_get j ''payload_hex'' = JStr h" and "length h < 2 ^ 64"
  shows "run env (Cmd_Decode (Some h) True False False None) = Inr (json_get j ''event'')"
proof -
  have laws: "cbor_codec (env_ser env) (env_de env)" "hex_codec (env_hex_string env) (env_hex_decode env)"
    "\<forall>x. length (env_sha256 env x) = 32" using assms(1) by (simp_all add: env_laws_def)
  from assms(3) obtain ev raw where
    post: "post_event (env_hex_decode env) (env_sha256 env) (env_parse_address env) (env_ser env) cmd False change = Inr (ev, raw)"
    and j: "j = JObj [(''payload_hex'', JStr (env_hex_string env raw)), (''event'', event_to_json (env_hex_string env) ev)]"
    by (auto simp: run_post_def bindE_Inr_iff)
  have h: "h = env_hex_string env raw" using assms(4) j by simp
  have "env_decode env raw True False False None = Inr (event_to_json (env_hex_string env) ev)"
    by (rule posted_decodes [OF assms(1,2) post]) (use assms(5) h in simp)
  moreover have "load_input_bytes (env_hex_decode env) (env_stdin env) (env_read_file env) (Some h) = Inr raw"
    unfolding h by (rule load_hex_argument [OF laws(2) post_event_prefix [OF post]])
  ultimately show ?thesis by (simp add: run_decode_def j)
qed

text \<open>
  C7: what \<open>post --submit\<close> sends, \<open>read tx\<close> shows: when a submission succeeds and the node relays
  transactions as submitted, \<open>read tx --strict\<close> with the printed transaction id prints the document
  of the posted event with the id added, the same that \<open>decode --strict\<close> prints for the
  \<open>payload_hex\<close> of the submission.
\<close>
theorem submit_then_read:
  assumes "env_laws env" and "refs_sized env cmd"
    and "env_wallet env url (case network of None \<Rightarrow> Mainnet | Some n \<Rightarrow> n) = Some wallet"
    and "env_node env url' network' = Some node" and "relays wallet node"
    and "\<forall>t. env_txid_text env t = env_hex_string env t"
    and run: "run env (Cmd_Post cmd True url network change key fee) = Inr j"
    and "json_get j ''submitted_transaction_id'' = JStr txid"
    and "json_get j ''payload_hex'' = JStr h" and "length h < 2 ^ 64"
  shows "\<exists>ev raw. post_event (env_hex_decode env) (env_sha256 env) (env_parse_address env) (env_ser env) cmd True change = Inr (ev, raw) \<and>
     run env (Cmd_Decode (Some h) True False False None) = Inr (event_to_json (env_hex_string env) ev) \<and>
     run env (Cmd_Read (Read_Tx txid url' network' None True False False None))
       = Inr (json_set (event_to_json (env_hex_string env) ev) ''txid'' (JStr txid))"
proof -
  have hex: "hex_codec (env_hex_string env) (env_hex_decode env)" using assms(1) by (simp add: env_laws_def)
  from run obtain ev raw addr pk tid raw' where
    post: "post_event (env_hex_decode env) (env_sha256 env) (env_parse_address env) (env_ser env) cmd True change = Inr (ev, raw)"
    and sub: "submit_komms_payload wallet (env_hex_decode env) (env_ser env) ev addr pk fee = Inr tid"
    and enc: "encode_komms_payload (env_ser env) ev = Inr raw'"
    and j: "j = JObj [(''submitted_transaction_id'', JStr (env_txid_text env tid)), (''payload_hex'', JStr (env_hex_string env raw'))]"
    using assms(3) by (auto simp: run_post_def run_submit_def result_simps Let_def split: if_splits)
  have raw: "raw' = raw" using post enc by (auto simp: post_event_Inr)
  have h: "h = env_hex_string env raw" and t: "txid = env_hex_string env tid"
    using assms(6,8,9) j raw by auto
  from submitted_payload [OF sub] enc raw obtain tx where tx: "submit_transaction wallet tx = Some tid" "tx_payload tx = raw"
    by auto
  with assms(5) obtain e where e: "length tid = 32" "mempool_entry node tid = Some e" "rpc_tx_payload e = raw"
    unfolding relays_def by blast
  have dec: "env_decode env raw True False False None = Inr (event_to_json (env_hex_string env) ev)"
    by (rule posted_decodes [OF assms(1,2) post]) (use assms(10) h in simp)
  have "load_input_bytes (env_hex_decode env) (env_stdin env) (env_read_file env) (Some h) = Inr raw"
    unfolding h by (rule load_hex_argument [OF hex post_event_prefix [OF post]])
  with dec have "run env (Cmd_Decode (Some h) True False False None) = Inr (event_to_json (env_hex_string env) ev)"
    by (simp add: run_decode_def)
  moreover have "parse_hex32 (env_hex_decode env) txid = Inr tid"
    unfolding t using hex_codec.parse_hex32_encode(1) [OF hex] e(1) by simp
  then have "run env (Cmd_Read (Read_Tx txid url' network' None True False False None))
       = Inr (json_set (event_to_json (env_hex_string env) ev) ''txid'' (JStr txid))"
    using assms(4) e dec by (simp add: fetch_transaction_payload_def arg_hex32_def)
  ultimately show ?thesis using post by blast
qed

text \<open>
  \<open>verify-content\<close> says a file matches a reference exactly when the reference is the hash
  reference that \<open>ref_from_content_hash\<close> makes of the file's SHA-256; a CID reference, or a hash
  reference of another length, never matches.
\<close>
lemma verify_content_iff:
  assumes "\<forall>x. length (env_sha256 env x) = 32"
    and "run env (Cmd_VerifyContent file ref_hex) = Inr j"
  shows "json_get j ''matches_ref_content_hash'' = JBool True \<longleftrightarrow>
     (\<exists>content. env_read_file env file = Some content \<and>
        parse_hex_bytes (env_hex_decode env) ref_hex = Inr (ref_from_content_hash (env_sha256 env content)))"
proof -
  from assms(2) obtain content r where c: "env_read_file env file = Some content"
    "parse_hex_bytes (env_hex_decode env) ref_hex = Inr r"
    and j: "j = JObj [(''file_sha256'', JStr (env_hex_string env (env_sha256 env content))), (''ref_hex'', JStr ref_hex),
         (''matches_ref_content_hash'', JBool (r \<noteq> [] \<and> hd r = 0x02 \<and> length r = 33 \<and> tl r = env_sha256 env content))]"
    by (auto simp: run_verify_content_def bindE_Inr_iff ok_or_Inr_iff Let_def)
  have "(r \<noteq> [] \<and> hd r = 0x02 \<and> length r = 33 \<and> tl r = env_sha256 env content) \<longleftrightarrow>
      r = ref_from_content_hash (env_sha256 env content)"
    using assms(1) by (cases r) (auto simp: ref_from_content_hash_def)
  then show ?thesis using c by (simp add: j)
qed

text \<open>
  Every way the program comes by an event keeps the invariant of the record: the arrays have
  their lengths (32 bytes for identifiers and keys, 16 for tags, 64 for signatures) and the
  extension fields are a strictly ascending map. It holds of what the map parser and the strict
  wire parser return, of what the \<open>post\<close> commands build, and the participant id keeps it.
\<close>
lemma events_well_formed:
  assumes "env_laws env"
  shows "(parse_cbor_map (env_de env) cbor = Inr ev \<longrightarrow> wf_event ev) \<and>
     (parse_komms_payload (env_de env) raw = Inr ev \<longrightarrow> wf_event ev) \<and>
     (build_post_ev (env_hex_decode env) cmd = Inr ev \<longrightarrow> wf_event ev) \<and>
     (wf_event ev \<longrightarrow> patch_member_join_leave_pid (env_sha256 env) (env_parse_address env) ev cmd submit change = Inr ev' \<longrightarrow>
        wf_event ev')"
proof (intro conjI impI)
  have map: "parse_cbor_map (env_de env) cbor = Inr ev \<Longrightarrow> wf_event ev" for cbor
    by (auto simp: parse_cbor_map_spec fields_of_def)
  show "parse_cbor_map (env_de env) cbor = Inr ev \<Longrightarrow> wf_event ev" by (rule map)
  show "parse_komms_payload (env_de env) raw = Inr ev \<Longrightarrow> wf_event ev"
    by (auto simp: parse_komms_payload_def result_simps split: if_splits intro: map)
  have hex: "hex_codec (env_hex_string env) (env_hex_decode env)" using assms by (simp add: env_laws_def)
  show "build_post_ev (env_hex_decode env) cmd = Inr ev \<Longrightarrow> wf_event ev"
    using hex_codec.build_post_built [OF hex] by (auto simp: built_def)
  show "wf_event ev'" if "wf_event ev"
    "patch_member_join_leave_pid (env_sha256 env) (env_parse_address env) ev cmd submit change = Inr ev'"
    using that assms
    by (auto simp: patch_Inr participant_id_def sha256_domain_def env_laws_def wf_event_def split: if_splits)
qed

section \<open>Witnesses\<close>

theorem post_then_decode_witness:
  "run sample_env_cli (Cmd_Decode (Some (base16_encode sample_post_raw)) True False False None)
     = Inr (event_to_json base16_encode sample_post_ev)"
proof -
  have run: "run sample_env_cli (Cmd_Post sample_post False None None None None 0)
      = Inr (JObj [(''payload_hex'', JStr (base16_encode sample_post_raw)), (''event'', event_to_json base16_encode sample_post_ev)])"
    by (simp add: run_post_def sample_post_built)
  from post_then_decode [OF sample_env_laws sample_post_sized run] sample_post_hex_length show ?thesis by simp
qed

theorem submit_then_read_witness:
  "run sample_online (Cmd_Read (Read_Tx (base16_encode (replicate 32 1)) None Mainnet None True False False None))
     = Inr (json_set (event_to_json base16_encode sample_post_ev) ''txid'' (JStr (base16_encode (replicate 32 1))))"
proof -
  let ?sub = "\<lambda>tx. if tx_payload tx = sample_post_raw then Some (replicate 32 1) else None"
  let ?addr = "\<lparr>addr_version = 0, addr_payload = [7]\<rparr>"
  let ?node = "sample_node\<lparr>mempool_entry := (\<lambda>_. Some \<lparr>rpc_tx_payload = sample_post_raw, rpc_tx_body = []\<rparr>)\<rparr>"
  have enc: "encode_komms_payload rfc_ser sample_post_ev = Inr sample_post_raw"
    using sample_post_built [of "\<lambda>_. None" False None] by (auto simp: post_event_Inr)
  obtain tx where tx: "build_transaction (sample_wallet ?sub) base16_decode rfc_ser sample_post_ev ?addr sample_key 0 = Inr tx"
    using sample_wallet_builds [OF enc sample_post_raw_length] by blast
  from built_payload [OF this] have "tx_payload tx = sample_post_raw" by (simp add: enc)
  with tx have sub: "submit_komms_payload (sample_wallet ?sub) base16_decode rfc_ser sample_post_ev ?addr sample_key 0 = Inr (replicate 32 1)"
    by (simp add: submit_komms_payload_def)
  have run: "run sample_online (Cmd_Post sample_post True None None (Some []) (Some sample_key) 0)
      = Inr (JObj [(''submitted_transaction_id'', JStr (base16_encode (replicate 32 1))),
          (''payload_hex'', JStr (base16_encode sample_post_raw))])"
    by (simp add: sample_online_def run_post_def run_submit_def sample_post_built sub enc)
  have "relays (sample_wallet ?sub) ?node" by (simp add: relays_def)
  from submit_then_read [OF sample_online_laws _ _ this _ run, of None Mainnet] sample_post_hex_length
  show ?thesis by (auto simp: sample_online_def sample_post_built)
qed

lemma verify_content_iff_example:
  "\<exists>j. run sample_env_cli (Cmd_VerifyContent [] (base16_encode (0x02 # replicate 32 7))) = Inr j \<and>
     json_get j ''matches_ref_content_hash'' = JBool True"
proof -
  let ?h = "base16_encode (0x02 # replicate 32 7)"
  have p: "parse_hex_bytes base16_decode ?h = Inr (0x02 # replicate 32 7)"
    by (rule base16.parse_hex_bytes_encode(1))
  then obtain j where j: "run sample_env_cli (Cmd_VerifyContent [] ?h) = Inr j"
    by (simp add: run_verify_content_def Let_def)
  have sha: "\<forall>x. length (env_sha256 sample_env_cli x) = 32" by simp
  from verify_content_iff [OF sha j] p have "json_get j ''matches_ref_content_hash'' = JBool True"
    by (simp add: ref_from_content_hash_def)
  with j show ?thesis by blast
qed

lemma events_well_formed_example: "wf_event sample_post_ev"
  using events_well_formed [OF sample_env_laws, where cmd = sample_post and ev = sample_post_ev]
  by (simp add: build_sample_post)

end
